(* ===== verification/Prelude.thy ===== *)
theory Prelude
  imports Complex_Main "HOL-Library.Word" "HOL-Library.Product_Lexorder" "HOL-Library.Multiset"
begin

text \<open>Shared vocabulary of the development: the result type that stands for Rust's
  \<^verbatim>\<open>Result\<close>, the sequencing combinators that stand for the \<^verbatim>\<open>?\<close> operator (outside and
  inside an open transaction), decimal rendering of machine integers, the rational model of
  \<^verbatim>\<open>f32\<close>, and the list lemmas (stable sorting, pairwise predicates, last element by key) that the
  component theories rest on.\<close>

named_theorems sort_facts \<open>sorting facts shared by the fold and the validity walk\<close>
named_theorems run_simps \<open>evaluation rules of the sequencing combinators\<close>

section \<open>Results\<close>

text \<open>\<^verbatim>\<open>Result<A, E>\<close>: \<^verbatim>\<open>Inl\<close> is \<^verbatim>\<open>Err\<close>, \<^verbatim>\<open>Inr\<close> is \<^verbatim>\<open>Ok\<close>.\<close>

type_synonym ('e, 'a) res = "'e + 'a"

definition ok_or :: "'e \<Rightarrow> 'a option \<Rightarrow> ('e, 'a) res" where
  "ok_or e x = (case x of None \<Rightarrow> Inl e | Some a \<Rightarrow> Inr a)"

definition and_then :: "('e, 'a) res \<Rightarrow> ('a \<Rightarrow> ('e, 'b) res) \<Rightarrow> ('e, 'b) res" where
  "and_then r f = (case r of Inl e \<Rightarrow> Inl e | Inr a \<Rightarrow> f a)"

definition map_err :: "('e \<Rightarrow> 'f) \<Rightarrow> ('e, 'a) res \<Rightarrow> ('f, 'a) res" where
  "map_err g r = (case r of Inl e \<Rightarrow> Inl (g e) | Inr a \<Rightarrow> Inr a)"

definition unwrap_or :: "'a \<Rightarrow> ('e, 'a) res \<Rightarrow> 'a" where
  "unwrap_or d r = (case r of Inl _ \<Rightarrow> d | Inr a \<Rightarrow> a)"

fun collect_res :: "('a \<Rightarrow> ('e, 'b) res) \<Rightarrow> 'a list \<Rightarrow> ('e, 'b list) res" where
  "collect_res f [] = Inr []"
| "collect_res f (x # xs) = (case f x of Inl e \<Rightarrow> Inl e | Inr y \<Rightarrow>
     (case collect_res f xs of Inl e \<Rightarrow> Inl e | Inr ys \<Rightarrow> Inr (y # ys)))"

lemma and_then_simps [simp, run_simps]:
  "and_then (Inl e) f = Inl e"
  "and_then (Inr a) f = f a"
  by (simp_all add: and_then_def)

lemma map_err_simps [simp, run_simps]:
  "map_err g (Inl e) = Inl (g e)"
  "map_err g (Inr a) = Inr a"
  by (simp_all add: map_err_def)

lemma unwrap_or_simps [simp, run_simps]:
  "unwrap_or d (Inl e) = d"
  "unwrap_or d (Inr a) = a"
  by (simp_all add: unwrap_or_def)

lemma ok_or_simps [simp, run_simps]:
  "ok_or e None = Inl e"
  "ok_or e (Some a) = Inr a"
  by (simp_all add: ok_or_def)

lemma and_then_Inr: "and_then r f = Inr b \<longleftrightarrow> (\<exists>a. r = Inr a \<and> f a = Inr b)"
  by (cases r) simp_all

lemma collect_res_Inr_map: "(\<And>x. x \<in> set xs \<Longrightarrow> f x = Inr (g x)) \<Longrightarrow> collect_res f xs = Inr (map g xs)"
  by (induction xs) auto

section \<open>Sequencing inside a transaction\<close>

text \<open>A step on an open transaction takes the transaction (the \<^verbatim>\<open>&mut txn\<close> of the code) and
  returns a result and the transaction after it; \<^verbatim>\<open>tx_bind\<close> is the \<^verbatim>\<open>?\<close> after such a call.\<close>

type_synonym ('t, 'e, 'a) tx_step = "'t \<Rightarrow> ('e, 'a) res \<times> 't"

definition tx_return :: "'a \<Rightarrow> ('t, 'e, 'a) tx_step" where
  "tx_return a = (\<lambda>t. (Inr a, t))"

definition tx_bind :: "('t, 'e, 'a) tx_step \<Rightarrow> ('a \<Rightarrow> ('t, 'e, 'b) tx_step) \<Rightarrow> ('t, 'e, 'b) tx_step" where
  "tx_bind m f = (\<lambda>t. case m t of (Inl e, t') \<Rightarrow> (Inl e, t') | (Inr a, t') \<Rightarrow> f a t')"

definition tx_map_err :: "('e \<Rightarrow> 'f) \<Rightarrow> ('t, 'e, 'a) tx_step \<Rightarrow> ('t, 'f, 'a) tx_step" where
  "tx_map_err g m = (\<lambda>t. case m t of (r, t') \<Rightarrow> (map_err g r, t'))"

fun tx_foreach :: "('a \<Rightarrow> ('t, 'e, unit) tx_step) \<Rightarrow> 'a list \<Rightarrow> ('t, 'e, unit) tx_step" where
  "tx_foreach f [] = tx_return ()"
| "tx_foreach f (x # xs) = tx_bind (f x) (\<lambda>_. tx_foreach f xs)"

lemma tx_return_run [simp, run_simps]: "tx_return a t = (Inr a, t)"
  by (simp add: tx_return_def)

lemma tx_bind_run:
  "tx_bind m f t = (case m t of (Inl e, t') \<Rightarrow> (Inl e, t') | (Inr a, t') \<Rightarrow> f a t')"
  by (simp add: tx_bind_def)

lemma tx_bind_Inr [run_simps]: "m t = (Inr a, t') \<Longrightarrow> tx_bind m f t = f a t'"
  by (simp add: tx_bind_def)

lemma tx_bind_Inl [run_simps]: "m t = (Inl e, t') \<Longrightarrow> tx_bind m f t = (Inl e, t')"
  by (simp add: tx_bind_def)

lemma tx_bind_cases:
  assumes "tx_bind m f t = (r, t')"
  obtains (Err) e where "m t = (Inl e, t')" "r = Inl e"
        | (Ok) a t1 where "m t = (Inr a, t1)" "f a t1 = (r, t')"
  using assms by (auto simp: tx_bind_def split: prod.splits sum.splits)

lemma tx_map_err_run: "tx_map_err g m t = (map_err g (fst (m t)), snd (m t))"
  by (simp add: tx_map_err_def split: prod.split)

lemma map_err_Inr [simp]: "map_err g r = Inr a \<longleftrightarrow> r = Inr a"
  by (cases r) simp_all

lemma tx_map_err_Inr [simp]: "tx_map_err g m t = (Inr x, t') \<longleftrightarrow> m t = (Inr x, t')"
  by (simp add: tx_map_err_def split: prod.split)

lemma tx_bind_Inr_iff: "tx_bind m f t = (Inr y, t') \<longleftrightarrow> (\<exists>x t1. m t = (Inr x, t1) \<and> f x t1 = (Inr y, t'))"
  by (auto simp: tx_bind_def split: prod.splits sum.splits)

section \<open>Decimal rendering\<close>

definition digit_char :: "nat \<Rightarrow> char" where
  "digit_char d = char_of (48 + d)"

fun nat_to_string :: "nat \<Rightarrow> string" where
  "nat_to_string n = (if n < 10 then [digit_char n] else nat_to_string (n div 10) @ [digit_char (n mod 10)])"

declare nat_to_string.simps [simp del]

lemma nat_to_string_nonempty: "nat_to_string n \<noteq> []"
  by (subst nat_to_string.simps) simp

section \<open>The \<^verbatim>\<open>f32\<close> values\<close>

text \<open>The engine only stores and compares \<^verbatim>\<open>f32\<close> confidences (no arithmetic), so a value is its
  exact rational or one of the three non-finite values; every comparison with a NaN is false.\<close>

datatype f32 = F32 rat | F32_inf | F32_neg_inf | F32_nan

fun f32_le :: "f32 \<Rightarrow> f32 \<Rightarrow> bool" where
  "f32_le (F32 a) (F32 b) = (a \<le> b)"
| "f32_le F32_nan _ = False"
| "f32_le _ F32_nan = False"
| "f32_le F32_neg_inf _ = True"
| "f32_le _ F32_inf = True"
| "f32_le F32_inf _ = False"
| "f32_le _ F32_neg_inf = False"

definition f32_ge :: "f32 \<Rightarrow> f32 \<Rightarrow> bool" where
  "f32_ge a b = f32_le b a"

definition f32_lt :: "f32 \<Rightarrow> f32 \<Rightarrow> bool" where
  "f32_lt a b = (f32_le a b \<and> \<not> f32_le b a)"

lemma f32_lt_not_ge: "f32_lt a b \<Longrightarrow> \<not> f32_ge a b"
  by (simp add: f32_lt_def f32_ge_def)

lemma f32_ge_not_lt: "f32_ge a b \<Longrightarrow> \<not> f32_lt a b"
  by (simp add: f32_lt_def f32_ge_def)

lemma f32_not_lt_cases: "\<not> f32_lt a b \<Longrightarrow> f32_ge a b \<or> a = F32_nan \<or> b = F32_nan"
  by (cases a; cases b) (auto simp: f32_lt_def f32_ge_def)

section \<open>Lists\<close>

lemma sort_key_mset_eq [sort_facts]:
  fixes k :: "'a \<Rightarrow> 'b::linorder"
  assumes "mset xs = mset ys" and "inj_on k (set xs)"
  shows "sort_key k xs = sort_key k ys"
proof (rule sort_key_inj_key_eq)
  show "mset xs = mset (sort_key k ys)"
    using assms(1) by simp
  show "inj_on k (set xs)"
    by (fact assms(2))
  show "sorted (map k (sort_key k ys))"
    by simp
qed

text \<open>A stable sort puts an element whose key is at least every other key last.\<close>

lemma insort_key_max: "\<forall>x \<in> set xs. k x < k a \<Longrightarrow> insort_key k a xs = xs @ [a]"
  by (induction xs) auto

lemma sort_key_snoc_max [sort_facts]:
  assumes "\<forall>x \<in> set xs. k x \<le> k a"
  shows "sort_key k (xs @ [a]) = sort_key k xs @ [a]"
proof (rule properties_for_sort_key)
  show "mset (sort_key k xs @ [a]) = mset (xs @ [a])" by simp
  show "filter (\<lambda>x. k y = k x) (sort_key k xs @ [a]) = filter (\<lambda>x. k y = k x) (xs @ [a])" for y
    using sort_key_stable[of k "k y" xs] by (simp add: eq_commute[of "k y"])
  show "sorted (map k (sort_key k xs @ [a]))"
    using assms by (auto simp: sorted_append)
qed

lemma sort_key_filter [sort_facts]: "filter P (sort_key k xs) = sort_key k (filter P xs)"
  by (rule filter_sort)

lemma foldl_skip:
  assumes "\<And>x s. \<not> P x \<Longrightarrow> f s x = s"
  shows "foldl f s xs = foldl f s (filter P xs)"
  using assms by (induction xs arbitrary: s) auto

lemma distinct_map_filter_le_1:
  assumes "distinct (map f xs)"
  shows "length (filter (\<lambda>x. f x = y) xs) \<le> 1"
  using assms
proof (induction xs)
  case (Cons x xs)
  have "filter (\<lambda>z. f z = y) xs = []" if "f x = y"
    using Cons.prems that by (simp add: filter_empty_conv) (metis imageI)
  with Cons show ?case by auto
qed simp

lemma filter_map_swap: "filter P (map f xs) = map f (filter (\<lambda>x. P (f x)) xs)"
  by (simp add: filter_map comp_def)

lemma find_map_swap: "find P (map f xs) = map_option f (find (\<lambda>x. P (f x)) xs)"
  by (induction xs) simp_all

lemma sort_key_map_swap: "sort_key k (map f xs) = map f (sort_key (\<lambda>x. k (f x)) xs)"
proof -
  have ins: "insort_key k (f x) (map f ys) = map f (insort_key (\<lambda>x. k (f x)) x ys)" for x ys
    by (induction ys) auto
  show ?thesis
    by (induction xs) (simp_all add: ins)
qed

end
