(* ===== verification/Mem_Types.thy ===== *)
theory Mem_Types
  imports Prelude
begin

text \<open>The value types of the crate \<^verbatim>\<open>mempill-types\<close>: identities, bi-temporal times, claims,
  edges, dispositions, the ledger, validity assertions, proposals and the read-time belief
  projection. A field \<^verbatim>\<open>f\<close> of the Rust struct \<^verbatim>\<open>S\<close> is the record field \<^verbatim>\<open>x_f\<close> with a prefix for
  \<^verbatim>\<open>S\<close>; constructors whose Rust name occurs in two enums carry a prefix as well.

  A \<^verbatim>\<open>DateTime<Utc>\<close> is its number of nanoseconds since the epoch, a UUID its \<^verbatim>\<open>u128\<close> value (the
  engine only compares them), an \<^verbatim>\<open>AgentId\<close> its string. Text that third-party code renders into a
  message (an RFC-3339 instant, a UUID) stays a symbolic piece of the message that holds the
  rendered value.\<close>

section \<open>Identities, instants and text\<close>

type_synonym instant = int
type_synonym uuid = nat
type_synonym agent_id = string
type_synonym claim_ref = uuid
type_synonym transaction_time = instant

datatype text_piece = Lit string | Rfc3339 instant | UuidStr uuid | DebugStr string

type_synonym message = "text_piece list"

datatype json =
    JNull
  | JBool bool
  | JInt int
  | JFloat rat
  | JStr string
  | JText message
  | JArr "json list"
  | JObj "(string \<times> json) list"

text \<open>\<^verbatim>\<open>serde_json\<close> renders a non-finite float as \<^verbatim>\<open>null\<close>.\<close>

fun json_of_f32 :: "f32 \<Rightarrow> json" where
  "json_of_f32 (F32 r) = JFloat r"
| "json_of_f32 _ = JNull"

record subject_line_ref =
  sl_agent_id :: agent_id
  sl_subject :: string
  sl_predicate :: string

section \<open>Valid time\<close>

datatype date_granularity = Year | Month | Day | Instant

record valid_time =
  vt_start :: "instant option"
  vt_end :: "instant option"
  vt_confidence :: f32
  vt_start_granularity :: "date_granularity option"
  vt_end_granularity :: "date_granularity option"

fun date_granularity_to_str :: "date_granularity \<Rightarrow> string" where
  "date_granularity_to_str Year = ''year''"
| "date_granularity_to_str Month = ''month''"
| "date_granularity_to_str Day = ''day''"
| "date_granularity_to_str Instant = ''instant''"

definition str_to_date_granularity :: "string \<Rightarrow> date_granularity option" where
  "str_to_date_granularity s =
     (if s = ''year'' then Some Year
      else if s = ''month'' then Some Month
      else if s = ''day'' then Some Day
      else if s = ''instant'' then Some Instant
      else None)"

lemma str_to_date_granularity_roundtrip [simp]:
  "str_to_date_granularity (date_granularity_to_str g) = Some g"
  by (cases g) (simp_all add: str_to_date_granularity_def)

lemma str_to_date_granularity_Some:
  "str_to_date_granularity s = Some g \<longleftrightarrow> s = date_granularity_to_str g"
  by (cases g) (auto simp: str_to_date_granularity_def split: if_splits)

text \<open>\<^verbatim>\<open>ValidTime::default()\<close> and the gateway's fallback: no window, confidence 0.\<close>

definition unknown_valid_time :: valid_time where
  "unknown_valid_time = \<lparr>vt_start = None, vt_end = None, vt_confidence = F32 0,
     vt_start_granularity = None, vt_end_granularity = None\<rparr>"

definition vt_is_unknown :: "valid_time \<Rightarrow> bool" where
  "vt_is_unknown vt = (vt_start vt = None \<and> vt_end vt = None)"

definition vt_is_temporally_incoherent :: "valid_time \<Rightarrow> transaction_time \<Rightarrow> bool" where
  "vt_is_temporally_incoherent vt tx_time =
     ((case (vt_start vt, vt_end vt) of (Some s, Some e) \<Rightarrow> s > e | _ \<Rightarrow> False)
      \<or> (case vt_start vt of Some s \<Rightarrow> s > tx_time | None \<Rightarrow> False))"

section \<open>Provenance\<close>

datatype external_kind = UserAsserted | ExternalFirstHand

datatype provenance_label = External external_kind | RecallReEntry | ModelDerived

fun is_cheap_path_eligible :: "provenance_label \<Rightarrow> bool" where
  "is_cheap_path_eligible (External _) = True"
| "is_cheap_path_eligible _ = False"

definition is_recall_reentry :: "provenance_label \<Rightarrow> bool" where
  "is_recall_reentry p = (p = RecallReEntry)"

record external_anchor =
  ea_nearest_external_anchor :: "claim_ref option"
  ea_derivation_depth :: "32 word"

section \<open>Claims\<close>

record fact =
  fa_subject :: string
  fa_predicate :: string
  fa_value :: json

datatype cardinality = Functional | SetValued | CardUnknown

record confidence =
  cf_value_confidence :: f32
  cf_valid_time_confidence :: f32

datatype criticality = Low | Medium | High | Critical

text \<open>\<^verbatim>\<open>derive(PartialOrd, Ord)\<close>: the order of the variants.\<close>

fun criticality_rank :: "criticality \<Rightarrow> nat" where
  "criticality_rank Low = 0"
| "criticality_rank Medium = 1"
| "criticality_rank High = 2"
| "criticality_rank Critical = 3"

lemma criticality_rank_inj: "criticality_rank a = criticality_rank b \<longleftrightarrow> a = b"
  by (cases a; cases b) simp_all

instantiation criticality :: linorder
begin

definition less_eq_criticality :: "criticality \<Rightarrow> criticality \<Rightarrow> bool" where
  "less_eq_criticality a b = (criticality_rank a \<le> criticality_rank b)"

definition less_criticality :: "criticality \<Rightarrow> criticality \<Rightarrow> bool" where
  "less_criticality a b = (criticality_rank a < criticality_rank b)"

instance
  by standard (auto simp: less_eq_criticality_def less_criticality_def criticality_rank_inj)

end

lemma criticality_Low_least [simp]: "Low \<le> c"
  by (simp add: less_eq_criticality_def)

text \<open>A claim is write-once: the operations below build claims and read their fields, none
  updates one.\<close>

record claim =
  cl_ref :: claim_ref
  cl_agent_id :: agent_id
  cl_fact :: fact
  cl_cardinality :: cardinality
  cl_provenance :: provenance_label
  cl_external_anchor :: external_anchor
  cl_transaction_time :: transaction_time
  cl_valid_time :: valid_time
  cl_confidence :: confidence
  cl_criticality :: criticality
  cl_derived_from :: "claim_ref list"
  cl_metadata :: "json option"
  cl_snapshot_schema_version :: "32 word option"

section \<open>Edges\<close>

datatype edge_kind = DerivedFrom | Supersedes | DependsOn | MutualExclusion

record claim_edge =
  ed_edge_id :: uuid
  ed_agent_id :: agent_id
  ed_from_claim :: claim_ref
  ed_to_claim :: claim_ref
  ed_kind :: edge_kind
  ed_created_at :: transaction_time

section \<open>Dispositions and the ledger\<close>

datatype disposition =
    CommittedCheap
  | CommittedInferred
  | QueuedForAdjudication
  | Contested
  | PendingConflict
  | PendingReview
  | PendingLowConfidence
  | Quarantined
  | Superseded
  | Invalidated
  | Reinstated
  | Rejected

record write_outcome =
  wo_claim_ref :: claim_ref
  wo_disposition :: disposition
  wo_contested_with :: "claim_ref list"

datatype ledger_event_kind =
    ClaimCommitted
  | ValidityAsserted
  | AdjudicationRequested
  | AdjudicationResolved
  | RecallReEntryDetected
  | EvQuarantined
  | DependentFlaggedPendingReview
  | ServedAsInjected
  | AdjudicationExpired

record ledger_entry =
  le_entry_id :: uuid
  le_agent_id :: agent_id
  le_claim_ref :: claim_ref
  le_event_kind :: ledger_event_kind
  le_disposition :: disposition
  le_rationale :: "json option"
  le_recorded_at :: transaction_time

section \<open>Validity assertions\<close>

datatype assertion_kind =
    Bound instant "date_granularity option"
  | Reopen instant

record validity_assertion =
  va_assertion_ref :: uuid
  va_agent_id :: agent_id
  va_target_claim :: claim_ref
  va_kind :: assertion_kind
  va_provenance :: provenance_label
  va_confidence :: confidence
  va_asserted_at :: transaction_time

section \<open>Beliefs\<close>

datatype belief_status = BS_Resolved | BS_Contested | BS_Conflict | BS_TimingUncertain | BS_NoBelief

datatype currency_state = Fresh | AgingUnconfirmed | Decayed

record currency_signal =
  cs_last_refreshed_at :: transaction_time
  cs_state :: currency_state
  cs_corroboration_count :: "32 word"

record belief =
  be_claim_ref :: claim_ref
  be_fact :: fact
  be_provenance :: provenance_label
  be_valid_time :: valid_time
  be_transaction_time :: transaction_time
  be_confidence :: confidence
  be_currency_signal :: currency_signal
  be_criticality :: criticality

record staleness_flag =
  sf_is_stale :: bool
  sf_reason :: "message option"

datatype marker =
    M_Contested
  | M_PendingConflict
  | M_PendingReview
  | M_AgedSetMember
  | M_RecallTainted
  | M_LowDerivationAnchor

record belief_projection =
  bp_status :: belief_status
  bp_primary :: "belief option"
  bp_alternatives :: "belief list"
  bp_currency :: currency_state
  bp_criticality :: criticality
  bp_staleness :: staleness_flag
  bp_markers :: "marker list"

datatype history_entry_status = H_Current | H_Superseded | H_Contested | H_Ended

section \<open>Proposals\<close>

datatype overturn_reason = ExternalContradiction | ValidityBound | OrDependsOnSuperseded | HighDerivationDepth

record claim_proposal =
  cp_fact :: fact
  cp_suggested_valid_time :: "valid_time option"
  cp_suggested_cardinality :: cardinality
  cp_confidence :: confidence
  cp_suggested_provenance :: "provenance_label option"

record adjudication_request =
  ar_subject_line :: subject_line_ref
  ar_incumbent :: belief
  ar_challenger :: claim
  ar_criticality :: criticality
  ar_reason :: overturn_reason

datatype adjudication_verdict = Affirm | Deny | V_Unknown

record adjudication_response =
  ap_handle_id :: uuid
  ap_verdict :: adjudication_verdict
  ap_evidence_provenance :: provenance_label

record adjudication_outcome =
  ao_handle_id :: uuid
  ao_disposition :: disposition
  ao_claim_ref :: claim_ref

end
