(* ===== verification/Config_Error.thy ===== *)
theory Config_Error
  imports Mem_Types
begin

text \<open>The engine configuration with its defaults (\<^verbatim>\<open>mempill-core/src/config.rs\<close>) and the top-level
  error type (\<^verbatim>\<open>error.rs\<close>). The boxed source of a persistence or pending-store error is the
  type parameter \<^verbatim>\<open>'e\<close>, the error type of the adapter.\<close>

text \<open>A \<^verbatim>\<open>std::time::Duration\<close> is its number of nanoseconds.\<close>

type_synonym duration = nat

record engine_config =
  ec_valid_time_confidence_threshold :: f32
  ec_corroboration_count_for_currency_boost :: "32 word"
  ec_currency_decay_rate_per_day :: f32
  ec_criticality_overturn_floor :: criticality
  ec_derivation_depth_cap_for_currency_boost :: "32 word"
  ec_derivation_depth_cap_for_overturning :: "32 word"
  ec_quarantine_burst_threshold :: "32 word"
  ec_aging_unconfirmed_threshold_days :: "32 word"
  ec_decayed_threshold_days :: "32 word"
  ec_default_adjudication_ttl :: "duration option"

text \<open>The \<^verbatim>\<open>f32\<close> literals \<^verbatim>\<open>0.7\<close> and \<^verbatim>\<open>0.05\<close> are the nearest binary32 values.\<close>

definition default_config :: engine_config where
  "default_config = \<lparr>
     ec_valid_time_confidence_threshold = F32 (11744051 / 16777216),
     ec_corroboration_count_for_currency_boost = 2,
     ec_currency_decay_rate_per_day = F32 (13421773 / 268435456),
     ec_criticality_overturn_floor = High,
     ec_derivation_depth_cap_for_currency_boost = 3,
     ec_derivation_depth_cap_for_overturning = 2,
     ec_quarantine_burst_threshold = 10,
     ec_aging_unconfirmed_threshold_days = 30,
     ec_decayed_threshold_days = 90,
     ec_default_adjudication_ttl = None\<rparr>"

datatype 'e mem_error =
    MissingProvenance
  | WriteAuthorityViolation agent_id
  | MalformedFact message
  | UnknownAgentId agent_id
  | ClaimNotFound claim_ref
  | WriteLockContention agent_id
  | SpawnBlocking message
  | AtomicCommitViolation agent_id
  | MonotonicityViolation agent_id
  | BeliefCacheInconsistency
  | IncoherentTemporalWindow message message
  | InsufficientProvenanceForOverturn provenance_label
  | AlreadyBound claim_ref message
  | TargetUnderAdjudication claim_ref
  | AmbiguousLineForClose string string nat
  | Persistence 'e
  | PragmaInitFailed message
  | OracleError message
  | PendingStore 'e
  | AdjudicationHandleNotFound uuid
  | ConfigurationError string message message

end
