(* ===== verification/Gateway_Firewall.thy ===== *)
theory Gateway_Firewall
  imports Config_Error
begin

text \<open>The ingestion gateway (\<^verbatim>\<open>engine/gateway.rs\<close>): provenance is required, the transaction time
  is the engine's, the claim reference is fresh. The amplification guard
  (\<^verbatim>\<open>engine/firewall.rs\<close>): burst, recall re-entry, derivation depth.\<close>

section \<open>Gateway\<close>

record ingest_input =
  gi_agent_id :: agent_id
  gi_fact :: fact
  gi_cardinality :: cardinality
  gi_provenance :: "provenance_label option"
  gi_external_anchor :: external_anchor
  gi_valid_time :: "valid_time option"
  gi_confidence :: confidence
  gi_criticality :: criticality
  gi_derived_from :: "claim_ref list"
  gi_metadata :: "json option"

text \<open>\<^verbatim>\<open>ClaimRef::new_random()\<close> is the argument \<^verbatim>\<open>fresh_ref\<close>.\<close>

definition stamp :: "ingest_input \<Rightarrow> transaction_time \<Rightarrow> claim_ref \<Rightarrow> ('e mem_error, claim) res" where
  "stamp input tx_time fresh_ref =
     and_then (ok_or MissingProvenance (gi_provenance input)) (\<lambda>provenance.
       Inr \<lparr>cl_ref = fresh_ref,
            cl_agent_id = gi_agent_id input,
            cl_fact = gi_fact input,
            cl_cardinality = gi_cardinality input,
            cl_provenance = provenance,
            cl_external_anchor = gi_external_anchor input,
            cl_transaction_time = tx_time,
            cl_valid_time = (case gi_valid_time input of Some vt \<Rightarrow> vt | None \<Rightarrow> unknown_valid_time),
            cl_confidence = gi_confidence input,
            cl_criticality = gi_criticality input,
            cl_derived_from = gi_derived_from input,
            cl_metadata = gi_metadata input,
            cl_snapshot_schema_version = None\<rparr>)"

lemma stamp_fields:
  assumes "stamp input now r = Inr c"
  shows "cl_ref c = r" "cl_transaction_time c = now" "cl_agent_id c = gi_agent_id input"
    "cl_fact c = gi_fact input" "gi_provenance input = Some (cl_provenance c)"
    "cl_derived_from c = gi_derived_from input" "cl_external_anchor c = gi_external_anchor input"
    "cl_cardinality c = gi_cardinality input" "cl_confidence c = gi_confidence input"
    "cl_criticality c = gi_criticality input"
  using assms by (cases "gi_provenance input"; auto simp: stamp_def)+

lemma stamp_error: "stamp input now r = Inl e \<longleftrightarrow> gi_provenance input = None \<and> e = MissingProvenance"
  by (cases "gi_provenance input") (auto simp: stamp_def)

datatype provenance_class = PC_External | PC_RecallReEntry | PC_ModelDerived

fun classify_provenance :: "provenance_label \<Rightarrow> provenance_class" where
  "classify_provenance RecallReEntry = PC_RecallReEntry"
| "classify_provenance (External _) = PC_External"
| "classify_provenance ModelDerived = PC_ModelDerived"

lemma classify_provenance_iff:
  "classify_provenance p = PC_External \<longleftrightarrow> is_cheap_path_eligible p"
  "classify_provenance p = PC_RecallReEntry \<longleftrightarrow> is_recall_reentry p"
  by (cases p; simp add: is_recall_reentry_def)+

section \<open>Amplification guard\<close>

datatype firewall_verdict =
    Admit
  | CorroborateByIdentity claim_ref bool
  | FW_Quarantine string
  | DepthCapExceeded "32 word" "32 word"

definition head_option :: "'a list \<Rightarrow> 'a option" where
  "head_option xs = (case xs of [] \<Rightarrow> None | x # _ \<Rightarrow> Some x)"

definition burst_reason :: "32 word \<Rightarrow> 32 word \<Rightarrow> string" where
  "burst_reason n threshold =
     ''burst_detected: '' @ nat_to_string (unat n)
       @ '' identical re-entries in batch (threshold: '' @ nat_to_string (unat threshold) @ '')''"

definition firewall_check :: "engine_config \<Rightarrow> claim \<Rightarrow> claim_ref list \<Rightarrow> 32 word \<Rightarrow> firewall_verdict" where
  "firewall_check cfg candidate injected_claim_refs burst_count =
     (if burst_count \<ge> ec_quarantine_burst_threshold cfg
      then FW_Quarantine (burst_reason burst_count (ec_quarantine_burst_threshold cfg))
      else
        let depth = ea_derivation_depth (cl_external_anchor candidate);
            cap = ec_derivation_depth_cap_for_overturning cfg;
            rest = (if depth > cap then DepthCapExceeded depth cap else Admit)
        in if is_recall_reentry (cl_provenance candidate)
           then (case (case head_option (cl_derived_from candidate) of
                         Some r \<Rightarrow> Some r | None \<Rightarrow> head_option injected_claim_refs) of
                   Some existing \<Rightarrow> CorroborateByIdentity existing False
                 | None \<Rightarrow> rest)
           else rest)"

lemma firewall_corroborates:
  "firewall_check cfg c injected n = CorroborateByIdentity r ind \<longleftrightarrow>
     n < ec_quarantine_burst_threshold cfg \<and> cl_provenance c = RecallReEntry \<and> \<not> ind
     \<and> (cl_derived_from c @ injected \<noteq> [] \<and> hd (cl_derived_from c @ injected) = r)"
  by (auto simp: firewall_check_def Let_def head_option_def is_recall_reentry_def
      split: list.splits if_splits)

lemma firewall_quarantine:
  "(\<exists>reason. firewall_check cfg c injected n = FW_Quarantine reason)
     \<longleftrightarrow> n \<ge> ec_quarantine_burst_threshold cfg"
  by (auto simp: firewall_check_def Let_def split: option.splits)

end
