(* ===== verification/Valid_Time.thy ===== *)
theory Valid_Time
  imports Config_Error
begin

text \<open>\<^verbatim>\<open>engine/valid_time_helpers.rs\<close>: trusted valid-time windows, the half-open overlap test, the
  trusted-succession predicate and the selection of the window that contains an instant.

  The helpers that call \<^verbatim>\<open>unwrap()\<close> are translated twice: the \<^verbatim>\<open>_run\<close> version returns
  \<^const>\<open>None\<close> where the code panics, the total version is what the callers use, and the
  lemmas show that under the callers' guards no \<^verbatim>\<open>unwrap()\<close> fires and the two agree.\<close>

section \<open>Definitions\<close>

definition valid_time_is_trusted :: "valid_time \<Rightarrow> f32 \<Rightarrow> bool" where
  "valid_time_is_trusted vt threshold = (f32_ge (vt_confidence vt) threshold \<and> vt_start vt \<noteq> None)"

definition claim_is_trusted :: "claim \<Rightarrow> f32 \<Rightarrow> bool" where
  "claim_is_trusted c threshold =
     (f32_ge (vt_confidence (cl_valid_time c)) threshold \<and> vt_start (cl_valid_time c) \<noteq> None)"

definition ends_before :: "instant option \<Rightarrow> instant \<Rightarrow> bool" where
  "ends_before e s = (case e of Some t \<Rightarrow> t \<le> s | None \<Rightarrow> False)"

definition windows_non_overlapping_bounds ::
    "instant \<Rightarrow> instant option \<Rightarrow> instant \<Rightarrow> instant option \<Rightarrow> bool" where
  "windows_non_overlapping_bounds a_start a_end b_start b_end =
     (ends_before a_end b_start \<or> ends_before b_end a_start)"

definition valid_times_non_overlapping_run :: "valid_time \<Rightarrow> valid_time \<Rightarrow> bool option" where
  "valid_times_non_overlapping_run a b =
     (case vt_start a of None \<Rightarrow> None | Some a_start \<Rightarrow>
       (case vt_start b of None \<Rightarrow> None | Some b_start \<Rightarrow>
         Some (ends_before (vt_end a) b_start \<or> ends_before (vt_end b) a_start)))"

definition windows_non_overlapping_run :: "claim \<Rightarrow> claim \<Rightarrow> bool option" where
  "windows_non_overlapping_run a b =
     (case vt_start (cl_valid_time a) of None \<Rightarrow> None | Some a_start \<Rightarrow>
       (case vt_start (cl_valid_time b) of None \<Rightarrow> None | Some b_start \<Rightarrow>
         Some (windows_non_overlapping_bounds a_start (vt_end (cl_valid_time a))
                                              b_start (vt_end (cl_valid_time b)))))"

definition windows_non_overlapping :: "claim \<Rightarrow> claim \<Rightarrow> bool" where
  "windows_non_overlapping a b =
     windows_non_overlapping_bounds (the (vt_start (cl_valid_time a))) (vt_end (cl_valid_time a))
                                    (the (vt_start (cl_valid_time b))) (vt_end (cl_valid_time b))"

text \<open>The two nested loops: each claim against every later one, stopping at the first overlap.\<close>

fun non_overlapping_with_rest_run :: "claim \<Rightarrow> claim list \<Rightarrow> bool option" where
  "non_overlapping_with_rest_run c [] = Some True"
| "non_overlapping_with_rest_run c (d # ds) =
     (case windows_non_overlapping_run c d of
        None \<Rightarrow> None
      | Some False \<Rightarrow> Some False
      | Some True \<Rightarrow> non_overlapping_with_rest_run c ds)"

fun pairwise_non_overlapping_run :: "claim list \<Rightarrow> bool option" where
  "pairwise_non_overlapping_run [] = Some True"
| "pairwise_non_overlapping_run (c # cs) =
     (case non_overlapping_with_rest_run c cs of
        None \<Rightarrow> None
      | Some False \<Rightarrow> Some False
      | Some True \<Rightarrow> pairwise_non_overlapping_run cs)"

definition is_trusted_succession_run :: "claim list \<Rightarrow> f32 \<Rightarrow> bool option" where
  "is_trusted_succession_run cs threshold =
     (if \<not> list_all (\<lambda>c. claim_is_trusted c threshold) cs then Some False
      else pairwise_non_overlapping_run cs)"

fun pairwise_non_overlapping :: "claim list \<Rightarrow> bool" where
  "pairwise_non_overlapping [] = True"
| "pairwise_non_overlapping (c # cs) =
     (list_all (windows_non_overlapping c) cs \<and> pairwise_non_overlapping cs)"

definition is_trusted_succession :: "claim list \<Rightarrow> f32 \<Rightarrow> bool" where
  "is_trusted_succession cs threshold =
     (list_all (\<lambda>c. claim_is_trusted c threshold) cs \<and> pairwise_non_overlapping cs)"

definition window_contains :: "instant \<Rightarrow> instant option \<Rightarrow> instant \<Rightarrow> bool" where
  "window_contains s e t = (t \<ge> s \<and> (case e of None \<Rightarrow> True | Some x \<Rightarrow> t < x))"

text \<open>\<^const>\<open>None\<close>: the \<^verbatim>\<open>unwrap()\<close> panicked; \<^verbatim>\<open>Some None\<close>: no window contains the instant.\<close>

fun select_by_valid_time_instant_run :: "claim list \<Rightarrow> instant \<Rightarrow> claim option option" where
  "select_by_valid_time_instant_run [] t = Some None"
| "select_by_valid_time_instant_run (c # cs) t =
     (case vt_start (cl_valid_time c) of
        None \<Rightarrow> None
      | Some s \<Rightarrow> if window_contains s (vt_end (cl_valid_time c)) t then Some (Some c)
                  else select_by_valid_time_instant_run cs t)"

definition claim_window_contains :: "claim \<Rightarrow> instant \<Rightarrow> bool" where
  "claim_window_contains c t =
     window_contains (the (vt_start (cl_valid_time c))) (vt_end (cl_valid_time c)) t"

definition select_by_valid_time_instant :: "claim list \<Rightarrow> instant \<Rightarrow> claim option" where
  "select_by_valid_time_instant cs t = find (\<lambda>c. claim_window_contains c t) cs"

section \<open>The overlap test\<close>

text \<open>The specification of the test: a window is the set of its instants.\<close>

definition window_set :: "instant \<Rightarrow> instant option \<Rightarrow> instant set" where
  "window_set s e = {t. window_contains s e t}"

definition window_nonempty :: "instant \<Rightarrow> instant option \<Rightarrow> bool" where
  "window_nonempty s e = (case e of None \<Rightarrow> True | Some x \<Rightarrow> s < x)"

lemma window_set_nonempty_iff: "window_set s e \<noteq> {} \<longleftrightarrow> window_nonempty s e"
  by (auto simp: window_set_def window_contains_def window_nonempty_def split: option.splits)

lemma non_overlapping_disjoint:
  "windows_non_overlapping_bounds as ae bs be \<Longrightarrow> window_set as ae \<inter> window_set bs be = {}"
  by (auto simp: windows_non_overlapping_bounds_def ends_before_def window_set_def window_contains_def
      split: option.splits)

lemma disjoint_non_overlapping:
  assumes "window_nonempty as ae" "window_nonempty bs be"
    and dis: "window_set as ae \<inter> window_set bs be = {}"
  shows "windows_non_overlapping_bounds as ae bs be"
proof (rule ccontr)
  assume "\<not> windows_non_overlapping_bounds as ae bs be"
  then have "max as bs \<in> window_set as ae \<inter> window_set bs be"
    using assms(1,2)
    by (auto simp: windows_non_overlapping_bounds_def ends_before_def window_set_def
        window_contains_def window_nonempty_def max_def split: option.splits)
  with dis show False by simp
qed

lemma windows_non_overlapping_bounds_commute:
  "windows_non_overlapping_bounds as ae bs be = windows_non_overlapping_bounds bs be as ae"
  by (auto simp: windows_non_overlapping_bounds_def)

lemma windows_non_overlapping_commute: "windows_non_overlapping a b = windows_non_overlapping b a"
  by (simp add: windows_non_overlapping_def windows_non_overlapping_bounds_commute)

lemma windows_non_overlapping_not_both:
  assumes "windows_non_overlapping a b" "claim_window_contains a t"
  shows "\<not> claim_window_contains b t"
  using non_overlapping_disjoint assms
  by (fastforce simp: windows_non_overlapping_def claim_window_contains_def window_set_def)

section \<open>Trusted successions\<close>

lemma pairwise_non_overlapping_set:
  "distinct cs \<Longrightarrow> pairwise_non_overlapping cs \<longleftrightarrow>
     (\<forall>a \<in> set cs. \<forall>b \<in> set cs. a \<noteq> b \<longrightarrow> windows_non_overlapping a b)"
  by (induction cs) (auto simp: list_all_iff windows_non_overlapping_commute)

lemma pairwise_non_overlapping_nth:
  "pairwise_non_overlapping cs \<longleftrightarrow>
     (\<forall>i j. i < j \<longrightarrow> j < length cs \<longrightarrow> windows_non_overlapping (cs ! i) (cs ! j))"
proof (induction cs)
  case (Cons c cs)
  show ?case
  proof
    assume "pairwise_non_overlapping (c # cs)"
    then show "\<forall>i j. i < j \<longrightarrow> j < length (c # cs) \<longrightarrow>
        windows_non_overlapping ((c # cs) ! i) ((c # cs) ! j)"
      using Cons by (auto simp: list_all_length nth_Cons split: nat.splits)
  next
    assume *: "\<forall>i j. i < j \<longrightarrow> j < length (c # cs) \<longrightarrow>
        windows_non_overlapping ((c # cs) ! i) ((c # cs) ! j)"
    have "windows_non_overlapping c (cs ! j)" if "j < length cs" for j
      using *[rule_format, of 0 "Suc j"] that by simp
    moreover have "windows_non_overlapping (cs ! i) (cs ! j)" if "i < j" "j < length cs" for i j
      using *[rule_format, of "Suc i" "Suc j"] that by simp
    ultimately show "pairwise_non_overlapping (c # cs)"
      using Cons by (auto simp: list_all_length)
  qed
qed simp

lemma windows_non_overlapping_run_trusted:
  assumes "claim_is_trusted a th" "claim_is_trusted b th'"
  shows "windows_non_overlapping_run a b = Some (windows_non_overlapping a b)"
  using assms by (auto simp: windows_non_overlapping_run_def windows_non_overlapping_def claim_is_trusted_def)

lemma non_overlapping_with_rest_run_trusted:
  assumes "claim_is_trusted c th" "list_all (\<lambda>c. claim_is_trusted c th) cs"
  shows "non_overlapping_with_rest_run c cs = Some (list_all (windows_non_overlapping c) cs)"
  using assms by (induction cs) (auto simp: windows_non_overlapping_run_trusted split: bool.split)

lemma pairwise_non_overlapping_run_trusted:
  "list_all (\<lambda>c. claim_is_trusted c th) cs \<Longrightarrow>
     pairwise_non_overlapping_run cs = Some (pairwise_non_overlapping cs)"
  by (induction cs) (auto simp: non_overlapping_with_rest_run_trusted split: bool.split)

lemma is_trusted_succession_run_total:
  "is_trusted_succession_run cs th = Some (is_trusted_succession cs th)"
  by (simp add: is_trusted_succession_run_def is_trusted_succession_def
      pairwise_non_overlapping_run_trusted)

lemma select_run_trusted:
  "list_all (\<lambda>c. claim_is_trusted c th) cs \<Longrightarrow>
     select_by_valid_time_instant_run cs t = Some (select_by_valid_time_instant cs t)"
  by (induction cs)
    (auto simp: select_by_valid_time_instant_def claim_is_trusted_def claim_window_contains_def)

section \<open>Selection by instant\<close>

lemma select_Some:
  "select_by_valid_time_instant cs t = Some c \<Longrightarrow> c \<in> set cs \<and> claim_window_contains c t"
  by (auto simp: select_by_valid_time_instant_def find_Some_iff in_set_conv_nth)

lemma select_None:
  "select_by_valid_time_instant cs t = None \<longleftrightarrow> (\<forall>c \<in> set cs. \<not> claim_window_contains c t)"
  by (auto simp: select_by_valid_time_instant_def find_None_iff)

lemma pairwise_unique_containing:
  assumes "pairwise_non_overlapping cs" "i < length cs" "j < length cs"
    "claim_window_contains (cs ! i) t" "claim_window_contains (cs ! j) t"
  shows "i = j"
proof (rule ccontr)
  assume "i \<noteq> j"
  then consider "i < j" | "j < i" by linarith
  then show False
    using assms by cases (metis pairwise_non_overlapping_nth windows_non_overlapping_not_both)+
qed

text \<open>In a pairwise non-overlapping list the selected claim does not depend on the order.\<close>

lemma select_unique:
  assumes "pairwise_non_overlapping cs" "c \<in> set cs" "claim_window_contains c t"
  shows "select_by_valid_time_instant cs t = Some c"
proof (cases "select_by_valid_time_instant cs t")
  case None
  then show ?thesis using assms by (simp add: select_None)
next
  case (Some d)
  then have "d \<in> set cs" "claim_window_contains d t" by (auto dest: select_Some)
  then have "d = c"
    using assms pairwise_unique_containing by (metis in_set_conv_nth)
  then show ?thesis using Some by simp
qed

lemma is_trusted_succession_small [simp]:
  "is_trusted_succession [] th"
  "is_trusted_succession [c] th = claim_is_trusted c th"
  by (simp_all add: is_trusted_succession_def)

lemma is_trusted_succession_Cons:
  "is_trusted_succession (c # cs) th \<longleftrightarrow>
     claim_is_trusted c th \<and> (\<forall>d \<in> set cs. windows_non_overlapping c d) \<and> is_trusted_succession cs th"
  by (auto simp: is_trusted_succession_def list_all_iff)

lemma is_trusted_succession_mset:
  assumes "mset cs = mset ds"
  shows "is_trusted_succession cs th = is_trusted_succession ds th"
proof -
  have "is_trusted_succession cs th" if "mset cs = mset ds" "is_trusted_succession ds th" for cs ds
    using that
  proof (induction ds arbitrary: cs)
    case (Cons d ds)
    then have "d \<in> set cs" by (metis list.set_intros(1) mset_eq_setD)
    then obtain xs ys where cs: "cs = xs @ d # ys" by (meson split_list)
    then have m: "mset (xs @ ys) = mset ds" using Cons.prems(1) by simp
    then have ih: "is_trusted_succession (xs @ ys) th"
      using Cons.IH Cons.prems(2) by (simp add: is_trusted_succession_Cons)
    have d: "claim_is_trusted d th" "\<forall>e \<in> set (xs @ ys). windows_non_overlapping d e"
      using Cons.prems(2) mset_eq_setD[OF m] by (auto simp: is_trusted_succession_Cons)
    have "is_trusted_succession (zs @ d # ys) th" if "is_trusted_succession (zs @ ys) th"
      "\<forall>e \<in> set (zs @ ys). windows_non_overlapping d e" for zs
      using that d(1)
      by (induction zs) (auto simp: is_trusted_succession_Cons windows_non_overlapping_commute)
    then show ?case using ih d cs by blast
  qed simp
  then show ?thesis using assms by metis
qed

end
