(* ===== verification/Truth_Engine.thy ===== *)
theory Truth_Engine
  imports Valid_Time
begin

text \<open>\<^verbatim>\<open>engine/truth_engine.rs\<close>: the canonical ordering key, the bound/reopen walk over the validity
  assertions of a claim, the fold of a subject line with its succession narrowing and conflict
  flag, the \<^verbatim>\<open>valid_at\<close> re-derivation, the conflict-candidate set, and the history windows.\<close>

section \<open>Dispositions, statuses and the ordering key\<close>

fun is_non_live_disposition :: "disposition \<Rightarrow> bool" where
  "is_non_live_disposition Quarantined = True"
| "is_non_live_disposition Superseded = True"
| "is_non_live_disposition Invalidated = True"
| "is_non_live_disposition Rejected = True"
| "is_non_live_disposition _ = False"

fun is_hard_excluded_disposition :: "disposition \<Rightarrow> bool" where
  "is_hard_excluded_disposition Quarantined = True"
| "is_hard_excluded_disposition Invalidated = True"
| "is_hard_excluded_disposition Rejected = True"
| "is_hard_excluded_disposition _ = False"

lemma hard_excluded_non_live: "is_hard_excluded_disposition d \<Longrightarrow> is_non_live_disposition d"
  by (cases d) simp_all

lemma non_live_not_hard_excluded:
  "is_non_live_disposition d \<Longrightarrow> \<not> is_hard_excluded_disposition d \<Longrightarrow> d = Superseded"
  by (cases d) simp_all

record claim_with_status =
  cw_claim :: claim
  cw_is_live :: bool
  cw_last_disposition :: "disposition option"
  cw_bound_at :: "instant option"
  cw_bound_at_granularity :: "date_granularity option"

record fold_result =
  fr_live_claims :: "claim_with_status list"
  fr_has_conflict :: bool
  fr_succession_selected :: bool
  fr_all_claims :: "claim_with_status list"

definition ordering_key :: "claim \<Rightarrow> engine_config \<Rightarrow> instant \<times> instant \<times> nat" where
  "ordering_key c cfg =
     (let primary = (if f32_ge (vt_confidence (cl_valid_time c)) (ec_valid_time_confidence_threshold cfg)
                     then (case vt_start (cl_valid_time c) of
                             Some s \<Rightarrow> s | None \<Rightarrow> cl_transaction_time c)
                     else cl_transaction_time c)
      in (primary, cl_transaction_time c, cl_ref c))"

lemma ordering_key_inj: "inj_on cl_ref S \<Longrightarrow> inj_on (\<lambda>c. ordering_key c cfg) S"
  by (auto simp: inj_on_def ordering_key_def Let_def)

section \<open>The bound/reopen walk\<close>

record bound_state =
  bs_bound_at :: instant
  bs_assertion_ref :: uuid
  bs_bound_at_granularity :: "date_granularity option"

definition assertion_key :: "validity_assertion \<Rightarrow> instant \<times> uuid" where
  "assertion_key a = (va_asserted_at a, va_assertion_ref a)"

text \<open>The body of the loop over the sorted assertions.\<close>

definition bound_step :: "instant \<Rightarrow> validity_assertion \<Rightarrow> bound_state option \<Rightarrow> bound_state option" where
  "bound_step as_of a state =
     (if va_asserted_at a > as_of then state
      else case va_kind a of
        Bound bound_at gran \<Rightarrow>
          if bound_at \<le> as_of
          then Some \<lparr>bs_bound_at = bound_at, bs_assertion_ref = va_assertion_ref a,
                     bs_bound_at_granularity = gran\<rparr>
          else state
      | Reopen reopen_at \<Rightarrow> if reopen_at \<le> as_of then None else state)"

definition active_bound_at :: "validity_assertion list \<Rightarrow> instant \<Rightarrow> bound_state option" where
  "active_bound_at assertions as_of =
     foldl (\<lambda>state a. bound_step as_of a state) None (sort_key assertion_key assertions)"

definition is_claim_live :: "validity_assertion list \<Rightarrow> instant \<Rightarrow> bool" where
  "is_claim_live assertions as_of = (active_bound_at assertions as_of = None)"

section \<open>The canonical fold\<close>

definition with_status ::
    "(claim_ref \<Rightarrow> validity_assertion list) \<Rightarrow> instant \<Rightarrow> (claim_ref \<Rightarrow> disposition option) \<Rightarrow> claim \<Rightarrow> claim_with_status" where
  "with_status assertions_for as_of latest_disposition c =
     (let last_disp = latest_disposition (cl_ref c);
          disposition_live = (case last_disp of Some d \<Rightarrow> \<not> is_non_live_disposition d | None \<Rightarrow> True);
          active_bound = active_bound_at (assertions_for (cl_ref c)) as_of
      in \<lparr>cw_claim = c,
          cw_is_live = (active_bound = None \<and> disposition_live),
          cw_last_disposition = last_disp,
          cw_bound_at = map_option bs_bound_at active_bound,
          cw_bound_at_granularity = Option.bind active_bound bs_bound_at_granularity\<rparr>)"

text \<open>Step 4: narrow a live trusted succession of several claims to the one containing the instant.\<close>

definition narrow_succession ::
    "f32 \<Rightarrow> instant \<Rightarrow> claim_with_status list \<Rightarrow> claim_with_status list \<times> bool" where
  "narrow_succession threshold vt_instant live =
     (if length live > 1 \<and> is_trusted_succession (map cw_claim live) threshold
      then (case select_by_valid_time_instant (map cw_claim live) vt_instant of
              Some c \<Rightarrow> (filter (\<lambda>cs. cl_ref (cw_claim cs) = cl_ref c) live, True)
            | None \<Rightarrow> ([], True))
      else (live, False))"

text \<open>Step 5: the structural conflict flag.\<close>

definition structural_conflict :: "claim_with_status list \<Rightarrow> bool" where
  "structural_conflict live =
     (length (filter (\<lambda>cs. cl_cardinality (cw_claim cs) = Functional) live) > 1
      \<or> (length live > 1 \<and> list_ex (\<lambda>cs. cl_cardinality (cw_claim cs) \<noteq> SetValued) live))"

definition fold_claims ::
    "claim list \<Rightarrow> (claim_ref \<Rightarrow> validity_assertion list) \<Rightarrow> instant \<Rightarrow> instant option \<Rightarrow> engine_config
       \<Rightarrow> (claim_ref \<Rightarrow> disposition option) \<Rightarrow> fold_result" where
  "fold_claims claims assertions_for as_of valid_at cfg latest_disposition =
     (let sorted_claims = sort_key (\<lambda>c. ordering_key c cfg) claims;
          all_claims = map (with_status assertions_for as_of latest_disposition) sorted_claims;
          live = filter cw_is_live all_claims;
          vt_instant = (case valid_at of Some t \<Rightarrow> t | None \<Rightarrow> as_of);
          (narrowed, selected) = narrow_succession (ec_valid_time_confidence_threshold cfg) vt_instant live
      in \<lparr>fr_live_claims = narrowed, fr_has_conflict = structural_conflict narrowed,
          fr_succession_selected = selected, fr_all_claims = all_claims\<rparr>)"

section \<open>Effective windows\<close>

definition narrowed_valid_end ::
    "claim \<Rightarrow> instant option \<Rightarrow> date_granularity option \<Rightarrow> instant option \<times> date_granularity option" where
  "narrowed_valid_end c bound_at gran =
     (case (vt_end (cl_valid_time c), bound_at) of
        (Some oe, Some ba) \<Rightarrow> if ba < oe then (Some ba, gran)
                              else (Some oe, vt_end_granularity (cl_valid_time c))
      | (Some oe, None) \<Rightarrow> (Some oe, vt_end_granularity (cl_valid_time c))
      | (None, Some ba) \<Rightarrow> (Some ba, gran)
      | (None, None) \<Rightarrow> (None, None))"

definition end_is_bound_derived :: "claim \<Rightarrow> instant option \<Rightarrow> bool" where
  "end_is_bound_derived c bound_at =
     (case (vt_end (cl_valid_time c), bound_at) of
        (Some oe, Some ba) \<Rightarrow> ba < oe
      | (None, Some _) \<Rightarrow> True
      | _ \<Rightarrow> False)"

definition claim_with_effective_window :: "claim_with_status \<Rightarrow> claim" where
  "claim_with_effective_window cs =
     (let (e, g) = narrowed_valid_end (cw_claim cs) (cw_bound_at cs) (cw_bound_at_granularity cs)
      in (cw_claim cs)\<lparr>cl_valid_time :=
            (cl_valid_time (cw_claim cs))\<lparr>vt_end := e, vt_end_granularity := g\<rparr>\<rparr>)"

definition is_hard_excluded :: "claim_with_status \<Rightarrow> bool" where
  "is_hard_excluded cs =
     (case cw_last_disposition cs of Some d \<Rightarrow> is_hard_excluded_disposition d | None \<Rightarrow> False)"

definition valid_at_candidate :: "claim_ref set \<Rightarrow> claim_with_status \<Rightarrow> bool" where
  "valid_at_candidate denied cs =
     (if is_hard_excluded cs then False
      else cw_is_live cs \<or> (cw_bound_at cs \<noteq> None \<and> cl_ref (cw_claim cs) \<notin> denied))"

definition narrow_live_claims_for_valid_at ::
    "fold_result \<Rightarrow> instant \<Rightarrow> claim_ref set \<Rightarrow> engine_config \<Rightarrow> fold_result" where
  "narrow_live_claims_for_valid_at fr valid_at denied cfg =
     (let candidates = filter (valid_at_candidate denied) (fr_all_claims fr);
          narrowed = map claim_with_effective_window candidates
      in if is_trusted_succession narrowed (ec_valid_time_confidence_threshold cfg)
         then \<lparr>fr_live_claims =
                  (case select_by_valid_time_instant narrowed valid_at of
                     Some c \<Rightarrow> filter (\<lambda>cs. cl_ref (cw_claim cs) = cl_ref c) candidates
                   | None \<Rightarrow> []),
               fr_has_conflict = False, fr_succession_selected = True,
               fr_all_claims = fr_all_claims fr\<rparr>
         else fr)"

definition build_conflict_candidate_claims :: "fold_result \<Rightarrow> claim_ref set \<Rightarrow> claim list" where
  "build_conflict_candidate_claims fr denied =
     map (\<lambda>cs. if cw_is_live cs then cw_claim cs else claim_with_effective_window cs)
       (filter (valid_at_candidate denied) (fr_all_claims fr))"

section \<open>Beliefs and folded statuses\<close>

definition claim_to_belief_raw :: "claim \<Rightarrow> belief" where
  "claim_to_belief_raw c =
     \<lparr>be_claim_ref = cl_ref c, be_fact = cl_fact c, be_provenance = cl_provenance c,
      be_valid_time = cl_valid_time c, be_transaction_time = cl_transaction_time c,
      be_confidence = cl_confidence c,
      be_currency_signal = \<lparr>cs_last_refreshed_at = cl_transaction_time c, cs_state = Fresh,
                            cs_corroboration_count = 0\<rparr>,
      be_criticality = cl_criticality c\<rparr>"

definition claim_to_belief :: "claim_with_status \<Rightarrow> belief" where
  "claim_to_belief cs = claim_to_belief_raw (cw_claim cs)"

definition fold_status :: "fold_result \<Rightarrow> bool \<Rightarrow> belief_status" where
  "fold_status fr has_pending_review =
     (if fr_live_claims fr = [] then BS_NoBelief
      else if fr_has_conflict fr then BS_Conflict
      else if length (fr_live_claims fr) = 1
           then (if vt_is_unknown (cl_valid_time (cw_claim (hd (fr_live_claims fr))))
                 then BS_TimingUncertain else BS_Resolved)
           else BS_Resolved)"

definition fold_staleness :: "fold_result \<Rightarrow> staleness_flag" where
  "fold_staleness fr =
     (if fr_live_claims fr = []
      then \<lparr>sf_is_stale = True, sf_reason = Some [Lit ''no live claim on subject-line'']\<rparr>
      else \<lparr>sf_is_stale = False, sf_reason = None\<rparr>)"

section \<open>History windows\<close>

record history_window =
  hw_valid_until :: "instant option"
  hw_valid_until_granularity :: "date_granularity option"
  hw_contested :: bool
  hw_contains_now :: bool

definition primary_key_and_granularity ::
    "claim \<Rightarrow> engine_config \<Rightarrow> instant \<times> date_granularity option" where
  "primary_key_and_granularity c cfg =
     (if f32_ge (vt_confidence (cl_valid_time c)) (ec_valid_time_confidence_threshold cfg)
      then (case vt_start (cl_valid_time c) of
              Some s \<Rightarrow> (s, vt_start_granularity (cl_valid_time c))
            | None \<Rightarrow> (cl_transaction_time c, None))
      else (cl_transaction_time c, None))"

definition primary_key :: "claim \<Rightarrow> engine_config \<Rightarrow> instant" where
  "primary_key c cfg = fst (primary_key_and_granularity c cfg)"

text \<open>One iteration of the loop: the entry, the entries after it.\<close>

definition history_window_of ::
    "bool \<Rightarrow> instant \<Rightarrow> engine_config \<Rightarrow> claim_with_status \<Rightarrow> claim_with_status list \<Rightarrow> history_window" where
  "history_window_of has_conflict now cfg cs later =
     (let threshold = ec_valid_time_confidence_threshold cfg;
          c = cw_claim cs;
          my_key = primary_key c cfg;
          succ = find (\<lambda>d. primary_key (cw_claim d) cfg > my_key) later;
          bound_at = cw_bound_at cs;
          (own_end, own_end_gran) = narrowed_valid_end c bound_at (cw_bound_at_granularity cs);
          (valid_until, gran, overlap) =
            (case succ of
               None \<Rightarrow> (own_end, own_end_gran, False)
             | Some d \<Rightarrow>
                 let s = cw_claim d;
                     (succ_key, succ_gran) = primary_key_and_granularity s cfg;
                     both_trusted = (claim_is_trusted c threshold \<and> claim_is_trusted s threshold);
                     overlapping = (both_trusted \<and>
                        \<not> windows_non_overlapping_bounds (the (vt_start (cl_valid_time c))) own_end
                             (the (vt_start (cl_valid_time s))) (vt_end (cl_valid_time s)));
                     bound_derived_no_gran = (own_end_gran = None \<and> end_is_bound_derived c bound_at);
                     gran_at_succ_key = (\<lambda>oe g. case g of Some x \<Rightarrow> Some x
                        | None \<Rightarrow> if bound_derived_no_gran \<and> oe = succ_key then succ_gran else None)
                 in (case own_end of
                       Some oe \<Rightarrow>
                         if overlapping then (Some oe, own_end_gran, True)
                         else if oe \<le> succ_key then (Some oe, gran_at_succ_key oe own_end_gran, False)
                         else (Some succ_key, succ_gran, False)
                     | None \<Rightarrow>
                         if overlapping then (None, None, True)
                         else (Some succ_key, succ_gran, False)))
      in \<lparr>hw_valid_until = valid_until, hw_valid_until_granularity = gran,
          hw_contested = (overlap \<or> (cw_is_live cs \<and> has_conflict)),
          hw_contains_now =
            ((case vt_start (cl_valid_time c) of None \<Rightarrow> True | Some s \<Rightarrow> now \<ge> s)
             \<and> (case valid_until of None \<Rightarrow> True | Some vu \<Rightarrow> now < vu))\<rparr>)"

fun compute_history_windows ::
    "claim_with_status list \<Rightarrow> bool \<Rightarrow> instant \<Rightarrow> engine_config \<Rightarrow> history_window list" where
  "compute_history_windows [] has_conflict now cfg = []"
| "compute_history_windows (cs # rest) has_conflict now cfg =
     history_window_of has_conflict now cfg cs rest # compute_history_windows rest has_conflict now cfg"

end
