(* ===== verification/Truth_Facts.thy ===== *)
theory Truth_Facts
  imports Truth_Engine
begin

text \<open>Facts of the truth engine: the bound/reopen walk as the last effective assertion, its
  independence of the arrival order and of assertions that are not visible yet, the order
  independence of the fold, the shape of its result, and the \<^verbatim>\<open>valid_at\<close> re-derivation.\<close>

section \<open>The bound/reopen walk\<close>

text \<open>An assertion has an effect at a cutoff when it is visible there and its own instant has
  been reached.\<close>

definition assertion_instant :: "assertion_kind \<Rightarrow> instant" where
  "assertion_instant k = (case k of Bound b _ \<Rightarrow> b | Reopen r \<Rightarrow> r)"

definition effective_at :: "instant \<Rightarrow> validity_assertion \<Rightarrow> bool" where
  "effective_at t a = (va_asserted_at a \<le> t \<and> assertion_instant (va_kind a) \<le> t)"

definition assertion_effect :: "validity_assertion \<Rightarrow> bound_state option" where
  "assertion_effect a =
     (case va_kind a of
        Bound b g \<Rightarrow> Some \<lparr>bs_bound_at = b, bs_assertion_ref = va_assertion_ref a, bs_bound_at_granularity = g\<rparr>
      | Reopen _ \<Rightarrow> None)"

lemma bound_step_effect: "bound_step t a s = (if effective_at t a then assertion_effect a else s)"
  by (simp add: bound_step_def effective_at_def assertion_effect_def assertion_instant_def
      split: assertion_kind.split)

lemma foldl_bound_step:
  "foldl (\<lambda>s a. bound_step t a s) s as =
     (case rev (filter (effective_at t) as) of [] \<Rightarrow> s | a # _ \<Rightarrow> assertion_effect a)"
  by (induction as rule: rev_induct) (simp_all add: bound_step_effect split: list.split)

lemma active_bound_at_last:
  "active_bound_at as t =
     (let es = sort_key assertion_key (filter (effective_at t) as)
      in if es = [] then None else assertion_effect (last es))"
  by (auto simp: active_bound_at_def foldl_bound_step sort_key_filter Let_def
      split: list.split dest: arg_cong[where f = rev])

lemma active_bound_at_Nil [simp]: "active_bound_at [] t = None"
  by (simp add: active_bound_at_def)

lemma inj_assertion_key: "inj_on va_assertion_ref S \<Longrightarrow> inj_on assertion_key S"
  by (auto simp: inj_on_def assertion_key_def)

text \<open>The walk is decided by the latest effective assertion in the order (asserted_at, ref).\<close>

lemma active_bound_at_latest:
  assumes "a \<in> set as" "effective_at t a"
    and "\<And>b. b \<in> set as \<Longrightarrow> effective_at t b \<Longrightarrow> b \<noteq> a \<Longrightarrow> assertion_key b < assertion_key a"
  shows "active_bound_at as t = assertion_effect a"
proof -
  let ?es = "sort_key assertion_key (filter (effective_at t) as)"
  have mem: "a \<in> set ?es" using assms by simp
  then have ne: "?es \<noteq> []" by (metis empty_iff empty_set)
  have "last ?es \<in> set ?es" by (rule last_in_set) (fact ne)
  moreover have "assertion_key x \<le> assertion_key (last ?es)" if "x \<in> set ?es" for x
  proof -
    have "sorted (map assertion_key ?es)" by simp
    moreover have "?es = butlast ?es @ [last ?es]" using ne by simp
    ultimately have "sorted (map assertion_key (butlast ?es @ [last ?es]))" by metis
    moreover have "x \<in> set (butlast ?es) \<or> x = last ?es"
      using that ne by (metis append_butlast_last_id rotate1.simps(2) set_ConsD set_rotate1)
    ultimately show ?thesis by (auto simp: sorted_append)
  qed
  ultimately have "last ?es = a"
    using assms(3) mem by (metis (mono_tags, lifting) leD mem_Collect_eq set_filter set_sort)
  then show ?thesis using ne by (simp add: active_bound_at_last)
qed

lemma active_bound_at_none_effective:
  "(\<And>a. a \<in> set as \<Longrightarrow> \<not> effective_at t a) \<Longrightarrow> active_bound_at as t = None"
  by (simp add: active_bound_at_last Let_def filter_empty_conv)

lemma active_bound_at_mset:
  assumes "mset as = mset bs" "inj_on va_assertion_ref (set as)"
  shows "active_bound_at as t = active_bound_at bs t"
  using sort_key_mset_eq[OF assms(1) inj_assertion_key[OF assms(2)]] by (simp add: active_bound_at_def)

lemma active_bound_at_visible:
  "active_bound_at as t = active_bound_at (filter (\<lambda>a. va_asserted_at a \<le> t) as) t"
proof -
  have "filter (effective_at t) as = filter (effective_at t) (filter (\<lambda>a. va_asserted_at a \<le> t) as)"
    by (auto simp: effective_at_def intro!: filter_cong)
  then show ?thesis by (simp add: active_bound_at_last)
qed

text \<open>Assertions recorded after the cutoff are invisible to it.\<close>

lemma active_bound_at_later [simp]:
  assumes "\<And>a. a \<in> set bs \<Longrightarrow> t < va_asserted_at a"
  shows "active_bound_at (as @ bs) t = active_bound_at as t"
proof -
  have "filter (\<lambda>a. va_asserted_at a \<le> t) bs = []"
    using assms by (auto simp: filter_empty_conv not_le)
  then show ?thesis
    by (subst (1 2) active_bound_at_visible) simp
qed

lemma active_bound_at_snoc:
  assumes "\<And>b. b \<in> set as \<Longrightarrow> assertion_key b \<le> assertion_key a"
  shows "active_bound_at (as @ [a]) t = bound_step t a (active_bound_at as t)"
  using sort_key_snoc_max[of as assertion_key a] assms by (simp add: active_bound_at_def)

lemma assertion_key_le_time: "va_asserted_at b < va_asserted_at a \<Longrightarrow> assertion_key b \<le> assertion_key a"
  by (simp add: assertion_key_def less_eq_prod_def)

lemma is_claim_live_iff: "is_claim_live as t \<longleftrightarrow> active_bound_at as t = None"
  by (simp add: is_claim_live_def)

lemma active_bound_at_bound_le: "active_bound_at as t = Some bs \<Longrightarrow> bs_bound_at bs \<le> t"
proof -
  assume *: "active_bound_at as t = Some bs"
  let ?es = "sort_key assertion_key (filter (effective_at t) as)"
  from * have ne: "?es \<noteq> []" and eff: "assertion_effect (last ?es) = Some bs"
    by (auto simp: active_bound_at_last Let_def split: if_splits)
  have "last ?es \<in> set ?es" using ne last_in_set by blast
  then have "effective_at t (last ?es)" by simp
  then show ?thesis
    using eff by (auto simp: effective_at_def assertion_effect_def assertion_instant_def
        split: assertion_kind.splits)
qed

section \<open>The fold\<close>

lemma with_status_simps [simp]:
  "cw_claim (with_status af t ld c) = c"
  "cw_last_disposition (with_status af t ld c) = ld (cl_ref c)"
  "cw_bound_at (with_status af t ld c) = map_option bs_bound_at (active_bound_at (af (cl_ref c)) t)"
  by (simp_all add: with_status_def Let_def)

lemma with_status_live:
  "cw_is_live (with_status af t ld c) \<longleftrightarrow>
     active_bound_at (af (cl_ref c)) t = None
     \<and> (\<forall>d. ld (cl_ref c) = Some d \<longrightarrow> \<not> is_non_live_disposition d)"
  by (auto simp: with_status_def Let_def split: option.splits)

lemma fold_claims_all:
  "fr_all_claims (fold_claims cs af t va cfg ld)
     = map (with_status af t ld) (sort_key (\<lambda>c. ordering_key c cfg) cs)"
  by (simp add: fold_claims_def Let_def split: prod.split)

lemma fold_claims_live:
  "(fr_live_claims (fold_claims cs af t va cfg ld), fr_succession_selected (fold_claims cs af t va cfg ld))
     = narrow_succession (ec_valid_time_confidence_threshold cfg) (case va of Some v \<Rightarrow> v | None \<Rightarrow> t)
         (filter cw_is_live (fr_all_claims (fold_claims cs af t va cfg ld)))"
  by (simp add: fold_claims_def Let_def split: prod.split)

lemma fold_claims_conflict:
  "fr_has_conflict (fold_claims cs af t va cfg ld)
     = structural_conflict (fr_live_claims (fold_claims cs af t va cfg ld))"
  by (simp add: fold_claims_def Let_def split: prod.split)

lemma fold_claims_all_claims [simp]:
  "map cw_claim (fr_all_claims (fold_claims cs af t va cfg ld)) = sort_key (\<lambda>c. ordering_key c cfg) cs"
  by (simp add: fold_claims_all comp_def)

text \<open>The fold only looks at the claims of its list, their assertions and their dispositions.\<close>

lemma fold_claims_cong:
  assumes "mset cs = mset ds" "inj_on cl_ref (set cs)"
    and "\<And>c. c \<in> set cs \<Longrightarrow> active_bound_at (af (cl_ref c)) t = active_bound_at (af' (cl_ref c)) t"
    and "\<And>c. c \<in> set cs \<Longrightarrow> ld (cl_ref c) = ld' (cl_ref c)"
  shows "fold_claims cs af t va cfg ld = fold_claims ds af' t va cfg ld'"
proof -
  have "sort_key (\<lambda>c. ordering_key c cfg) cs = sort_key (\<lambda>c. ordering_key c cfg) ds"
    using assms(1,2) by (intro sort_key_mset_eq ordering_key_inj)
  moreover have "with_status af t ld c = with_status af' t ld' c" if "c \<in> set cs" for c
    using assms(3,4)[OF that] by (simp add: with_status_def Let_def)
  then have "map (with_status af t ld) (sort_key (\<lambda>c. ordering_key c cfg) cs)
      = map (with_status af' t ld') (sort_key (\<lambda>c. ordering_key c cfg) cs)"
    by (intro map_cong) simp_all
  ultimately show ?thesis
    by (simp only: fold_claims_def Let_def)
qed

lemma set_fold_all_claims:
  "set (map cw_claim (fr_all_claims (fold_claims cs af t va cfg ld))) = set cs"
  by (simp add: fold_claims_all_claims del: map_map)

lemma narrow_succession_subset:
  "set (fst (narrow_succession th v live)) \<subseteq> set live"
  by (auto simp: narrow_succession_def split: option.splits if_splits)

lemma fold_live_subset:
  "cs \<in> set (fr_live_claims (fold_claims cl af t va cfg ld)) \<Longrightarrow>
     cs \<in> set (fr_all_claims (fold_claims cl af t va cfg ld)) \<and> cw_is_live cs"
  using fold_claims_live[of cl af t va cfg ld] narrow_succession_subset
  by (metis (mono_tags, lifting) fst_conv mem_Collect_eq set_filter subsetD)

text \<open>Every claim served as live is unbounded and its latest disposition keeps it live.\<close>

lemma fold_live_sound:
  assumes "cs \<in> set (fr_live_claims (fold_claims cl af t va cfg ld))"
  shows "cw_claim cs \<in> set cl" "active_bound_at (af (cl_ref (cw_claim cs))) t = None"
    "ld (cl_ref (cw_claim cs)) = Some d \<Longrightarrow> \<not> is_non_live_disposition d"
  using fold_live_subset[OF assms] by (auto simp: fold_claims_all with_status_live)

lemma distinct_all_claims:
  assumes "distinct (map cl_ref cl)"
  shows "distinct (map (\<lambda>cs. cl_ref (cw_claim cs)) (fr_all_claims (fold_claims cl af t va cfg ld)))"
proof -
  have "map (\<lambda>cs. cl_ref (cw_claim cs)) (fr_all_claims (fold_claims cl af t va cfg ld))
      = map cl_ref (sort_key (\<lambda>c. ordering_key c cfg) cl)"
    by (simp add: fold_claims_all)
  moreover have "mset (map cl_ref (sort_key (\<lambda>c. ordering_key c cfg) cl)) = mset (map cl_ref cl)"
    by simp
  ultimately show ?thesis
    using assms by (metis mset_eq_imp_distinct_iff)
qed

lemma distinct_filter_refs:
  "distinct (map (\<lambda>cs. cl_ref (cw_claim cs)) xs) \<Longrightarrow>
   distinct (map (\<lambda>cs. cl_ref (cw_claim cs)) (filter P xs))"
  by (rule distinct_map_filter)

lemma narrow_succession_le_1:
  assumes "snd (narrow_succession th v live)" "distinct (map (\<lambda>cs. cl_ref (cw_claim cs)) live)"
  shows "length (fst (narrow_succession th v live)) \<le> 1"
  using assms distinct_map_filter_le_1[OF assms(2)]
  by (auto simp: narrow_succession_def split: option.splits if_splits)

lemma structural_conflict_le_1: "length live \<le> 1 \<Longrightarrow> \<not> structural_conflict live"
  by (auto simp: structural_conflict_def not_less intro: order_trans[OF length_filter_le])

lemma structural_conflict_iff:
  "structural_conflict live \<longleftrightarrow>
     length live > 1 \<and> (\<exists>cs \<in> set live. cl_cardinality (cw_claim cs) \<noteq> SetValued)"
proof -
  have "\<exists>cs \<in> set live. cl_cardinality (cw_claim cs) \<noteq> SetValued"
    if *: "length (filter (\<lambda>cs. cl_cardinality (cw_claim cs) = Functional) live) > 1"
  proof -
    from * obtain x where "x \<in> set (filter (\<lambda>cs. cl_cardinality (cw_claim cs) = Functional) live)"
      by (metis length_greater_0_conv less_nat_zero_code list.set_sel(1) not_less_iff_gr_or_eq
          order_less_trans zero_less_one)
    then show ?thesis by (intro bexI[of _ x]) simp_all
  qed
  moreover have "length live > 1"
    if "length (filter (\<lambda>cs. cl_cardinality (cw_claim cs) = Functional) live) > 1"
    using that length_filter_le less_le_trans by blast
  ultimately show ?thesis by (auto simp: structural_conflict_def list_ex_iff)
qed

lemma fold_succession_shape:
  assumes "distinct (map cl_ref cl)" "fr_succession_selected (fold_claims cl af t va cfg ld)"
  shows "length (fr_live_claims (fold_claims cl af t va cfg ld)) \<le> 1"
    "\<not> fr_has_conflict (fold_claims cl af t va cfg ld)"
proof -
  let ?r = "fold_claims cl af t va cfg ld"
  have d: "distinct (map (\<lambda>cs. cl_ref (cw_claim cs)) (filter cw_is_live (fr_all_claims ?r)))"
    by (intro distinct_filter_refs distinct_all_claims assms(1))
  show le: "length (fr_live_claims ?r) \<le> 1"
    using narrow_succession_le_1[OF _ d] fold_claims_live[of cl af t va cfg ld] assms(2)
    by (metis fst_conv snd_conv)
  then show "\<not> fr_has_conflict ?r"
    by (simp add: fold_claims_conflict structural_conflict_le_1)
qed

section \<open>The \<^verbatim>\<open>valid_at\<close> re-derivation\<close>

text \<open>The claims the fold serves, as a set.\<close>

lemma narrow_succession_exact:
  assumes "distinct (map (\<lambda>cs. cl_ref (cw_claim cs)) live)"
  shows "cw_claim ` set (fst (narrow_succession th v live)) =
    (if snd (narrow_succession th v live) then {c \<in> cw_claim ` set live. claim_window_contains c v}
     else cw_claim ` set live)"
proof (cases "length live > 1 \<and> is_trusted_succession (map cw_claim live) th")
  case False
  then show ?thesis by (auto simp: narrow_succession_def)
next
  case True
  let ?cs = "map cw_claim live"
  have ref: "cl_ref a = cl_ref b \<longleftrightarrow> a = b" if "a \<in> set ?cs" "b \<in> set ?cs" for a b
    using assms that by (auto simp: distinct_map inj_on_def)
  show ?thesis
  proof (cases "select_by_valid_time_instant ?cs v")
    case None
    then have "{c \<in> cw_claim ` set live. claim_window_contains c v} = {}"
      using select_None[of ?cs v] by auto
    then show ?thesis using None True by (simp add: narrow_succession_def)
  next
    case (Some c)
    have c: "c \<in> set ?cs" "claim_window_contains c v" using select_Some[OF Some] by auto
    have "d = c" if "d \<in> set ?cs" "claim_window_contains d v" for d
      using select_unique[of ?cs d v] True that Some by (simp add: is_trusted_succession_def)
    moreover have "c \<in> cw_claim ` set live" using c(1) by simp
    ultimately have "{d \<in> cw_claim ` set live. claim_window_contains d v} = {c}"
      using c(2) unfolding set_map by blast
    moreover have "cw_claim ` set (filter (\<lambda>cs. cl_ref (cw_claim cs) = cl_ref c) live) = {c}"
    proof (intro equalityI subsetI)
      fix x assume "x \<in> cw_claim ` set (filter (\<lambda>cs. cl_ref (cw_claim cs) = cl_ref c) live)"
      then have "x \<in> set ?cs" "cl_ref x = cl_ref c" by auto
      then show "x \<in> {c}" using ref[OF _ c(1)] by blast
    next
      fix x assume "x \<in> {c}"
      then show "x \<in> cw_claim ` set (filter (\<lambda>cs. cl_ref (cw_claim cs) = cl_ref c) live)"
        using c(1) by (auto simp: image_iff)
    qed
    ultimately show ?thesis using Some True by (simp add: narrow_succession_def)
  qed
qed

lemma fold_live_claims_exact:
  assumes "distinct (map cl_ref claims)" and fr_def: "fr = fold_claims claims af t va cfg ld"
  shows "cw_claim ` set (fr_live_claims fr) =
    {c \<in> set claims. active_bound_at (af (cl_ref c)) t = None
       \<and> (\<forall>q. ld (cl_ref c) = Some q \<longrightarrow> \<not> is_non_live_disposition q)
       \<and> (fr_succession_selected fr \<longrightarrow> claim_window_contains c (case va of Some v \<Rightarrow> v | None \<Rightarrow> t))}"
proof -
  let ?live = "filter cw_is_live (fr_all_claims fr)"
  have d: "distinct (map (\<lambda>cs. cl_ref (cw_claim cs)) ?live)"
    unfolding fr_def by (rule distinct_filter_refs[OF distinct_all_claims[OF assms(1)]])
  have "set ?live = with_status af t ld ` {c \<in> set claims. active_bound_at (af (cl_ref c)) t = None
       \<and> (\<forall>q. ld (cl_ref c) = Some q \<longrightarrow> \<not> is_non_live_disposition q)}"
    by (auto simp: fr_def fold_claims_all with_status_live)
  then have live: "cw_claim ` set ?live = {c \<in> set claims. active_bound_at (af (cl_ref c)) t = None
       \<and> (\<forall>q. ld (cl_ref c) = Some q \<longrightarrow> \<not> is_non_live_disposition q)}"
    by (simp add: image_image)
  have eq: "fr_live_claims fr = fst (narrow_succession (ec_valid_time_confidence_threshold cfg)
        (case va of Some v \<Rightarrow> v | None \<Rightarrow> t) ?live)"
    "fr_succession_selected fr = snd (narrow_succession (ec_valid_time_confidence_threshold cfg)
        (case va of Some v \<Rightarrow> v | None \<Rightarrow> t) ?live)"
    using fold_claims_live[of claims af t va cfg ld] unfolding fr_def by (metis fst_conv snd_conv)+
  show ?thesis
    unfolding eq narrow_succession_exact[OF d] live by auto
qed

lemma claim_with_effective_window_ref [simp]:
  "cl_ref (claim_with_effective_window cs) = cl_ref (cw_claim cs)"
  by (simp add: claim_with_effective_window_def split: prod.split)

lemma claim_with_effective_window_start [simp]:
  "vt_start (cl_valid_time (claim_with_effective_window cs)) = vt_start (cl_valid_time (cw_claim cs))"
  by (simp add: claim_with_effective_window_def split: prod.split)

text \<open>Two claims with the same reference, confidence and window are interchangeable for the
  succession test and the selection.\<close>

definition same_window :: "claim \<Rightarrow> claim \<Rightarrow> bool" where
  "same_window a b = (cl_ref a = cl_ref b \<and> vt_start (cl_valid_time a) = vt_start (cl_valid_time b)
     \<and> vt_end (cl_valid_time a) = vt_end (cl_valid_time b)
     \<and> vt_confidence (cl_valid_time a) = vt_confidence (cl_valid_time b))"

lemma same_window_trusted: "same_window a b \<Longrightarrow> claim_is_trusted a th = claim_is_trusted b th"
  by (simp add: same_window_def claim_is_trusted_def)

lemma same_window_overlap:
  "same_window a b \<Longrightarrow> same_window c d \<Longrightarrow> windows_non_overlapping a c = windows_non_overlapping b d"
  by (simp add: same_window_def windows_non_overlapping_def)

lemma same_window_contains: "same_window a b \<Longrightarrow> claim_window_contains a t = claim_window_contains b t"
  by (simp add: same_window_def claim_window_contains_def)

lemma is_trusted_succession_same_window:
  assumes "\<And>x. x \<in> set xs \<Longrightarrow> same_window (f x) (g x)"
  shows "is_trusted_succession (map f xs) th = is_trusted_succession (map g xs) th"
  using assms
proof (induction xs)
  case (Cons x xs)
  have "\<forall>y \<in> set xs. windows_non_overlapping (f x) (f y) = windows_non_overlapping (g x) (g y)"
    using Cons.prems by (auto intro!: same_window_overlap)
  moreover have "claim_is_trusted (f x) th = claim_is_trusted (g x) th"
    using Cons.prems by (auto intro!: same_window_trusted)
  ultimately show ?case
    using Cons by (simp add: is_trusted_succession_Cons)
qed simp

lemma select_same_window:
  assumes "\<And>x. x \<in> set xs \<Longrightarrow> same_window (f x) (g x)"
  shows "map_option cl_ref (select_by_valid_time_instant (map f xs) t)
       = map_option cl_ref (select_by_valid_time_instant (map g xs) t)"
  using assms
proof (induction xs)
  case (Cons x xs)
  have x: "same_window (f x) (g x)" using Cons.prems by simp
  show ?case
    using Cons same_window_contains[OF x] x
    by (simp add: select_by_valid_time_instant_def same_window_def)
qed (simp add: select_by_valid_time_instant_def)

lemma claim_with_effective_window_unbound:
  "cw_bound_at cs = None \<Longrightarrow> same_window (claim_with_effective_window cs) (cw_claim cs)"
  by (auto simp: same_window_def claim_with_effective_window_def narrowed_valid_end_def
      split: option.splits prod.splits)

lemma claim_with_effective_window_end:
  "vt_end (cl_valid_time (claim_with_effective_window cs)) =
     (case (vt_end (cl_valid_time (cw_claim cs)), cw_bound_at cs) of
        (Some e, Some b) \<Rightarrow> Some (min e b) | (Some e, None) \<Rightarrow> Some e | (None, b) \<Rightarrow> b)"
  by (auto simp: claim_with_effective_window_def narrowed_valid_end_def min_def
      split: option.splits prod.splits if_splits)

lemma valid_at_live_candidate:
  assumes "cs \<in> set (fr_live_claims (narrow_live_claims_for_valid_at fr v denied cfg))"
    and "\<And>x. x \<in> set (fr_live_claims fr) \<Longrightarrow> cw_is_live x \<and> x \<in> set (fr_all_claims fr)"
    and "\<And>x. x \<in> set (fr_all_claims fr) \<Longrightarrow> cw_is_live x \<Longrightarrow> \<not> is_hard_excluded x"
  shows "valid_at_candidate denied cs" "cs \<in> set (fr_all_claims fr)"
  using assms by (auto simp: narrow_live_claims_for_valid_at_def Let_def valid_at_candidate_def
      split: if_splits option.splits)

lemma valid_at_selected_window:
  assumes "is_trusted_succession (map claim_with_effective_window
             (filter (valid_at_candidate denied) (fr_all_claims fr))) (ec_valid_time_confidence_threshold cfg)"
    and "distinct (map (\<lambda>cs. cl_ref (cw_claim cs)) (fr_all_claims fr))"
  shows "cs \<in> set (fr_live_claims (narrow_live_claims_for_valid_at fr v denied cfg)) \<longleftrightarrow>
     cs \<in> set (fr_all_claims fr) \<and> valid_at_candidate denied cs
     \<and> claim_window_contains (claim_with_effective_window cs) v"
proof -
  let ?cand = "filter (valid_at_candidate denied) (fr_all_claims fr)"
  let ?nar = "map claim_with_effective_window ?cand"
  have inj: "x = y" if "x \<in> set ?cand" "y \<in> set ?cand" "cl_ref (cw_claim x) = cl_ref (cw_claim y)" for x y
    using assms(2) that by (auto simp: distinct_map inj_on_def)
  have pw: "pairwise_non_overlapping ?nar"
    using assms(1) by (simp add: is_trusted_succession_def)
  show ?thesis
  proof (cases "select_by_valid_time_instant ?nar v")
    case None
    then have "\<not> claim_window_contains (claim_with_effective_window c) v" if "c \<in> set ?cand" for c
      using that unfolding select_None by auto
    then show ?thesis
      using assms(1) None by (auto simp: narrow_live_claims_for_valid_at_def Let_def)
  next
    case (Some c)
    then obtain d where d: "d \<in> set ?cand" "c = claim_with_effective_window d"
        "claim_window_contains c v"
      by (auto dest!: select_Some)
    have "cs = d" if "cs \<in> set ?cand" "claim_window_contains (claim_with_effective_window cs) v"
      using select_unique[OF pw, of "claim_with_effective_window cs" v] that Some d inj
      by (metis (no_types, lifting) claim_with_effective_window_ref image_eqI list.set_map option.inject)
    then show ?thesis
      using assms(1) Some d inj[of cs d] by (auto simp: narrow_live_claims_for_valid_at_def Let_def)
  qed
qed

lemma valid_at_shape:
  assumes "distinct (map (\<lambda>cs. cl_ref (cw_claim cs)) (fr_all_claims fr))"
    and "is_trusted_succession (map claim_with_effective_window
             (filter (valid_at_candidate denied) (fr_all_claims fr))) (ec_valid_time_confidence_threshold cfg)"
  shows "length (fr_live_claims (narrow_live_claims_for_valid_at fr v denied cfg)) \<le> 1"
    "\<not> fr_has_conflict (narrow_live_claims_for_valid_at fr v denied cfg)"
  using assms(2) distinct_map_filter_le_1[OF distinct_filter_refs[OF assms(1)]]
  by (auto simp: narrow_live_claims_for_valid_at_def Let_def simp del: filter_filter split: option.split)

text \<open>With nothing bounded on the line and a live trusted succession, the re-derivation gives what
  the fold gives with the same instant as its own \<^verbatim>\<open>valid_at\<close>.\<close>

lemma narrow_agrees_with_fold_core:
  assumes unb: "\<And>c. c \<in> set cl \<Longrightarrow> active_bound_at (af (cl_ref c)) t = None"
    and nosup: "\<And>c. c \<in> set cl \<Longrightarrow> ld (cl_ref c) \<noteq> Some Superseded"
    and sel: "fr_succession_selected (fold_claims cl af t None cfg ld)"
    and dist: "distinct (map cl_ref cl)"
  shows "narrow_live_claims_for_valid_at (fold_claims cl af t None cfg ld) v denied cfg
       = fold_claims cl af t (Some v) cfg ld"
proof -
  let ?r = "fold_claims cl af t None cfg ld"
  let ?s = "fold_claims cl af t (Some v) cfg ld"
  let ?live = "filter cw_is_live (fr_all_claims ?r)"
  let ?th = "ec_valid_time_confidence_threshold cfg"
  have all_eq: "fr_all_claims ?s = fr_all_claims ?r"
    by (simp add: fold_claims_all)
  have cand: "filter (valid_at_candidate denied) (fr_all_claims ?r) = ?live"
    using nosup by (intro filter_cong refl)
      (auto simp: valid_at_candidate_def is_hard_excluded_def fold_claims_all with_status_live unb
        dest: hard_excluded_non_live non_live_not_hard_excluded split: option.splits)
  have same: "same_window (claim_with_effective_window cs) (cw_claim cs)" if "cs \<in> set ?live" for cs
    using that unb by (intro claim_with_effective_window_unbound) (auto simp: fold_claims_all)
  have big: "length ?live > 1" "is_trusted_succession (map cw_claim ?live) ?th"
    using sel fold_claims_live[of cl af t None cfg ld]
    by (auto simp: narrow_succession_def split: if_splits)
  have tr: "is_trusted_succession (map claim_with_effective_window ?live) ?th"
    using is_trusted_succession_same_window[of ?live claim_with_effective_window cw_claim, OF same]
      big(2) by blast
  have refs: "map_option cl_ref (select_by_valid_time_instant (map claim_with_effective_window ?live) v)
      = map_option cl_ref (select_by_valid_time_instant (map cw_claim ?live) v)"
    by (rule select_same_window) (rule same)
  have s: "(fr_live_claims ?s, fr_succession_selected ?s) = narrow_succession ?th v ?live"
    using fold_claims_live[of cl af t "Some v" cfg ld] all_eq by simp
  then have s_sel: "fr_succession_selected ?s"
    and s_live: "fr_live_claims ?s =
      (case map_option cl_ref (select_by_valid_time_instant (map cw_claim ?live) v) of
         Some r \<Rightarrow> filter (\<lambda>cs. cl_ref (cw_claim cs) = r) ?live | None \<Rightarrow> [])"
    using big by (auto simp: narrow_succession_def split: option.splits)
  have "\<not> fr_has_conflict ?s"
    using fold_succession_shape(2)[OF dist s_sel] .
  moreover have "fr_live_claims (narrow_live_claims_for_valid_at ?r v denied cfg) = fr_live_claims ?s"
    using tr refs by (auto simp: s_live narrow_live_claims_for_valid_at_def Let_def cand
        simp del: filter_filter split: option.splits)
  ultimately show ?thesis
    using s_sel all_eq tr
    by (intro fold_result.equality) (simp_all add: narrow_live_claims_for_valid_at_def Let_def cand)
qed

section \<open>History windows\<close>

lemma length_compute_history_windows [simp]:
  "length (compute_history_windows cs hc now cfg) = length cs"
  by (induction cs) simp_all

lemma compute_history_windows_nth:
  "i < length cs \<Longrightarrow> compute_history_windows cs hc now cfg ! i =
     history_window_of hc now cfg (cs ! i) (drop (Suc i) cs)"
  by (induction cs arbitrary: i) (auto simp: nth_Cons split: nat.splits)

lemma primary_key_ordering: "primary_key c cfg = fst (ordering_key c cfg)"
  by (simp add: primary_key_def primary_key_and_granularity_def ordering_key_def Let_def split: option.split)

text \<open>A window ends no later than the claim's own end and the active bound.\<close>

lemma history_window_own_end:
  assumes "vt_end (cl_valid_time (cw_claim cs)) = Some e"
  shows "\<exists>u. hw_valid_until (history_window_of hc now cfg cs later) = Some u \<and> u \<le> e"
  using assms
  by (auto simp: history_window_of_def Let_def narrowed_valid_end_def
      split: option.splits prod.splits if_splits)

lemma history_window_bound:
  assumes "cw_bound_at cs = Some b"
  shows "\<exists>u. hw_valid_until (history_window_of hc now cfg cs later) = Some u \<and> u \<le> b"
  using assms
  by (auto simp: history_window_of_def Let_def narrowed_valid_end_def
      split: option.splits prod.splits if_splits)

lemma history_window_successor:
  assumes "d \<in> set later" "primary_key (cw_claim cs) cfg < primary_key (cw_claim d) cfg"
    and "sorted (map (\<lambda>d. primary_key (cw_claim d) cfg) later)"
    and "\<not> hw_contested (history_window_of hc now cfg cs later)"
  shows "\<exists>u. hw_valid_until (history_window_of hc now cfg cs later) = Some u
           \<and> u \<le> primary_key (cw_claim d) cfg"
proof -
  obtain s where s: "find (\<lambda>d. primary_key (cw_claim d) cfg > primary_key (cw_claim cs) cfg) later = Some s"
    using assms(1,2) by (metis find_None_iff not_None_eq)
  have le: "primary_key (cw_claim s) cfg \<le> primary_key (cw_claim d) cfg"
    using s assms(1,2,3)
    by (induction later) (auto split: if_splits)
  have "\<exists>u. hw_valid_until (history_window_of hc now cfg cs later) = Some u
           \<and> u \<le> primary_key (cw_claim s) cfg"
    using assms(4) s
    by (auto simp: history_window_of_def Let_def primary_key_def
        split: option.splits prod.splits if_splits)
  then show ?thesis using le by auto
qed

end
