(* ===== verification/Gate_Reconciler.thy ===== *)
theory Gate_Reconciler
  imports Truth_Facts
begin

text \<open>\<^verbatim>\<open>engine/reconciler.rs\<close>: the conflict classification of a candidate against the incumbent and
  every other live claim of its line. \<^verbatim>\<open>engine/gate.rs\<close>: the deterministic adjudication gate.\<close>

section \<open>Proposal and conflict types\<close>

datatype conflict_type =
    NoConflict
  | SameLineConflict
  | CrossLineConflict
  | CT_DependsOnSuperseded
  | Succession

text \<open>The derived \<^verbatim>\<open>Debug\<close> rendering, logged in the rationale.\<close>

fun conflict_type_debug :: "conflict_type \<Rightarrow> string" where
  "conflict_type_debug NoConflict = ''NoConflict''"
| "conflict_type_debug SameLineConflict = ''SameLineConflict''"
| "conflict_type_debug CrossLineConflict = ''CrossLineConflict''"
| "conflict_type_debug CT_DependsOnSuperseded = ''DependsOnSuperseded''"
| "conflict_type_debug Succession = ''Succession''"

record proposal =
  pr_candidate :: claim
  pr_incumbent :: "belief option"
  pr_conflict_type :: conflict_type
  pr_measured_confidence :: f32
  pr_cardinality_proposal :: cardinality
  pr_oracle_present :: bool

section \<open>Reconciler\<close>

record reconciler_input =
  ri_candidate :: claim
  ri_incumbent :: "belief option"
  ri_superseded_claim_refs :: "claim_ref list"
  ri_measured_confidence :: f32
  ri_cardinality_proposal :: cardinality
  ri_oracle_present :: bool
  ri_succession_threshold :: f32
  ri_all_live_claims :: "claim list"

definition overlaps_different_value :: "claim \<Rightarrow> claim list \<Rightarrow> bool" where
  "overlaps_different_value candidate all_live =
     (vt_start (cl_valid_time candidate) \<noteq> None
      \<and> list_ex (\<lambda>other. cl_ref other \<noteq> cl_ref candidate
                         \<and> fa_value (cl_fact other) \<noteq> fa_value (cl_fact candidate)
                         \<and> vt_start (cl_valid_time other) \<noteq> None
                         \<and> \<not> windows_non_overlapping candidate other) all_live)"

definition classify_conflict :: "reconciler_input \<Rightarrow> conflict_type" where
  "classify_conflict input =
     (case ri_incumbent input of
        None \<Rightarrow> NoConflict
      | Some incumbent \<Rightarrow>
        let candidate = ri_candidate input;
            cf = cl_fact candidate;
            bf = be_fact incumbent
        in if list_ex (\<lambda>a. a \<in> set (ri_superseded_claim_refs input)) (cl_derived_from candidate)
           then CT_DependsOnSuperseded
           else if fa_subject cf = fa_subject bf \<and> fa_predicate cf = fa_predicate bf
           then (if fa_value cf = fa_value bf
                    \<and> \<not> overlaps_different_value candidate (ri_all_live_claims input)
                 then NoConflict
                 else if is_trusted_succession
                           (candidate # filter (\<lambda>c. cl_ref c \<noteq> cl_ref candidate) (ri_all_live_claims input))
                           (ri_succession_threshold input)
                 then Succession
                 else SameLineConflict)
           else if fa_subject cf = fa_subject bf \<and> fa_predicate cf \<noteq> fa_predicate bf
           then CrossLineConflict
           else NoConflict)"

definition reconcile_claim :: "reconciler_input \<Rightarrow> proposal" where
  "reconcile_claim input =
     \<lparr>pr_candidate = ri_candidate input, pr_incumbent = ri_incumbent input,
      pr_conflict_type = classify_conflict input,
      pr_measured_confidence = ri_measured_confidence input,
      pr_cardinality_proposal = ri_cardinality_proposal input,
      pr_oracle_present = ri_oracle_present input\<rparr>"

section \<open>Gate\<close>

datatype route = CheapPath | Inferred | RecallTainted | HeavyPath | R_Quarantine

record gate_decision =
  gd_route :: route
  gd_disposition :: disposition
  gd_rationale :: json

definition is_temporally_incoherent :: "claim \<Rightarrow> engine_config \<Rightarrow> bool" where
  "is_temporally_incoherent c cfg =
     (if f32_lt (vt_confidence (cl_valid_time c)) (ec_valid_time_confidence_threshold cfg) then False
      else (case (vt_start (cl_valid_time c), vt_end (cl_valid_time c)) of
              (Some s, Some e) \<Rightarrow> s > e | _ \<Rightarrow> False)
           \<or> (case vt_start (cl_valid_time c) of Some s \<Rightarrow> s > cl_transaction_time c | None \<Rightarrow> False))"

text \<open>The keys of a \<^verbatim>\<open>json!\<close> object are kept in sorted order (\<^verbatim>\<open>serde_json::Map\<close> is a B-tree).\<close>

definition adjudicate :: "proposal \<Rightarrow> engine_config \<Rightarrow> gate_decision" where
  "adjudicate p cfg =
     (if is_recall_reentry (cl_provenance (pr_candidate p))
      then \<lparr>gd_route = RecallTainted, gd_disposition = CommittedCheap,
            gd_rationale = JObj [(''route'', JStr ''recall_reentry'')]\<rparr>
      else if is_temporally_incoherent (pr_candidate p) cfg
      then \<lparr>gd_route = R_Quarantine, gd_disposition = Quarantined,
            gd_rationale = JObj [(''reason'', JStr ''incoherent_temporal_window''),
                                 (''route'', JStr ''quarantine'')]\<rparr>
      else if cl_provenance (pr_candidate p) = ModelDerived
      then \<lparr>gd_route = Inferred, gd_disposition = CommittedInferred,
            gd_rationale = JObj
              [(''derivation_depth'', JInt (int (unat (ea_derivation_depth (cl_external_anchor (pr_candidate p)))))),
               (''route'', JStr ''inferred'')]\<rparr>
      else if pr_conflict_type p = NoConflict \<or> pr_incumbent p = None
      then \<lparr>gd_route = CheapPath, gd_disposition = CommittedCheap,
            gd_rationale = JObj [(''route'', JStr ''cheap_path'')]\<rparr>
      else if pr_conflict_type p = Succession
      then \<lparr>gd_route = CheapPath, gd_disposition = CommittedCheap,
            gd_rationale = JObj [(''reason'', JStr ''trusted_temporal_succession''),
                                 (''route'', JStr ''succession_cheap_path'')]\<rparr>
      else if is_cheap_path_eligible (cl_provenance (pr_candidate p))
              \<and> (pr_conflict_type p = SameLineConflict \<or> pr_conflict_type p = CrossLineConflict)
              \<and> \<not> pr_oracle_present p
      then \<lparr>gd_route = HeavyPath, gd_disposition = Contested,
            gd_rationale = JObj
              [(''conflict_type'', JStr (conflict_type_debug (pr_conflict_type p))),
               (''measured_confidence'', json_of_f32 (pr_measured_confidence p)),
               (''oracle_present'', JBool False),
               (''route'', JStr ''heavy_path_contested_oracle_absent'')]\<rparr>
      else \<lparr>gd_route = HeavyPath, gd_disposition = QueuedForAdjudication,
            gd_rationale = JObj
              [(''conflict_type'', JStr (conflict_type_debug (pr_conflict_type p))),
               (''corroboration_count'', JInt 0),
               (''measured_confidence'', json_of_f32 (pr_measured_confidence p)),
               (''oracle_present'', JBool (pr_oracle_present p)),
               (''route'', JStr ''heavy_path'')]\<rparr>)"

section \<open>Facts\<close>

lemma classify_NoConflict_incumbent:
  assumes "ri_incumbent input = Some b" "classify_conflict input = NoConflict"
    "fa_subject (cl_fact (ri_candidate input)) = fa_subject (be_fact b)"
    "fa_predicate (cl_fact (ri_candidate input)) = fa_predicate (be_fact b)"
  shows "fa_value (cl_fact (ri_candidate input)) = fa_value (be_fact b)"
    "\<not> overlaps_different_value (ri_candidate input) (ri_all_live_claims input)"
  using assms by (auto simp: classify_conflict_def Let_def split: if_splits)

lemma classify_Succession:
  assumes "classify_conflict input = Succession"
  shows "is_trusted_succession
    (ri_candidate input # filter (\<lambda>c. cl_ref c \<noteq> cl_ref (ri_candidate input)) (ri_all_live_claims input))
    (ri_succession_threshold input)"
  using assms by (auto simp: classify_conflict_def Let_def split: if_splits option.splits)

lemma adjudicate_dispositions:
  "gd_disposition (adjudicate p cfg) \<in>
     {CommittedCheap, CommittedInferred, QueuedForAdjudication, Contested, Quarantined}"
  by (simp add: adjudicate_def)

lemma adjudicate_Quarantined:
  "gd_disposition (adjudicate p cfg) = Quarantined \<longleftrightarrow>
     cl_provenance (pr_candidate p) \<noteq> RecallReEntry \<and> is_temporally_incoherent (pr_candidate p) cfg"
  by (simp add: adjudicate_def is_recall_reentry_def)

lemma adjudicate_cheap:
  assumes "gd_disposition (adjudicate p cfg) = CommittedCheap" "is_cheap_path_eligible (cl_provenance (pr_candidate p))"
  shows "pr_conflict_type p \<in> {NoConflict, Succession} \<or> pr_incumbent p = None"
  using assms by (auto simp: adjudicate_def is_recall_reentry_def split: if_splits)

end
