(* ===== verification/Ports.thy ===== *)
theory Ports
  imports Config_Error
begin

text \<open>The ports of the engine. A port is the record of its operations, as the Rust trait is: the
  use cases take the record as an argument, so they hold for every adapter.

  \<^verbatim>\<open>'w\<close> is the world an adapter runs in (its connection and file), \<^verbatim>\<open>'t\<close> an open transaction,
  \<^verbatim>\<open>'e\<close> the adapter's error. Reads take the world; appends take the open transaction; begin,
  commit, rollback and the pending-queue writes change the world.

  The locales state what the use cases rely on, over the logical content of a store: the record
  \<^verbatim>\<open>db\<close> of append-only tables. Their only model-independent vocabulary is the specification of
  the reads (\<^verbatim>\<open>line_of\<close>, \<^verbatim>\<open>ledger_of\<close> and so on) and of the appends.\<close>

section \<open>The logical content of a store\<close>

record pending_row =
  pa_handle_id :: uuid
  pa_agent_id :: agent_id
  pa_subject :: string
  pa_predicate :: string
  pa_challenger :: claim_ref
  pa_incumbent :: claim_ref
  pa_request :: adjudication_request
  pa_queued_at :: instant
  pa_expires_at :: "instant option"
  pa_status :: string

record orphan =
  or_agent_id :: agent_id
  or_challenger :: claim_ref
  or_incumbent :: "claim_ref option"
  or_subject :: string
  or_predicate :: string

record db =
  db_claims :: "claim list"
  db_assertions :: "validity_assertion list"
  db_ledger :: "ledger_entry list"
  db_edges :: "claim_edge list"
  db_pending :: "pending_row list"

text \<open>The stored form of a claim: there is one column for the valid-time confidence, so the two
  copies a claim carries are one after a round trip.\<close>

definition stored_claim :: "claim \<Rightarrow> claim" where
  "stored_claim c = c\<lparr>cl_confidence :=
     (cl_confidence c)\<lparr>cf_valid_time_confidence := vt_confidence (cl_valid_time c)\<rparr>\<rparr>"

lemma stored_claim_simps [simp]:
  "cl_ref (stored_claim c) = cl_ref c"
  "cl_agent_id (stored_claim c) = cl_agent_id c"
  "cl_fact (stored_claim c) = cl_fact c"
  "cl_cardinality (stored_claim c) = cl_cardinality c"
  "cl_provenance (stored_claim c) = cl_provenance c"
  "cl_external_anchor (stored_claim c) = cl_external_anchor c"
  "cl_transaction_time (stored_claim c) = cl_transaction_time c"
  "cl_valid_time (stored_claim c) = cl_valid_time c"
  "cl_criticality (stored_claim c) = cl_criticality c"
  "cl_derived_from (stored_claim c) = cl_derived_from c"
  "cl_metadata (stored_claim c) = cl_metadata c"
  by (simp_all add: stored_claim_def)

definition add_claim :: "claim \<Rightarrow> db \<Rightarrow> db" where
  "add_claim c d = d\<lparr>db_claims := db_claims d @ [stored_claim c]\<rparr>"

definition add_assertion :: "validity_assertion \<Rightarrow> db \<Rightarrow> db" where
  "add_assertion a d = d\<lparr>db_assertions := db_assertions d @ [a]\<rparr>"

definition add_ledger :: "ledger_entry \<Rightarrow> db \<Rightarrow> db" where
  "add_ledger e d = d\<lparr>db_ledger := db_ledger d @ [e]\<rparr>"

definition add_edge :: "claim_edge \<Rightarrow> db \<Rightarrow> db" where
  "add_edge e d = d\<lparr>db_edges := db_edges d @ [e]\<rparr>"

definition add_pending :: "pending_row \<Rightarrow> db \<Rightarrow> db" where
  "add_pending r d = d\<lparr>db_pending := db_pending d @ [r]\<rparr>"

definition set_pending_status :: "string \<Rightarrow> uuid \<Rightarrow> db \<Rightarrow> db" where
  "set_pending_status s h d = d\<lparr>db_pending :=
     map (\<lambda>r. if pa_handle_id r = h then r\<lparr>pa_status := s\<rparr> else r) (db_pending d)\<rparr>"

section \<open>What the reads return\<close>

definition cutoff :: "instant option \<Rightarrow> instant \<Rightarrow> bool" where
  "cutoff as_of t = (case as_of of None \<Rightarrow> True | Some T \<Rightarrow> t \<le> T)"

definition line_of :: "db \<Rightarrow> agent_id \<Rightarrow> string \<Rightarrow> string \<Rightarrow> instant option \<Rightarrow> claim list" where
  "line_of d a s p as_of =
     sort_key cl_transaction_time
       (filter (\<lambda>c. cl_agent_id c = a \<and> fa_subject (cl_fact c) = s \<and> fa_predicate (cl_fact c) = p
                    \<and> cutoff as_of (cl_transaction_time c)) (db_claims d))"

definition claim_of :: "db \<Rightarrow> agent_id \<Rightarrow> claim_ref \<Rightarrow> claim option" where
  "claim_of d a r = find (\<lambda>c. cl_agent_id c = a \<and> cl_ref c = r) (db_claims d)"

definition assertions_of :: "db \<Rightarrow> agent_id \<Rightarrow> claim_ref \<Rightarrow> validity_assertion list" where
  "assertions_of d a r =
     sort_key va_asserted_at (filter (\<lambda>x. va_agent_id x = a \<and> va_target_claim x = r) (db_assertions d))"

definition ledger_page :: "db \<Rightarrow> agent_id \<Rightarrow> transaction_time option \<Rightarrow> nat \<Rightarrow> ledger_entry list" where
  "ledger_page d a from_t limit =
     take limit (sort_key le_recorded_at
       (filter (\<lambda>e. le_agent_id e = a
                    \<and> (case from_t of None \<Rightarrow> True | Some f \<Rightarrow> le_recorded_at e \<ge> f)) (db_ledger d)))"

definition ledger_of_chunk :: "db \<Rightarrow> agent_id \<Rightarrow> claim_ref list \<Rightarrow> instant option \<Rightarrow> ledger_entry list" where
  "ledger_of_chunk d a refs as_of =
     sort_key le_recorded_at
       (filter (\<lambda>e. le_agent_id e = a \<and> le_claim_ref e \<in> set refs \<and> cutoff as_of (le_recorded_at e))
          (db_ledger d))"

definition edges_of :: "db \<Rightarrow> agent_id \<Rightarrow> claim_ref \<Rightarrow> claim_edge list" where
  "edges_of d a r =
     sort_key ed_created_at
       (filter (\<lambda>e. ed_agent_id e = a \<and> (ed_from_claim e = r \<or> ed_to_claim e = r)) (db_edges d))"

definition predicates_of :: "db \<Rightarrow> agent_id \<Rightarrow> string \<Rightarrow> instant option \<Rightarrow> string set" where
  "predicates_of d a s as_of =
     {fa_predicate (cl_fact c) |c. c \<in> set (db_claims d) \<and> cl_agent_id c = a
        \<and> fa_subject (cl_fact c) = s \<and> cutoff as_of (cl_transaction_time c)}"

definition pending_of :: "db \<Rightarrow> uuid \<Rightarrow> pending_row option" where
  "pending_of d h = find (\<lambda>r. pa_handle_id r = h) (db_pending d)"

definition expired_of :: "db \<Rightarrow> instant \<Rightarrow> pending_row list" where
  "expired_of d now =
     sort_key (\<lambda>r. case pa_expires_at r of Some t \<Rightarrow> t | None \<Rightarrow> 0)
       (filter (\<lambda>r. (case pa_expires_at r of Some t \<Rightarrow> t \<le> now | None \<Rightarrow> False)
                    \<and> pa_status r = ''pending'') (db_pending d))"

text \<open>A queued claim with no pending row: an entry \<^verbatim>\<open>QueuedForAdjudication\<close> no entry of the claim is
  later than.\<close>

definition orphan_entry_of :: "db \<Rightarrow> ledger_entry \<Rightarrow> bool" where
  "orphan_entry_of d e =
     (le_disposition e = QueuedForAdjudication
      \<and> (\<forall>x \<in> set (db_ledger d). le_claim_ref x = le_claim_ref e \<and> le_agent_id x = le_agent_id e
           \<longrightarrow> le_recorded_at x \<le> le_recorded_at e)
      \<and> claim_of d (le_agent_id e) (le_claim_ref e) \<noteq> None
      \<and> (\<forall>r \<in> set (db_pending d). \<not> (pa_challenger r = le_claim_ref e \<and> pa_agent_id r = le_agent_id e
           \<and> pa_status r = ''pending'')))"

definition orphans_of :: "db \<Rightarrow> (agent_id \<times> claim_ref) set" where
  "orphans_of d = (\<lambda>e. (le_agent_id e, le_claim_ref e)) ` {e \<in> set (db_ledger d). orphan_entry_of d e}"

definition orphan_key :: "orphan \<Rightarrow> agent_id \<times> claim_ref" where
  "orphan_key x = (or_agent_id x, or_challenger x)"

section \<open>The port records\<close>

record ('w, 't, 'e) persistence_port =
  pp_begin_atomic :: "agent_id \<Rightarrow> 'w \<Rightarrow> ('e, 't) res \<times> 'w"
  pp_append_claim :: "claim \<Rightarrow> ('t, 'e, claim_ref) tx_step"
  pp_append_validity_assertion :: "validity_assertion \<Rightarrow> ('t, 'e, unit) tx_step"
  pp_append_ledger_entry :: "ledger_entry \<Rightarrow> ('t, 'e, unit) tx_step"
  pp_append_claim_edge :: "claim_edge \<Rightarrow> ('t, 'e, unit) tx_step"
  pp_commit :: "'t \<Rightarrow> 'w \<Rightarrow> ('e, unit) res \<times> 'w"
  pp_rollback :: "'t \<Rightarrow> 'w \<Rightarrow> ('e, unit) res \<times> 'w"
  pp_load_subject_line :: "'w \<Rightarrow> agent_id \<Rightarrow> string \<Rightarrow> string \<Rightarrow> instant option \<Rightarrow> ('e, claim list) res"
  pp_load_claim :: "'w \<Rightarrow> agent_id \<Rightarrow> claim_ref \<Rightarrow> ('e, claim option) res"
  pp_load_validity_assertions_for :: "'w \<Rightarrow> agent_id \<Rightarrow> claim_ref \<Rightarrow> ('e, validity_assertion list) res"
  pp_load_ledger :: "'w \<Rightarrow> agent_id \<Rightarrow> transaction_time option \<Rightarrow> nat \<Rightarrow> ('e, ledger_entry list) res"
  pp_load_ledger_for_claims :: "'w \<Rightarrow> agent_id \<Rightarrow> claim_ref list \<Rightarrow> instant option \<Rightarrow> ('e, ledger_entry list) res"
  pp_load_edges_for :: "'w \<Rightarrow> agent_id \<Rightarrow> claim_ref \<Rightarrow> ('e, claim_edge list) res"
  pp_load_injected_claims :: "'w \<Rightarrow> agent_id \<Rightarrow> ('e, claim_ref list) res"
  pp_load_lineage :: "'w \<Rightarrow> agent_id \<Rightarrow> claim_ref \<Rightarrow> ('e, claim_edge list) res"
  pp_list_predicates_for_subject :: "'w \<Rightarrow> agent_id \<Rightarrow> string \<Rightarrow> instant option \<Rightarrow> ('e, string list) res"
  pp_requires_global_write_serialization :: bool

record ('w, 'e) pending_port =
  pq_insert_pending :: "pending_row \<Rightarrow> 'w \<Rightarrow> ('e, unit) res \<times> 'w"
  pq_get_pending :: "'w \<Rightarrow> uuid \<Rightarrow> ('e, pending_row option) res"
  pq_list_pending :: "'w \<Rightarrow> agent_id option \<Rightarrow> ('e, pending_row list) res"
  pq_list_expired :: "'w \<Rightarrow> instant \<Rightarrow> ('e, pending_row list) res"
  pq_mark_resolved :: "uuid \<Rightarrow> 'w \<Rightarrow> ('e, unit) res \<times> 'w"
  pq_mark_expired :: "uuid \<Rightarrow> 'w \<Rightarrow> ('e, unit) res \<times> 'w"
  pq_list_queued_orphan_claims :: "'w \<Rightarrow> ('e, orphan list) res"

text \<open>The oracle port is host code: a request gives an error or a handle, and the handle its
  durable UUID.\<close>

type_synonym oracle_port = "agent_id \<Rightarrow> adjudication_request \<Rightarrow> (message, uuid) res"

section \<open>The interfaces\<close>

text \<open>What the use cases rely on of a persistence adapter: a transaction works on its own copy of
  the store, appends add one row to it or fail and leave it, only a successful commit publishes it,
  a claim reference is stored once, and a read fails or returns the published rows.\<close>

locale persistence =
  fixes P :: "('w, 't, 'e) persistence_port"
    and disk :: "'w \<Rightarrow> db"
    and work :: "'t \<Rightarrow> db"
  assumes begin_ok: "pp_begin_atomic P a w = (Inr t, w') \<Longrightarrow> work t = disk w \<and> disk w' = disk w"
    and begin_err: "pp_begin_atomic P a w = (Inl e, w') \<Longrightarrow> disk w' = disk w"
    and append_claim_ok: "pp_append_claim P c t = (Inr r, t') \<Longrightarrow>
       r = cl_ref c \<and> work t' = add_claim c (work t) \<and> cl_ref c \<notin> cl_ref ` set (db_claims (work t))"
    and append_claim_err: "pp_append_claim P c t = (Inl e, t') \<Longrightarrow> work t' = work t"
    and append_assertion_ok: "pp_append_validity_assertion P a' t = (Inr u, t') \<Longrightarrow>
       work t' = add_assertion a' (work t)
       \<and> va_assertion_ref a' \<notin> va_assertion_ref ` set (db_assertions (work t))"
    and append_assertion_err: "pp_append_validity_assertion P a' t = (Inl e, t') \<Longrightarrow> work t' = work t"
    and append_ledger_ok: "pp_append_ledger_entry P le t = (Inr u, t') \<Longrightarrow> work t' = add_ledger le (work t)"
    and append_ledger_err: "pp_append_ledger_entry P le t = (Inl e, t') \<Longrightarrow> work t' = work t"
    and append_edge_ok: "pp_append_claim_edge P ed t = (Inr u, t') \<Longrightarrow> work t' = add_edge ed (work t)"
    and append_edge_err: "pp_append_claim_edge P ed t = (Inl e, t') \<Longrightarrow> work t' = work t"
    and commit_ok: "pp_commit P t w = (Inr u, w') \<Longrightarrow> disk w' = work t"
    and commit_err: "pp_commit P t w = (Inl e, w') \<Longrightarrow> disk w' = disk w"
    and rollback_disk: "disk (snd (pp_rollback P t w)) = disk w"
    and read_line: "pp_load_subject_line P w a s p as_of = Inr cs \<Longrightarrow> cs = line_of (disk w) a s p as_of"
    and read_claim: "pp_load_claim P w a r = Inr co \<Longrightarrow> co = claim_of (disk w) a r"
    and read_assertions: "pp_load_validity_assertions_for P w a r = Inr vs \<Longrightarrow> vs = assertions_of (disk w) a r"
    and read_ledger: "pp_load_ledger P w a from_t n = Inr es \<Longrightarrow> es = ledger_page (disk w) a from_t n"
    and read_ledger_for: "pp_load_ledger_for_claims P w a refs as_of = Inr es \<Longrightarrow> distinct refs \<Longrightarrow>
       (\<forall>r \<in> set refs. filter (\<lambda>e. le_claim_ref e = r) es = ledger_of_chunk (disk w) a [r] as_of)
       \<and> le_claim_ref ` set es \<subseteq> set refs"
    and read_edges: "pp_load_edges_for P w a r = Inr eds \<Longrightarrow> eds = edges_of (disk w) a r"
    and read_predicates: "pp_list_predicates_for_subject P w a s as_of = Inr ps \<Longrightarrow>
       distinct ps \<and> set ps = predicates_of (disk w) a s as_of"

text \<open>What they rely on of the pending-adjudication queue: a write changes that one table or
  nothing, a handle is stored once, a read fails or returns the rows. An adapter may keep the two times
  of a row to the microsecond (\<^verbatim>\<open>stored\<close>).\<close>

locale pending_queue =
  fixes Q :: "('w, 'e) pending_port"
    and disk :: "'w \<Rightarrow> db"
    and stored :: "pending_row \<Rightarrow> pending_row"
  assumes stored_row: "stored row = row\<lparr>pa_queued_at := pa_queued_at (stored row), pa_expires_at := pa_expires_at (stored row)\<rparr>"
    and stored_queued_at: "pa_queued_at (stored row) \<le> pa_queued_at row \<and> pa_queued_at row < pa_queued_at (stored row) + 1000"
    and stored_expires_at: "rel_option (\<lambda>s t. s \<le> t \<and> t < s + 1000) (pa_expires_at (stored row)) (pa_expires_at row)"
    and insert_ok: "pq_insert_pending Q row w = (Inr u, w') \<Longrightarrow>
       disk w' = add_pending (stored row) (disk w) \<and> pa_handle_id row \<notin> pa_handle_id ` set (db_pending (disk w))"
    and insert_err: "pq_insert_pending Q row w = (Inl e, w') \<Longrightarrow> disk w' = disk w"
    and mark_resolved_ok: "pq_mark_resolved Q h w = (Inr u, w') \<Longrightarrow>
       disk w' = set_pending_status ''resolved'' h (disk w)"
    and mark_resolved_err: "pq_mark_resolved Q h w = (Inl e, w') \<Longrightarrow> disk w' = disk w"
    and mark_expired_ok: "pq_mark_expired Q h w = (Inr u, w') \<Longrightarrow>
       disk w' = set_pending_status ''expired'' h (disk w)"
    and mark_expired_err: "pq_mark_expired Q h w = (Inl e, w') \<Longrightarrow> disk w' = disk w"
    and read_pending: "pq_get_pending Q w h = Inr ro \<Longrightarrow> ro = pending_of (disk w) h"
    and read_expired: "pq_list_expired Q w now = Inr rs \<Longrightarrow> rs = expired_of (disk w) now"
    and read_orphans: "pq_list_queued_orphan_claims Q w = Inr os \<Longrightarrow> orphan_key ` set os = orphans_of (disk w)"

locale engine_store = persistence P disk work + pending_queue Q disk stored
  for P :: "('w, 't, 'e) persistence_port" and Q :: "('w, 'e) pending_port"
    and disk :: "'w \<Rightarrow> db" and work :: "'t \<Rightarrow> db" and stored :: "pending_row \<Rightarrow> pending_row"

context pending_queue
begin

lemma stored_cols:
  "pa_handle_id (stored row) = pa_handle_id row" "pa_agent_id (stored row) = pa_agent_id row"
  "pa_subject (stored row) = pa_subject row" "pa_predicate (stored row) = pa_predicate row"
  "pa_challenger (stored row) = pa_challenger row" "pa_incumbent (stored row) = pa_incumbent row"
  "pa_request (stored row) = pa_request row" "pa_status (stored row) = pa_status row"
  by (subst stored_row, simp)+

end

end
