(* ===== verification/Ledger_Maps.thy ===== *)
theory Ledger_Maps
  imports Ports
begin

text \<open>What the use cases derive from a slice of the ledger: the latest disposition of each claim
  (\<^verbatim>\<open>build_latest_disposition_map\<close>), the claims an oracle denied
  (\<^verbatim>\<open>build_denied_via_adjudication_set\<close>), and the latest disposition of one claim
  (\<^verbatim>\<open>latest_disposition_from_ledger\<close> of the adjudication use cases).\<close>

text \<open>The closure each fold gets: a failed load of validity assertions counts as none
  (\<^verbatim>\<open>unwrap_or_default\<close>).\<close>

definition assertions_for ::
    "('w, 't, 'e) persistence_port \<Rightarrow> 'w \<Rightarrow> agent_id \<Rightarrow> claim_ref \<Rightarrow> validity_assertion list" where
  "assertions_for P w a r = unwrap_or [] (pp_load_validity_assertions_for P w a r)"

section \<open>The latest disposition per claim\<close>

type_synonym disposition_map = "claim_ref \<Rightarrow> (transaction_time \<times> disposition) option"

definition latest_step :: "disposition_map \<Rightarrow> ledger_entry \<Rightarrow> disposition_map" where
  "latest_step m e =
     (let should_insert = (case m (le_claim_ref e) of
            Some (t, _) \<Rightarrow> le_recorded_at e > t | None \<Rightarrow> True)
      in if should_insert then m(le_claim_ref e \<mapsto> (le_recorded_at e, le_disposition e)) else m)"

definition build_latest_disposition_map :: "ledger_entry list \<Rightarrow> claim_ref \<Rightarrow> disposition option" where
  "build_latest_disposition_map ledger r =
     map_option snd (foldl latest_step (\<lambda>_. None) ledger r)"

text \<open>\<^verbatim>\<open>Iterator::max_by_key\<close> keeps the last of several maxima.\<close>

fun max_by_time :: "ledger_entry list \<Rightarrow> ledger_entry option" where
  "max_by_time [] = None"
| "max_by_time (e # es) =
     (case max_by_time es of
        None \<Rightarrow> Some e
      | Some m \<Rightarrow> if le_recorded_at m \<ge> le_recorded_at e then Some m else Some e)"

definition latest_disposition_from_ledger :: "ledger_entry list \<Rightarrow> claim_ref \<Rightarrow> disposition option" where
  "latest_disposition_from_ledger ledger target =
     map_option le_disposition (max_by_time (filter (\<lambda>e. le_claim_ref e = target) ledger))"

section \<open>Denied claims\<close>

text \<open>\<^verbatim>\<open>Value::get\<close> and \<^verbatim>\<open>Value::as_str\<close>.\<close>

fun json_get :: "string \<Rightarrow> json \<Rightarrow> json option" where
  "json_get k (JObj kvs) = map_of kvs k"
| "json_get k _ = None"

fun json_as_str :: "json \<Rightarrow> message option" where
  "json_as_str (JStr s) = Some [Lit s]"
| "json_as_str (JText m) = Some m"
| "json_as_str _ = None"

definition verdict_field :: "ledger_entry \<Rightarrow> message option" where
  "verdict_field e = Option.bind (Option.bind (le_rationale e) (json_get ''verdict'')) json_as_str"

text \<open>The legacy scan: an adjacent pair \<^verbatim>\<open>QueuedForAdjudication\<close>, \<^verbatim>\<open>Superseded\<close>.\<close>

fun queued_then_superseded :: "ledger_entry list \<Rightarrow> bool" where
  "queued_then_superseded (a # b # es) =
     ((le_disposition a = QueuedForAdjudication \<and> le_disposition b = Superseded)
      \<or> queued_then_superseded (b # es))"
| "queued_then_superseded _ = False"

definition after_last_reinstated :: "ledger_entry list \<Rightarrow> ledger_entry list" where
  "after_last_reinstated es = rev (takeWhile (\<lambda>e. le_disposition e \<noteq> Reinstated) (rev es))"

definition is_denied_history :: "ledger_entry list \<Rightarrow> bool" where
  "is_denied_history entries =
     (let es = sort_key le_recorded_at entries
      in if es = [] then False
         else if le_disposition (last es) \<noteq> Superseded then False
         else case verdict_field (last es) of
                Some v \<Rightarrow> v = [Lit ''deny'']
              | None \<Rightarrow> queued_then_superseded (after_last_reinstated es))"

definition build_denied_via_adjudication_set :: "ledger_entry list \<Rightarrow> claim_ref set" where
  "build_denied_via_adjudication_set ledger =
     set (filter (\<lambda>r. is_denied_history (filter (\<lambda>e. le_claim_ref e = r) ledger))
            (remdups (map le_claim_ref ledger)))"

section \<open>Facts\<close>

text \<open>Seen at one claim, the map is a fold over the entries of that claim.\<close>

definition latest_upd :: "(transaction_time \<times> disposition) option \<Rightarrow> ledger_entry \<Rightarrow> (transaction_time \<times> disposition) option" where
  "latest_upd s e = (case s of
      Some (t, d) \<Rightarrow> if le_recorded_at e > t then Some (le_recorded_at e, le_disposition e) else s
    | None \<Rightarrow> Some (le_recorded_at e, le_disposition e))"

lemma latest_step_at: "latest_step m e r = (if le_claim_ref e = r then latest_upd (m r) e else m r)"
  by (auto simp: latest_step_def latest_upd_def Let_def split: option.splits prod.splits)

lemma foldl_latest_step_at:
  "foldl latest_step m es r = foldl latest_upd (m r) (filter (\<lambda>e. le_claim_ref e = r) es)"
  by (induction es arbitrary: m) (simp_all add: latest_step_at)

lemma build_latest_disposition_map_at:
  "build_latest_disposition_map es r
     = map_option snd (foldl latest_upd None (filter (\<lambda>e. le_claim_ref e = r) es))"
  by (simp add: build_latest_disposition_map_def foldl_latest_step_at)

lemma build_latest_disposition_map_filter:
  "build_latest_disposition_map es r
     = build_latest_disposition_map (filter (\<lambda>e. le_claim_ref e = r) es) r"
  by (simp add: build_latest_disposition_map_at)

lemma foldl_latest_upd_None: "foldl latest_upd s es = None \<longleftrightarrow> s = None \<and> es = []"
  by (induction es arbitrary: s) (auto simp: latest_upd_def split: option.splits)

lemma foldl_latest_upd_Some:
  "foldl latest_upd None es = Some (t, d) \<Longrightarrow>
     \<exists>e \<in> set es. le_recorded_at e = t \<and> le_disposition e = d \<and> (\<forall>x \<in> set es. le_recorded_at x \<le> t)"
proof (induction es arbitrary: t d rule: rev_induct)
  case (snoc x xs)
  show ?case
  proof (cases "foldl latest_upd None xs")
    case None
    then have "xs = []" by (simp add: foldl_latest_upd_None)
    then show ?thesis using snoc.prems by (simp add: latest_upd_def)
  next
    case (Some p)
    obtain t0 d0 where p: "p = (t0, d0)" by (cases p)
    from snoc.IH[OF Some[unfolded p]] obtain e where
      e: "e \<in> set xs" "le_recorded_at e = t0" "le_disposition e = d0" "\<forall>x \<in> set xs. le_recorded_at x \<le> t0"
      by blast
    have "latest_upd (Some (t0, d0)) x = Some (t, d)"
      using snoc.prems Some p by simp
    then consider "t0 < le_recorded_at x" "t = le_recorded_at x" "d = le_disposition x"
      | "le_recorded_at x \<le> t0" "t = t0" "d = d0"
      by (auto simp: latest_upd_def split: if_splits)
    then show ?thesis
    proof cases
      case 1
      then show ?thesis using e(4) by (intro bexI[of _ x]) (auto intro: order_trans[OF _ less_imp_le])
    next
      case 2
      then show ?thesis using e by (intro bexI[of _ e]) auto
    qed
  qed
qed simp

lemma build_denied_mem:
  "r \<in> build_denied_via_adjudication_set ledger
     \<longleftrightarrow> is_denied_history (filter (\<lambda>e. le_claim_ref e = r) ledger)"
proof -
  have "r \<in> le_claim_ref ` set ledger" if "is_denied_history (filter (\<lambda>e. le_claim_ref e = r) ledger)"
  proof (rule ccontr)
    assume "r \<notin> le_claim_ref ` set ledger"
    then have "filter (\<lambda>e. le_claim_ref e = r) ledger = []" by (auto simp: filter_empty_conv)
    with that show False by (simp add: is_denied_history_def)
  qed
  then show ?thesis by (auto simp: build_denied_via_adjudication_set_def)
qed

lemma latest_map_None:
  "build_latest_disposition_map es r = None \<longleftrightarrow> r \<notin> le_claim_ref ` set es"
  by (auto simp: build_latest_disposition_map_at foldl_latest_upd_None filter_empty_conv)

lemma latest_disposition_map_sound:
  assumes "build_latest_disposition_map es r = Some d"
  shows "\<exists>e \<in> set es. le_claim_ref e = r \<and> le_disposition e = d
           \<and> (\<forall>x \<in> set es. le_claim_ref x = r \<longrightarrow> le_recorded_at x \<le> le_recorded_at e)"
proof -
  obtain t where "foldl latest_upd None (filter (\<lambda>e. le_claim_ref e = r) es) = Some (t, d)"
    using assms by (auto simp: build_latest_disposition_map_at)
  from foldl_latest_upd_Some[OF this] show ?thesis by auto
qed

text \<open>A later entry decides the disposition.\<close>

lemma latest_disposition_map_snoc:
  assumes "\<And>x. x \<in> set es \<Longrightarrow> le_claim_ref x = le_claim_ref e \<Longrightarrow> le_recorded_at x < le_recorded_at e"
  shows "build_latest_disposition_map (es @ [e]) (le_claim_ref e) = Some (le_disposition e)"
proof (cases "foldl latest_upd None (filter (\<lambda>x. le_claim_ref x = le_claim_ref e) es)")
  case None
  then show ?thesis by (simp add: build_latest_disposition_map_at latest_upd_def)
next
  case (Some p)
  obtain t d where p: "p = (t, d)" by (cases p)
  have "t < le_recorded_at e"
    using foldl_latest_upd_Some[OF Some[unfolded p]] assms by auto
  then show ?thesis using Some p by (simp add: build_latest_disposition_map_at latest_upd_def)
qed

lemma max_by_time_Some:
  "max_by_time es = Some m \<Longrightarrow> m \<in> set es \<and> (\<forall>x \<in> set es. le_recorded_at x \<le> le_recorded_at m)"
proof (induction es arbitrary: m)
  case (Cons e es)
  show ?case
  proof (cases "max_by_time es")
    case None
    then have "es = []" by (cases es) (auto split: option.splits if_splits)
    then show ?thesis using Cons.prems by simp
  next
    case (Some k)
    with Cons.IH[OF Some] Cons.prems show ?thesis by (auto split: if_splits intro: order_trans)
  qed
qed simp

lemma max_by_time_None: "max_by_time es = None \<longleftrightarrow> es = []"
  by (cases es) (auto split: option.splits)

text \<open>The two notions of latest disposition agree when no two entries of the claim share a time.\<close>

lemma latest_dispositions_agree:
  assumes "inj_on le_recorded_at (set (filter (\<lambda>e. le_claim_ref e = r) es))"
  shows "build_latest_disposition_map es r = latest_disposition_from_ledger es r"
proof (cases "build_latest_disposition_map es r")
  case None
  then have "filter (\<lambda>e. le_claim_ref e = r) es = []"
    by (auto simp: latest_map_None filter_empty_conv)
  then show ?thesis using None by (simp add: latest_disposition_from_ledger_def)
next
  case (Some d)
  then obtain e where e: "e \<in> set es" "le_claim_ref e = r" "le_disposition e = d"
      "\<forall>x \<in> set es. le_claim_ref x = r \<longrightarrow> le_recorded_at x \<le> le_recorded_at e"
    using latest_disposition_map_sound by blast
  then obtain m where m: "max_by_time (filter (\<lambda>e. le_claim_ref e = r) es) = Some m"
    by (metis (mono_tags, lifting) filter_empty_conv max_by_time_None not_None_eq)
  then have "m \<in> set es" "le_claim_ref m = r" "le_recorded_at e \<le> le_recorded_at m"
    using max_by_time_Some[OF m] e by auto
  then have "m = e"
    using assms e by (auto simp: inj_on_def)
  then show ?thesis using m e Some by (simp add: latest_disposition_from_ledger_def)
qed

end
