(* ===== verification/Txn_Effects.thy ===== *)
theory Txn_Effects
  imports Ports
begin

text \<open>The transaction protocol every write use case follows (begin, the appends, commit on success,
  rollback on error) and what a persistence adapter guarantees of it: a run that reports an error
  leaves the published store as it was, a run that succeeds publishes exactly the rows of its body.

  \<^verbatim>\<open>grows now d d'\<close> is the effect every write may have: rows appended, all stamped \<^verbatim>\<open>now\<close>; the
  old rows untouched, except for the status of a pending row; keys still unique.\<close>

section \<open>The protocol\<close>

text \<open>The end of \<^verbatim>\<open>execute\<close> in each write use case: \<^verbatim>\<open>begin_atomic\<close>, the body on the open transaction,
  then \<^verbatim>\<open>match result { Ok => commit, Err => rollback }\<close>, whose own result is ignored.\<close>

definition in_txn ::
    "('w, 't, 'e) persistence_port \<Rightarrow> agent_id \<Rightarrow> ('t, 'e mem_error, 'a) tx_step \<Rightarrow> 'w
       \<Rightarrow> ('e mem_error, 'a) res \<times> 'w" where
  "in_txn P a body w =
     (case pp_begin_atomic P a w of
        (Inl e, w1) \<Rightarrow> (Inl (Persistence e), w1)
      | (Inr t, w1) \<Rightarrow>
          (case body t of
             (Inr x, t') \<Rightarrow>
               (case pp_commit P t' w1 of
                  (Inl e, w2) \<Rightarrow> (Inl (Persistence e), w2)
                | (Inr _, w2) \<Rightarrow> (Inr x, w2))
           | (Inl e, t') \<Rightarrow> (Inl e, snd (pp_rollback P t' w1))))"

section \<open>Growth of the store\<close>

definition db_wf :: "db \<Rightarrow> bool" where
  "db_wf d = (distinct (map cl_ref (db_claims d)) \<and> distinct (map va_assertion_ref (db_assertions d))
     \<and> distinct (map pa_handle_id (db_pending d)))"

definition unstatus :: "pending_row \<Rightarrow> pending_row" where
  "unstatus r = r\<lparr>pa_status := []\<rparr>"

definition appended :: "instant \<Rightarrow> db \<Rightarrow> db \<Rightarrow> bool" where
  "appended now d d' =
     ((\<exists>cs. db_claims d' = db_claims d @ cs \<and> (\<forall>c \<in> set cs. cl_transaction_time c = now))
      \<and> (\<exists>as. db_assertions d' = db_assertions d @ as \<and> (\<forall>a \<in> set as. va_asserted_at a = now))
      \<and> (\<exists>es. db_ledger d' = db_ledger d @ es \<and> (\<forall>e \<in> set es. le_recorded_at e = now))
      \<and> (\<exists>es. db_edges d' = db_edges d @ es \<and> (\<forall>e \<in> set es. ed_created_at e = now))
      \<and> (\<exists>rs. map unstatus (db_pending d') = map unstatus (db_pending d) @ rs))"

definition grows :: "instant \<Rightarrow> db \<Rightarrow> db \<Rightarrow> bool" where
  "grows now d d' = (appended now d d' \<and> (db_wf d \<longrightarrow> db_wf d'))"

lemma appended_refl [simp, intro]: "appended now d d"
  by (simp add: appended_def)

lemma appended_trans: "appended now d d' \<Longrightarrow> appended now d' d'' \<Longrightarrow> appended now d d''"
  unfolding appended_def by (elim conjE exE, intro conjI) (auto intro: exI)

lemma grows_refl [simp, intro]: "grows now d d"
  by (simp add: grows_def)

lemma grows_trans [trans]: "grows now d d' \<Longrightarrow> grows now d' d'' \<Longrightarrow> grows now d d''"
  unfolding grows_def using appended_trans by blast

lemma grows_add_claim:
  "cl_transaction_time c = now \<Longrightarrow> cl_ref c \<notin> cl_ref ` set (db_claims d) \<Longrightarrow> grows now d (add_claim c d)"
  by (auto simp: grows_def appended_def add_claim_def db_wf_def)

lemma grows_add_assertion:
  "va_asserted_at a = now \<Longrightarrow> va_assertion_ref a \<notin> va_assertion_ref ` set (db_assertions d)
     \<Longrightarrow> grows now d (add_assertion a d)"
  by (auto simp: grows_def appended_def add_assertion_def db_wf_def)

lemma grows_add_ledger: "le_recorded_at e = now \<Longrightarrow> grows now d (add_ledger e d)"
  by (auto simp: grows_def appended_def add_ledger_def db_wf_def)

lemma grows_add_edge: "ed_created_at e = now \<Longrightarrow> grows now d (add_edge e d)"
  by (auto simp: grows_def appended_def add_edge_def db_wf_def)

lemma grows_add_pending:
  "pa_handle_id r \<notin> pa_handle_id ` set (db_pending d) \<Longrightarrow> grows now d (add_pending r d)"
  by (auto simp: grows_def appended_def add_pending_def db_wf_def)

lemma grows_set_pending_status: "grows now d (set_pending_status s h d)"
proof -
  have "map pa_handle_id (map (\<lambda>r. if pa_handle_id r = h then r\<lparr>pa_status := s\<rparr> else r) rs)
      = map pa_handle_id rs" for rs :: "pending_row list" by (induction rs) auto
  moreover have "map unstatus (map (\<lambda>r. if pa_handle_id r = h then r\<lparr>pa_status := s\<rparr> else r) rs)
      = map unstatus rs" for rs by (induction rs) (auto simp: unstatus_def)
  ultimately show ?thesis
    by (simp add: grows_def appended_def set_pending_status_def db_wf_def del: map_map)
qed

section \<open>Steps that grow\<close>

definition tx_grows :: "('t \<Rightarrow> db) \<Rightarrow> instant \<Rightarrow> ('t, 'e, 'a) tx_step \<Rightarrow> bool" where
  "tx_grows work now m = (\<forall>t. grows now (work t) (work (snd (m t))))"

named_theorems tx_grow

lemma tx_grows_return [tx_grow]: "tx_grows work now (tx_return x)"
  by (simp add: tx_grows_def)

lemma tx_grows_bind [tx_grow]:
  assumes "tx_grows work now m" "\<And>x. tx_grows work now (f x)"
  shows "tx_grows work now (tx_bind m f)"
  unfolding tx_grows_def
proof
  fix t
  obtain r t1 where m: "m t = (r, t1)" by (cases "m t")
  have "grows now (work t) (work t1)" using assms(1) m by (metis snd_conv tx_grows_def)
  moreover have "grows now (work t1) (work (snd (f x t1)))" for x
    using assms(2) by (simp add: tx_grows_def)
  ultimately show "grows now (work t) (work (snd (tx_bind m f t)))"
    using m by (cases r) (auto simp: tx_bind_def intro: grows_trans)
qed

lemma tx_grows_map_err [tx_grow]: "tx_grows work now m \<Longrightarrow> tx_grows work now (tx_map_err g m)"
  by (simp add: tx_grows_def tx_map_err_run)

lemma tx_grows_foreach [tx_grow]:
  "(\<And>x. x \<in> set xs \<Longrightarrow> tx_grows work now (f x)) \<Longrightarrow> tx_grows work now (tx_foreach f xs)"
  by (induction xs) (auto intro!: tx_grow)

section \<open>What the adapter guarantees\<close>

context persistence
begin

lemma claim_grows [tx_grow]: "cl_transaction_time c = now \<Longrightarrow> tx_grows work now (pp_append_claim P c)"
  unfolding tx_grows_def
proof
  fix t
  assume c: "cl_transaction_time c = now"
  obtain r t' where "pp_append_claim P c t = (r, t')" by (cases "pp_append_claim P c t")
  then show "grows now (work t) (work (snd (pp_append_claim P c t)))"
    using append_claim_ok append_claim_err grows_add_claim[OF c]
    by (cases r) (fastforce simp: image_iff)+
qed

lemma assertion_grows [tx_grow]:
  "va_asserted_at a = now \<Longrightarrow> tx_grows work now (pp_append_validity_assertion P a)"
  unfolding tx_grows_def
proof
  fix t
  assume a: "va_asserted_at a = now"
  obtain r t' where "pp_append_validity_assertion P a t = (r, t')"
    by (cases "pp_append_validity_assertion P a t")
  then show "grows now (work t) (work (snd (pp_append_validity_assertion P a t)))"
    using append_assertion_ok append_assertion_err grows_add_assertion[OF a]
    by (cases r) (fastforce simp: image_iff)+
qed

lemma ledger_grows [tx_grow]:
  "le_recorded_at e = now \<Longrightarrow> tx_grows work now (pp_append_ledger_entry P e)"
  unfolding tx_grows_def
proof
  fix t
  assume e: "le_recorded_at e = now"
  obtain r t' where "pp_append_ledger_entry P e t = (r, t')" by (cases "pp_append_ledger_entry P e t")
  then show "grows now (work t) (work (snd (pp_append_ledger_entry P e t)))"
    using append_ledger_ok append_ledger_err grows_add_ledger[OF e] by (cases r) fastforce+
qed

lemma edge_grows [tx_grow]: "ed_created_at e = now \<Longrightarrow> tx_grows work now (pp_append_claim_edge P e)"
  unfolding tx_grows_def
proof
  fix t
  assume e: "ed_created_at e = now"
  obtain r t' where "pp_append_claim_edge P e t = (r, t')" by (cases "pp_append_claim_edge P e t")
  then show "grows now (work t) (work (snd (pp_append_claim_edge P e t)))"
    using append_edge_ok append_edge_err grows_add_edge[OF e] by (cases r) fastforce+
qed

text \<open>Atomicity: an error leaves the published store alone; a success publishes what the body wrote.\<close>

lemma in_txn_error:
  assumes "in_txn P a body w = (Inl e, w')"
  shows "disk w' = disk w"
  using assms unfolding in_txn_def
  by (auto split: prod.splits sum.splits dest!: begin_ok begin_err commit_err)
    (metis rollback_disk snd_conv)+

lemma in_txn_ok:
  assumes "in_txn P a body w = (Inr x, w')"
  obtains t t' where "work t = disk w" "body t = (Inr x, t')" "disk w' = work t'"
  using assms unfolding in_txn_def
  by (auto split: prod.splits sum.splits dest!: begin_ok commit_ok)

lemma in_txn_grows:
  assumes "tx_grows work now body"
  shows "grows now (disk w) (disk (snd (in_txn P a body w)))"
proof -
  obtain r w' where r: "in_txn P a body w = (r, w')" by (cases "in_txn P a body w")
  show ?thesis
  proof (cases r)
    case (Inl e)
    then show ?thesis using r in_txn_error by fastforce
  next
    case (Inr x)
    then obtain t t' where "work t = disk w" "body t = (Inr x, t')" "disk w' = work t'"
      using r by (blast elim: in_txn_ok)
    then show ?thesis using assms r by (metis snd_conv tx_grows_def)
  qed
qed

end

context pending_queue
begin

lemma insert_grows: "grows now (disk w) (disk (snd (pq_insert_pending Q row w)))"
proof -
  obtain r w' where "pq_insert_pending Q row w = (r, w')" by (cases "pq_insert_pending Q row w")
  then show ?thesis
    using insert_ok insert_err grows_add_pending[of "stored row"] by (cases r) (fastforce simp: stored_cols)+
qed

lemma mark_resolved_grows: "grows now (disk w) (disk (snd (pq_mark_resolved Q h w)))"
proof -
  obtain r w' where "pq_mark_resolved Q h w = (r, w')" by (cases "pq_mark_resolved Q h w")
  then show ?thesis
    using mark_resolved_ok mark_resolved_err grows_set_pending_status by (cases r) fastforce+
qed

lemma mark_expired_grows: "grows now (disk w) (disk (snd (pq_mark_expired Q h w)))"
proof -
  obtain r w' where "pq_mark_expired Q h w = (r, w')" by (cases "pq_mark_expired Q h w")
  then show ?thesis
    using mark_expired_ok mark_expired_err grows_set_pending_status by (cases r) fastforce+
qed

end

end
