(* ===== verification/Ingest.thy ===== *)
theory Ingest
  imports Gateway_Firewall Gate_Reconciler Ledger_Maps Txn_Effects
begin

text \<open>\<^verbatim>\<open>application/ingest_claim.rs\<close>: stamp, amplification guard, fold of the line, conflict
  classification against every candidate on it, gate, one atomic transaction (claim, ledger entry,
  lineage edges), and, when the claim is queued, the oracle request and the pending row.

  Each call draws its fresh UUIDs from the argument \<^verbatim>\<open>ids\<close>, in the order of the draws.\<close>

record ingest_request =
  iq_agent_id :: agent_id
  iq_subject :: string
  iq_predicate :: string
  iq_value :: json
  iq_provenance :: provenance_label
  iq_cardinality :: cardinality
  iq_valid_time :: "valid_time option"
  iq_confidence :: confidence
  iq_criticality :: criticality
  iq_derived_from :: "claim_ref list"

record ingest_response =
  ir_claim_ref :: claim_ref
  ir_disposition :: disposition
  ir_contested_with :: "claim_ref list"

definition ingest_input_of :: "ingest_request \<Rightarrow> ingest_input" where
  "ingest_input_of req = \<lparr>
     gi_agent_id = iq_agent_id req,
     gi_fact = \<lparr>fa_subject = iq_subject req, fa_predicate = iq_predicate req, fa_value = iq_value req\<rparr>,
     gi_cardinality = iq_cardinality req,
     gi_provenance = Some (iq_provenance req),
     gi_external_anchor = \<lparr>ea_nearest_external_anchor = None, ea_derivation_depth = 0\<rparr>,
     gi_valid_time = iq_valid_time req,
     gi_confidence = iq_confidence req,
     gi_criticality = iq_criticality req,
     gi_derived_from = iq_derived_from req,
     gi_metadata = None\<rparr>"

text \<open>Step 3: the fold of the line as it is now, and what the candidate is classified against.\<close>

definition current_belief :: "fold_result \<Rightarrow> claim list \<Rightarrow> belief option" where
  "current_belief fr all_live =
     (case fr_live_claims fr of
        cs # _ \<Rightarrow> Some (claim_to_belief cs)
      | [] \<Rightarrow> (case all_live of c # _ \<Rightarrow> Some (claim_to_belief_raw c) | [] \<Rightarrow> None))"

definition ingest_decide ::
    "engine_config \<Rightarrow> bool \<Rightarrow> ingest_request \<Rightarrow> claim \<Rightarrow> fold_result \<Rightarrow> ledger_entry list
       \<Rightarrow> belief option \<times> gate_decision" where
  "ingest_decide cfg oracle_present req c fr ledger =
     (let all_live = build_conflict_candidate_claims fr (build_denied_via_adjudication_set ledger);
          incumbent = current_belief fr all_live;
          proposal = reconcile_claim \<lparr>
            ri_candidate = c,
            ri_incumbent = incumbent,
            ri_superseded_claim_refs = [],
            ri_measured_confidence = cf_value_confidence (iq_confidence req),
            ri_cardinality_proposal = iq_cardinality req,
            ri_oracle_present = oracle_present,
            ri_succession_threshold = ec_valid_time_confidence_threshold cfg,
            ri_all_live_claims = all_live\<rparr>
      in (incumbent, adjudicate proposal cfg))"

text \<open>The loop over the parents draws one edge id per parent.\<close>

fun lineage_edges :: "(nat \<Rightarrow> uuid) \<Rightarrow> nat \<Rightarrow> agent_id \<Rightarrow> claim_ref \<Rightarrow> transaction_time \<Rightarrow> claim_ref list \<Rightarrow> claim_edge list" where
  "lineage_edges ids k a child now [] = []"
| "lineage_edges ids k a child now (p # ps) =
     \<lparr>ed_edge_id = ids k, ed_agent_id = a, ed_from_claim = child, ed_to_claim = p,
      ed_kind = DerivedFrom, ed_created_at = now\<rparr> # lineage_edges ids (Suc k) a child now ps"

definition committed_entry :: "uuid \<Rightarrow> agent_id \<Rightarrow> claim_ref \<Rightarrow> gate_decision \<Rightarrow> transaction_time \<Rightarrow> ledger_entry" where
  "committed_entry entry_id a r decision now =
     \<lparr>le_entry_id = entry_id, le_agent_id = a, le_claim_ref = r, le_event_kind = ClaimCommitted,
      le_disposition = gd_disposition decision, le_rationale = Some (gd_rationale decision),
      le_recorded_at = now\<rparr>"

definition append_within_txn ::
    "('w, 't, 'e) persistence_port \<Rightarrow> (nat \<Rightarrow> uuid) \<Rightarrow> claim \<Rightarrow> gate_decision \<Rightarrow> belief option \<Rightarrow> agent_id
       \<Rightarrow> transaction_time \<Rightarrow> ('t, 'e mem_error, ingest_response) tx_step" where
  "append_within_txn P ids c decision incumbent a now =
     tx_bind (tx_map_err Persistence (pp_append_claim P c)) (\<lambda>claim_ref.
     tx_bind (tx_map_err Persistence
               (pp_append_ledger_entry P (committed_entry (ids 1) a claim_ref decision now))) (\<lambda>_.
     tx_bind (tx_foreach (\<lambda>edge. tx_map_err Persistence (pp_append_claim_edge P edge))
               (lineage_edges ids 2 a claim_ref now (cl_derived_from c))) (\<lambda>_.
     tx_return \<lparr>ir_claim_ref = claim_ref, ir_disposition = gd_disposition decision,
       ir_contested_with =
         (if gd_disposition decision \<in> {Contested, QueuedForAdjudication}
          then (case incumbent of Some b \<Rightarrow> [be_claim_ref b] | None \<Rightarrow> []) else [])\<rparr>)))"

text \<open>Step 6. \<^verbatim>\<open>chrono::Duration::from_std\<close> refuses a duration above \<^verbatim>\<open>i64::MAX\<close> milliseconds,
  which the code replaces by zero.\<close>

definition chrono_from_std :: "duration \<Rightarrow> int" where
  "chrono_from_std d = (if int d \<le> (2 ^ 63 - 1) * 1000000 then int d else 0)"

definition adjudication_request_of :: "ingest_request \<Rightarrow> belief \<Rightarrow> claim \<Rightarrow> adjudication_request" where
  "adjudication_request_of req incumbent c =
     \<lparr>ar_subject_line = \<lparr>sl_agent_id = iq_agent_id req, sl_subject = iq_subject req,
                         sl_predicate = iq_predicate req\<rparr>,
      ar_incumbent = incumbent, ar_challenger = c, ar_criticality = iq_criticality req,
      ar_reason = ExternalContradiction\<rparr>"

definition pending_row_of ::
    "engine_config \<Rightarrow> ingest_request \<Rightarrow> belief \<Rightarrow> claim \<Rightarrow> claim_ref \<Rightarrow> uuid \<Rightarrow> instant \<Rightarrow> pending_row" where
  "pending_row_of cfg req incumbent c challenger handle now =
     \<lparr>pa_handle_id = handle, pa_agent_id = iq_agent_id req, pa_subject = iq_subject req,
      pa_predicate = iq_predicate req, pa_challenger = challenger, pa_incumbent = be_claim_ref incumbent,
      pa_request = adjudication_request_of req incumbent c, pa_queued_at = now,
      pa_expires_at = map_option (\<lambda>ttl. now + chrono_from_std ttl) (ec_default_adjudication_ttl cfg),
      pa_status = ''pending''\<rparr>"

definition enqueue_adjudication ::
    "('w, 'e) pending_port option \<Rightarrow> oracle_port option \<Rightarrow> engine_config \<Rightarrow> ingest_request \<Rightarrow> belief option
       \<Rightarrow> claim \<Rightarrow> ingest_response \<Rightarrow> instant \<Rightarrow> 'w \<Rightarrow> ('e mem_error, ingest_response) res \<times> 'w" where
  "enqueue_adjudication Q oracle cfg req incumbent c response now w =
     (if ir_disposition response \<noteq> QueuedForAdjudication then (Inr response, w)
      else case (oracle, Q, incumbent) of
        (Some ask, Some queue, Some b) \<Rightarrow>
          (case ask (iq_agent_id req) (adjudication_request_of req b c) of
             Inl reason \<Rightarrow> (Inl (OracleError reason), w)
           | Inr handle \<Rightarrow>
               (case pq_insert_pending queue
                       (pending_row_of cfg req b c (ir_claim_ref response) handle now) w of
                  (Inl e, w') \<Rightarrow> (Inl (PendingStore e), w')
                | (Inr _, w') \<Rightarrow> (Inr response, w')))
      | _ \<Rightarrow> (Inr response, w))"

definition ingest_classified ::
    "('w, 't, 'e) persistence_port \<Rightarrow> ('w, 'e) pending_port option \<Rightarrow> oracle_port option \<Rightarrow> engine_config
       \<Rightarrow> (nat \<Rightarrow> uuid) \<Rightarrow> ingest_request \<Rightarrow> instant \<Rightarrow> claim \<Rightarrow> claim list \<Rightarrow> ledger_entry list \<Rightarrow> 'w
       \<Rightarrow> ('e mem_error, ingest_response) res \<times> 'w" where
  "ingest_classified P Q oracle cfg ids req now c incumbent_claims ledger w =
     (let fr = fold_claims incumbent_claims (assertions_for P w (iq_agent_id req)) now None cfg
                 (build_latest_disposition_map ledger);
          (incumbent, decision) = ingest_decide cfg (oracle \<noteq> None) req c fr ledger
      in case in_txn P (iq_agent_id req)
                 (append_within_txn P ids c decision incumbent (iq_agent_id req) now) w of
           (Inl e, w') \<Rightarrow> (Inl e, w')
         | (Inr response, w') \<Rightarrow> enqueue_adjudication Q oracle cfg req incumbent c response now w')"

definition ingest_execute ::
    "('w, 't, 'e) persistence_port \<Rightarrow> ('w, 'e) pending_port option \<Rightarrow> oracle_port option \<Rightarrow> engine_config
       \<Rightarrow> (nat \<Rightarrow> uuid) \<Rightarrow> ingest_request \<Rightarrow> instant \<Rightarrow> 'w \<Rightarrow> ('e mem_error, ingest_response) res \<times> 'w" where
  "ingest_execute P Q oracle cfg ids req now w =
     (case stamp (ingest_input_of req) now (ids 0) of
        Inl e \<Rightarrow> (Inl e, w)
      | Inr c \<Rightarrow>
        (case pp_load_injected_claims P w (iq_agent_id req) of
           Inl e \<Rightarrow> (Inl (Persistence e), w)
         | Inr injected \<Rightarrow>
           (case firewall_check cfg c injected 0 of
              CorroborateByIdentity existing _ \<Rightarrow>
                (Inr \<lparr>ir_claim_ref = existing, ir_disposition = CommittedCheap, ir_contested_with = []\<rparr>, w)
            | FW_Quarantine _ \<Rightarrow>
                (Inr \<lparr>ir_claim_ref = cl_ref c, ir_disposition = Quarantined, ir_contested_with = []\<rparr>, w)
            | _ \<Rightarrow>
              (case pp_load_subject_line P w (iq_agent_id req) (iq_subject req) (iq_predicate req) None of
                 Inl e \<Rightarrow> (Inl (Persistence e), w)
               | Inr incumbent_claims \<Rightarrow>
                 (case pp_load_ledger_for_claims P w (iq_agent_id req) (map cl_ref incumbent_claims) None of
                    Inl e \<Rightarrow> (Inl (Persistence e), w)
                  | Inr ledger \<Rightarrow>
                      ingest_classified P Q oracle cfg ids req now c incumbent_claims ledger w)))))"

end
