(* ===== verification/Sqlite_Codecs.thy ===== *)
theory Sqlite_Codecs
  imports Ports
begin

text \<open>The column codecs and row mappings of \<^verbatim>\<open>mempill-sqlite/src/store.rs\<close>, and the crate's error
  type. A TEXT column that third-party code renders (an RFC-3339 instant, a UUID, JSON text) is held
  as the rendered value; a REAL column holds the \<^verbatim>\<open>f32\<close> it was widened from. Enumerations are the
  TEXT values the code writes.\<close>

section \<open>Errors\<close>

datatype sqlite_failure = DatabaseBusy | ConstraintViolation | OtherFailure

datatype migration_error = ME_Sqlite sqlite_failure

datatype sqlite_store_error =
    Sqlite sqlite_failure
  | Migration migration_error
  | Mapping message
  | TxnAlreadyOpen
  | InvalidAgentId message

section \<open>Enumeration columns\<close>

fun provenance_to_str :: "provenance_label \<Rightarrow> string" where
  "provenance_to_str ModelDerived = ''ModelDerived''"
| "provenance_to_str RecallReEntry = ''RecallReEntry''"
| "provenance_to_str (External UserAsserted) = ''External_UserAsserted''"
| "provenance_to_str (External ExternalFirstHand) = ''External_ExternalFirstHand''"

definition str_to_provenance :: "string \<Rightarrow> (sqlite_store_error, provenance_label) res" where
  "str_to_provenance s =
     (if s = ''ModelDerived'' then Inr ModelDerived
      else if s = ''RecallReEntry'' then Inr RecallReEntry
      else if s = ''External_UserAsserted'' then Inr (External UserAsserted)
      else if s = ''External_ExternalFirstHand'' then Inr (External ExternalFirstHand)
      else Inl (Mapping [Lit (''unknown provenance_label value: '' @ s)]))"

fun cardinality_to_str :: "cardinality \<Rightarrow> string" where
  "cardinality_to_str Functional = ''Functional''"
| "cardinality_to_str SetValued = ''SetValued''"
| "cardinality_to_str CardUnknown = ''Unknown''"

definition str_to_cardinality :: "string \<Rightarrow> (sqlite_store_error, cardinality) res" where
  "str_to_cardinality s =
     (if s = ''Functional'' then Inr Functional
      else if s = ''SetValued'' then Inr SetValued
      else if s = ''Unknown'' then Inr CardUnknown
      else Inl (Mapping [Lit (''unknown cardinality value: '' @ s)]))"

fun criticality_to_str :: "criticality \<Rightarrow> string" where
  "criticality_to_str Low = ''Low''"
| "criticality_to_str Medium = ''Medium''"
| "criticality_to_str High = ''High''"
| "criticality_to_str Critical = ''Critical''"

definition str_to_criticality :: "string \<Rightarrow> (sqlite_store_error, criticality) res" where
  "str_to_criticality s =
     (if s = ''Low'' then Inr Low
      else if s = ''Medium'' then Inr Medium
      else if s = ''High'' then Inr High
      else if s = ''Critical'' then Inr Critical
      else Inl (Mapping [Lit (''unknown criticality value: '' @ s)]))"

fun edge_kind_to_str :: "edge_kind \<Rightarrow> string" where
  "edge_kind_to_str DerivedFrom = ''DerivedFrom''"
| "edge_kind_to_str Supersedes = ''Supersedes''"
| "edge_kind_to_str DependsOn = ''DependsOn''"
| "edge_kind_to_str MutualExclusion = ''MutualExclusion''"

definition str_to_edge_kind :: "string \<Rightarrow> (sqlite_store_error, edge_kind) res" where
  "str_to_edge_kind s =
     (if s = ''DerivedFrom'' then Inr DerivedFrom
      else if s = ''Supersedes'' then Inr Supersedes
      else if s = ''DependsOn'' then Inr DependsOn
      else if s = ''MutualExclusion'' then Inr MutualExclusion
      else Inl (Mapping [Lit (''unknown edge_kind value: '' @ s)]))"

fun ledger_event_kind_to_str :: "ledger_event_kind \<Rightarrow> string" where
  "ledger_event_kind_to_str ClaimCommitted = ''ClaimCommitted''"
| "ledger_event_kind_to_str ValidityAsserted = ''ValidityAsserted''"
| "ledger_event_kind_to_str AdjudicationRequested = ''AdjudicationRequested''"
| "ledger_event_kind_to_str AdjudicationResolved = ''AdjudicationResolved''"
| "ledger_event_kind_to_str RecallReEntryDetected = ''RecallReEntryDetected''"
| "ledger_event_kind_to_str EvQuarantined = ''Quarantined''"
| "ledger_event_kind_to_str DependentFlaggedPendingReview = ''DependentFlaggedPendingReview''"
| "ledger_event_kind_to_str ServedAsInjected = ''ServedAsInjected''"
| "ledger_event_kind_to_str AdjudicationExpired = ''AdjudicationExpired''"

definition str_to_ledger_event_kind :: "string \<Rightarrow> (sqlite_store_error, ledger_event_kind) res" where
  "str_to_ledger_event_kind s =
     (if s = ''ClaimCommitted'' then Inr ClaimCommitted
      else if s = ''ValidityAsserted'' then Inr ValidityAsserted
      else if s = ''AdjudicationRequested'' then Inr AdjudicationRequested
      else if s = ''AdjudicationResolved'' then Inr AdjudicationResolved
      else if s = ''RecallReEntryDetected'' then Inr RecallReEntryDetected
      else if s = ''Quarantined'' then Inr EvQuarantined
      else if s = ''DependentFlaggedPendingReview'' then Inr DependentFlaggedPendingReview
      else if s = ''ServedAsInjected'' then Inr ServedAsInjected
      else if s = ''AdjudicationExpired'' then Inr AdjudicationExpired
      else Inl (Mapping [Lit (''unknown ledger event_kind value: '' @ s)]))"

fun disposition_to_str :: "disposition \<Rightarrow> string" where
  "disposition_to_str CommittedCheap = ''CommittedCheap''"
| "disposition_to_str CommittedInferred = ''CommittedInferred''"
| "disposition_to_str QueuedForAdjudication = ''QueuedForAdjudication''"
| "disposition_to_str Contested = ''Contested''"
| "disposition_to_str PendingConflict = ''PendingConflict''"
| "disposition_to_str PendingReview = ''PendingReview''"
| "disposition_to_str PendingLowConfidence = ''PendingLowConfidence''"
| "disposition_to_str Quarantined = ''Quarantined''"
| "disposition_to_str Superseded = ''Superseded''"
| "disposition_to_str Invalidated = ''Invalidated''"
| "disposition_to_str Reinstated = ''Reinstated''"
| "disposition_to_str Rejected = ''Rejected''"

definition str_to_disposition :: "string \<Rightarrow> (sqlite_store_error, disposition) res" where
  "str_to_disposition s =
     (if s = ''CommittedCheap'' then Inr CommittedCheap
      else if s = ''CommittedInferred'' then Inr CommittedInferred
      else if s = ''QueuedForAdjudication'' then Inr QueuedForAdjudication
      else if s = ''Contested'' then Inr Contested
      else if s = ''PendingConflict'' then Inr PendingConflict
      else if s = ''PendingReview'' then Inr PendingReview
      else if s = ''PendingLowConfidence'' then Inr PendingLowConfidence
      else if s = ''Quarantined'' then Inr Quarantined
      else if s = ''Superseded'' then Inr Superseded
      else if s = ''Invalidated'' then Inr Invalidated
      else if s = ''Reinstated'' then Inr Reinstated
      else if s = ''Rejected'' then Inr Rejected
      else Inl (Mapping [Lit (''unknown disposition value: '' @ s)]))"

lemma str_to_provenance_to_str [simp]: "str_to_provenance (provenance_to_str p) = Inr p"
  by (cases p rule: provenance_to_str.cases) (simp_all add: str_to_provenance_def)

lemma str_to_cardinality_to_str [simp]: "str_to_cardinality (cardinality_to_str c) = Inr c"
  by (cases c) (simp_all add: str_to_cardinality_def)

lemma str_to_criticality_to_str [simp]: "str_to_criticality (criticality_to_str c) = Inr c"
  by (cases c) (simp_all add: str_to_criticality_def)

lemma str_to_edge_kind_to_str [simp]: "str_to_edge_kind (edge_kind_to_str k) = Inr k"
  by (cases k) (simp_all add: str_to_edge_kind_def)

lemma str_to_ledger_event_kind_to_str [simp]:
  "str_to_ledger_event_kind (ledger_event_kind_to_str k) = Inr k"
  by (cases k) (simp_all add: str_to_ledger_event_kind_def)

lemma str_to_disposition_to_str [simp]: "str_to_disposition (disposition_to_str d) = Inr d"
  by (cases d) (simp_all add: str_to_disposition_def)

section \<open>Rows\<close>

record claim_row =
  rc_claim_id :: uuid
  rc_agent_id :: string
  rc_subject :: string
  rc_predicate :: string
  rc_value :: json
  rc_cardinality :: string
  rc_provenance_label :: string
  rc_nearest_external_anchor_id :: "uuid option"
  rc_derivation_depth :: int
  rc_tx_time :: instant
  rc_valid_time_start :: "instant option"
  rc_valid_time_end :: "instant option"
  rc_valid_time_confidence :: f32
  rc_value_confidence :: f32
  rc_criticality :: string
  rc_derived_from :: "uuid list"
  rc_metadata :: "json option"
  rc_snapshot_schema_version :: "int option"
  rc_valid_time_start_granularity :: "string option"
  rc_valid_time_end_granularity :: "string option"

definition claim_to_row :: "claim \<Rightarrow> claim_row" where
  "claim_to_row c = \<lparr>
     rc_claim_id = cl_ref c,
     rc_agent_id = cl_agent_id c,
     rc_subject = fa_subject (cl_fact c),
     rc_predicate = fa_predicate (cl_fact c),
     rc_value = fa_value (cl_fact c),
     rc_cardinality = cardinality_to_str (cl_cardinality c),
     rc_provenance_label = provenance_to_str (cl_provenance c),
     rc_nearest_external_anchor_id = ea_nearest_external_anchor (cl_external_anchor c),
     rc_derivation_depth = uint (ea_derivation_depth (cl_external_anchor c)),
     rc_tx_time = cl_transaction_time c,
     rc_valid_time_start = vt_start (cl_valid_time c),
     rc_valid_time_end = vt_end (cl_valid_time c),
     rc_valid_time_confidence = vt_confidence (cl_valid_time c),
     rc_value_confidence = cf_value_confidence (cl_confidence c),
     rc_criticality = criticality_to_str (cl_criticality c),
     rc_derived_from = cl_derived_from c,
     rc_metadata = cl_metadata c,
     rc_snapshot_schema_version = map_option uint (cl_snapshot_schema_version c),
     rc_valid_time_start_granularity = map_option date_granularity_to_str (vt_start_granularity (cl_valid_time c)),
     rc_valid_time_end_granularity = map_option date_granularity_to_str (vt_end_granularity (cl_valid_time c))\<rparr>"

definition claim_of_row :: "cardinality \<Rightarrow> provenance_label \<Rightarrow> criticality \<Rightarrow> claim_row \<Rightarrow> claim" where
  "claim_of_row cardinality provenance criticality r = \<lparr>
     cl_ref = rc_claim_id r,
     cl_agent_id = rc_agent_id r,
     cl_fact = \<lparr>fa_subject = rc_subject r, fa_predicate = rc_predicate r, fa_value = rc_value r\<rparr>,
     cl_cardinality = cardinality,
     cl_provenance = provenance,
     cl_external_anchor = \<lparr>ea_nearest_external_anchor = rc_nearest_external_anchor_id r,
                           ea_derivation_depth = word_of_int (rc_derivation_depth r)\<rparr>,
     cl_transaction_time = rc_tx_time r,
     cl_valid_time = \<lparr>vt_start = rc_valid_time_start r, vt_end = rc_valid_time_end r,
       vt_confidence = rc_valid_time_confidence r,
       vt_start_granularity = Option.bind (rc_valid_time_start_granularity r) str_to_date_granularity,
       vt_end_granularity = Option.bind (rc_valid_time_end_granularity r) str_to_date_granularity\<rparr>,
     cl_confidence = \<lparr>cf_value_confidence = rc_value_confidence r,
                      cf_valid_time_confidence = rc_valid_time_confidence r\<rparr>,
     cl_criticality = criticality,
     cl_derived_from = rc_derived_from r,
     cl_metadata = rc_metadata r,
     cl_snapshot_schema_version = map_option word_of_int (rc_snapshot_schema_version r)\<rparr>"

definition row_to_claim :: "claim_row \<Rightarrow> (sqlite_store_error, claim) res" where
  "row_to_claim r =
     and_then (str_to_cardinality (rc_cardinality r)) (\<lambda>cardinality.
     and_then (str_to_provenance (rc_provenance_label r)) (\<lambda>provenance.
     and_then (str_to_criticality (rc_criticality r)) (\<lambda>criticality.
       Inr (claim_of_row cardinality provenance criticality r))))"

record assertion_row =
  rv_assertion_id :: uuid
  rv_agent_id :: string
  rv_target_claim_id :: uuid
  rv_assertion_kind :: string
  rv_bound_at :: "instant option"
  rv_bound_at_granularity :: "string option"
  rv_reopen_at :: "instant option"
  rv_provenance_label :: string
  rv_value_confidence :: f32
  rv_valid_time_confidence :: f32
  rv_asserted_at :: instant

definition assertion_to_row :: "validity_assertion \<Rightarrow> assertion_row" where
  "assertion_to_row a =
     (let (kind, bound_at, gran, reopen_at) =
        (case va_kind a of
           Bound b g \<Rightarrow> (''Bound'', Some b, map_option date_granularity_to_str g, None)
         | Reopen t \<Rightarrow> (''Reopen'', None, None, Some t))
      in \<lparr>rv_assertion_id = va_assertion_ref a, rv_agent_id = va_agent_id a,
          rv_target_claim_id = va_target_claim a, rv_assertion_kind = kind,
          rv_bound_at = bound_at, rv_bound_at_granularity = gran, rv_reopen_at = reopen_at,
          rv_provenance_label = provenance_to_str (va_provenance a),
          rv_value_confidence = cf_value_confidence (va_confidence a),
          rv_valid_time_confidence = cf_valid_time_confidence (va_confidence a),
          rv_asserted_at = va_asserted_at a\<rparr>)"

definition assertion_of_row :: "provenance_label \<Rightarrow> assertion_kind \<Rightarrow> assertion_row \<Rightarrow> validity_assertion" where
  "assertion_of_row provenance kind r =
     \<lparr>va_assertion_ref = rv_assertion_id r, va_agent_id = rv_agent_id r,
      va_target_claim = rv_target_claim_id r, va_kind = kind, va_provenance = provenance,
      va_confidence = \<lparr>cf_value_confidence = rv_value_confidence r,
                       cf_valid_time_confidence = rv_valid_time_confidence r\<rparr>,
      va_asserted_at = rv_asserted_at r\<rparr>"

definition row_to_assertion_kind :: "assertion_row \<Rightarrow> (sqlite_store_error, assertion_kind) res" where
  "row_to_assertion_kind r =
     (if rv_assertion_kind r = ''Bound''
      then and_then (ok_or (Mapping [Lit ''bound_at is NULL for Bound assertion'']) (rv_bound_at r)) (\<lambda>b.
             Inr (Bound b (Option.bind (rv_bound_at_granularity r) str_to_date_granularity)))
      else if rv_assertion_kind r = ''Reopen''
      then and_then (ok_or (Mapping [Lit ''reopen_at is NULL for Reopen assertion'']) (rv_reopen_at r)) (\<lambda>t.
             Inr (Reopen t))
      else Inl (Mapping [Lit (''unknown assertion_kind: '' @ rv_assertion_kind r)]))"

definition row_to_assertion :: "assertion_row \<Rightarrow> (sqlite_store_error, validity_assertion) res" where
  "row_to_assertion r =
     and_then (str_to_provenance (rv_provenance_label r)) (\<lambda>provenance.
     and_then (row_to_assertion_kind r) (\<lambda>kind. Inr (assertion_of_row provenance kind r)))"

record ledger_row =
  rl_entry_id :: uuid
  rl_agent_id :: string
  rl_claim_id :: uuid
  rl_event_kind :: string
  rl_disposition :: string
  rl_rationale :: "json option"
  rl_recorded_at :: instant

definition ledger_to_row :: "ledger_entry \<Rightarrow> ledger_row" where
  "ledger_to_row e = \<lparr>rl_entry_id = le_entry_id e, rl_agent_id = le_agent_id e, rl_claim_id = le_claim_ref e,
     rl_event_kind = ledger_event_kind_to_str (le_event_kind e),
     rl_disposition = disposition_to_str (le_disposition e), rl_rationale = le_rationale e,
     rl_recorded_at = le_recorded_at e\<rparr>"

definition ledger_of_row :: "ledger_event_kind \<Rightarrow> disposition \<Rightarrow> ledger_row \<Rightarrow> ledger_entry" where
  "ledger_of_row k d r = \<lparr>le_entry_id = rl_entry_id r, le_agent_id = rl_agent_id r,
     le_claim_ref = rl_claim_id r, le_event_kind = k, le_disposition = d,
     le_rationale = rl_rationale r, le_recorded_at = rl_recorded_at r\<rparr>"

definition row_to_ledger :: "ledger_row \<Rightarrow> (sqlite_store_error, ledger_entry) res" where
  "row_to_ledger r =
     and_then (str_to_ledger_event_kind (rl_event_kind r)) (\<lambda>k.
     and_then (str_to_disposition (rl_disposition r)) (\<lambda>d. Inr (ledger_of_row k d r)))"

record edge_row =
  re_edge_id :: uuid
  re_agent_id :: string
  re_from_claim_id :: uuid
  re_to_claim_id :: uuid
  re_edge_kind :: string
  re_created_at :: instant

definition edge_to_row :: "claim_edge \<Rightarrow> edge_row" where
  "edge_to_row e = \<lparr>re_edge_id = ed_edge_id e, re_agent_id = ed_agent_id e,
     re_from_claim_id = ed_from_claim e, re_to_claim_id = ed_to_claim e,
     re_edge_kind = edge_kind_to_str (ed_kind e), re_created_at = ed_created_at e\<rparr>"

definition edge_of_row :: "edge_kind \<Rightarrow> edge_row \<Rightarrow> claim_edge" where
  "edge_of_row k r = \<lparr>ed_edge_id = re_edge_id r, ed_agent_id = re_agent_id r,
     ed_from_claim = re_from_claim_id r, ed_to_claim = re_to_claim_id r, ed_kind = k,
     ed_created_at = re_created_at r\<rparr>"

definition row_to_edge :: "edge_row \<Rightarrow> (sqlite_store_error, claim_edge) res" where
  "row_to_edge r = and_then (str_to_edge_kind (re_edge_kind r)) (\<lambda>k. Inr (edge_of_row k r))"

text \<open>The payload of a pending row is its JSON text. \<^verbatim>\<open>serde_json\<close> writes a non-finite float as
  \<^verbatim>\<open>null\<close>, which does not read back as a float.\<close>

fun f32_finite :: "f32 \<Rightarrow> bool" where
  "f32_finite (F32 _) = True"
| "f32_finite _ = False"

definition confidence_finite :: "confidence \<Rightarrow> bool" where
  "confidence_finite c = (f32_finite (cf_value_confidence c) \<and> f32_finite (cf_valid_time_confidence c))"

definition payload_readable :: "adjudication_request \<Rightarrow> bool" where
  "payload_readable q =
     (confidence_finite (be_confidence (ar_incumbent q))
      \<and> f32_finite (vt_confidence (be_valid_time (ar_incumbent q)))
      \<and> confidence_finite (cl_confidence (ar_challenger q))
      \<and> f32_finite (vt_confidence (cl_valid_time (ar_challenger q))))"

definition row_to_pending :: "pending_row \<Rightarrow> (sqlite_store_error, pending_row) res" where
  "row_to_pending r =
     (if payload_readable (pa_request r) then Inr r
      else Inl (Mapping [Lit ''request_payload JSON: invalid type: null, expected f32'']))"

section \<open>Round trips\<close>

lemma bind_map_granularity [simp]:
  "Option.bind (map_option date_granularity_to_str g) str_to_date_granularity = g"
  by (cases g) simp_all

lemma map_option_word_of_int_uint [simp]: "map_option word_of_int (map_option uint x) = (x :: 'a::len word option)"
  by (cases x) simp_all

lemma row_to_claim_to_row: "row_to_claim (claim_to_row c) = Inr (stored_claim c)"
proof -
  have "claim_of_row (cl_cardinality c) (cl_provenance c) (cl_criticality c) (claim_to_row c) = stored_claim c"
    by (simp add: claim_of_row_def claim_to_row_def stored_claim_def)
  then show ?thesis by (simp add: row_to_claim_def) (simp add: claim_to_row_def)
qed

lemma row_to_assertion_to_row: "row_to_assertion (assertion_to_row a) = Inr a"
  by (cases "va_kind a")
    (simp_all add: row_to_assertion_def row_to_assertion_kind_def assertion_to_row_def assertion_of_row_def)

lemma row_to_ledger_to_row: "row_to_ledger (ledger_to_row e) = Inr e"
  by (simp add: row_to_ledger_def ledger_to_row_def ledger_of_row_def)

lemma row_to_edge_to_row: "row_to_edge (edge_to_row e) = Inr e"
  by (simp add: row_to_edge_def edge_to_row_def edge_of_row_def)

end
