(* ===== verification/Sqlite_Store.thy ===== *)
theory Sqlite_Store
  imports Sqlite_Codecs Txn_Effects
begin

text \<open>The SQLite adapter: \<^verbatim>\<open>SqliteTxn\<close> (\<^verbatim>\<open>txn.rs\<close>), the \<^verbatim>\<open>PersistencePort\<close> and the
  \<^verbatim>\<open>PendingAdjudicationPort\<close> of \<^verbatim>\<open>store.rs\<close> over the tables of \<^verbatim>\<open>schema/\<close>, and the interpretation of
  the interfaces on it.

  The world is the committed file, whether the connection is in its slot, and an arbitrary schedule
  of failures: each statement that writes takes the head of \<^verbatim>\<open>sw_faults\<close> (an exhausted schedule
  means no failure), and \<^verbatim>\<open>sw_read_fails\<close> says which reads fail. \<^verbatim>\<open>begin_atomic\<close> moves the
  connection, and the schedule with it, into the transaction. A \<^verbatim>\<open>BEGIN\<close>, \<^verbatim>\<open>COMMIT\<close> or
  \<^verbatim>\<open>ROLLBACK\<close> that fails drops the connection: the slot stays empty, as in the code.

  SQL without a total \<^verbatim>\<open>ORDER BY\<close> is taken to return ties in insertion order.\<close>

section \<open>Tables and constraints\<close>

record sql_db =
  q_claims :: "claim_row list"
  q_assertions :: "assertion_row list"
  q_ledger :: "ledger_row list"
  q_edges :: "edge_row list"
  q_pending :: "pending_row list"

definition empty_sql_db :: sql_db where
  "empty_sql_db = \<lparr>q_claims = [], q_assertions = [], q_ledger = [], q_edges = [], q_pending = []\<rparr>"

definition claim_exists :: "sql_db \<Rightarrow> uuid \<Rightarrow> bool" where
  "claim_exists q r = list_ex (\<lambda>c. rc_claim_id c = r) (q_claims q)"

text \<open>A NaN binds as NULL, which \<^verbatim>\<open>REAL NOT NULL\<close> refuses; the other conditions are the keys and
  references the schema declares (\<^verbatim>\<open>foreign_keys = ON\<close>).\<close>

definition claim_constraints :: "sql_db \<Rightarrow> claim_row \<Rightarrow> bool" where
  "claim_constraints q r =
     (\<not> claim_exists q (rc_claim_id r) \<and> rc_valid_time_confidence r \<noteq> F32_nan
      \<and> rc_value_confidence r \<noteq> F32_nan)"

definition assertion_constraints :: "sql_db \<Rightarrow> assertion_row \<Rightarrow> bool" where
  "assertion_constraints q r =
     (\<not> list_ex (\<lambda>x. rv_assertion_id x = rv_assertion_id r) (q_assertions q)
      \<and> claim_exists q (rv_target_claim_id r)
      \<and> rv_value_confidence r \<noteq> F32_nan \<and> rv_valid_time_confidence r \<noteq> F32_nan)"

definition ledger_constraints :: "sql_db \<Rightarrow> ledger_row \<Rightarrow> bool" where
  "ledger_constraints q r =
     (\<not> list_ex (\<lambda>x. rl_entry_id x = rl_entry_id r) (q_ledger q) \<and> claim_exists q (rl_claim_id r))"

definition edge_constraints :: "sql_db \<Rightarrow> edge_row \<Rightarrow> bool" where
  "edge_constraints q r =
     (\<not> list_ex (\<lambda>x. re_edge_id x = re_edge_id r) (q_edges q)
      \<and> claim_exists q (re_from_claim_id r) \<and> claim_exists q (re_to_claim_id r)
      \<and> \<not> list_ex (\<lambda>x. re_agent_id x = re_agent_id r \<and> re_from_claim_id x = re_from_claim_id r
                       \<and> re_to_claim_id x = re_to_claim_id r \<and> re_edge_kind x = re_edge_kind r) (q_edges q))"

section \<open>Connection and transaction\<close>

datatype read_op =
    RdLine agent_id string string
  | RdClaim claim_ref
  | RdAssertions claim_ref
  | RdLedger
  | RdLedgerFor "claim_ref list"
  | RdEdges claim_ref
  | RdInjected
  | RdLineage claim_ref
  | RdPredicates string
  | RdPending uuid
  | RdListPending
  | RdListExpired
  | RdOrphans

record sqlite_world =
  sw_db :: sql_db
  sw_conn :: bool
  sw_faults :: "bool list"
  sw_read_fails :: "read_op \<Rightarrow> bool"

record sqlite_txn =
  st_agent_id :: agent_id
  st_db :: sql_db
  st_faults :: "bool list"

definition next_fault :: "bool list \<Rightarrow> bool" where
  "next_fault fs = (case fs of [] \<Rightarrow> False | b # _ \<Rightarrow> b)"

definition begin_atomic :: "agent_id \<Rightarrow> sqlite_world \<Rightarrow> (sqlite_store_error, sqlite_txn) res \<times> sqlite_world" where
  "begin_atomic a w =
     (if \<not> sw_conn w then (Inl TxnAlreadyOpen, w)
      else if next_fault (sw_faults w)
      then (Inl (Sqlite OtherFailure), w\<lparr>sw_conn := False, sw_faults := tl (sw_faults w)\<rparr>)
      else (Inr \<lparr>st_agent_id = a, st_db = sw_db w, st_faults = tl (sw_faults w)\<rparr>, w\<lparr>sw_conn := False\<rparr>))"

definition commit_txn :: "sqlite_txn \<Rightarrow> sqlite_world \<Rightarrow> (sqlite_store_error, unit) res \<times> sqlite_world" where
  "commit_txn t w =
     (if next_fault (st_faults t)
      then (Inl (Sqlite DatabaseBusy), w\<lparr>sw_faults := tl (st_faults t)\<rparr>)
      else (Inr (), w\<lparr>sw_db := st_db t, sw_conn := True, sw_faults := tl (st_faults t)\<rparr>))"

definition rollback_txn :: "sqlite_txn \<Rightarrow> sqlite_world \<Rightarrow> (sqlite_store_error, unit) res \<times> sqlite_world" where
  "rollback_txn t w =
     (if next_fault (st_faults t)
      then (Inl (Sqlite OtherFailure), w\<lparr>sw_faults := tl (st_faults t)\<rparr>)
      else (Inr (), w\<lparr>sw_conn := True, sw_faults := tl (st_faults t)\<rparr>))"

text \<open>One \<^verbatim>\<open>INSERT\<close> on the connection of the transaction.\<close>

definition execute_insert ::
    "(sql_db \<Rightarrow> bool) \<Rightarrow> (sql_db \<Rightarrow> sql_db) \<Rightarrow> (sqlite_txn, sqlite_store_error, unit) tx_step" where
  "execute_insert constraints change t =
     (if next_fault (st_faults t) then (Inl (Sqlite OtherFailure), t\<lparr>st_faults := tl (st_faults t)\<rparr>)
      else if \<not> constraints (st_db t)
      then (Inl (Sqlite ConstraintViolation), t\<lparr>st_faults := tl (st_faults t)\<rparr>)
      else (Inr (), t\<lparr>st_db := change (st_db t), st_faults := tl (st_faults t)\<rparr>))"

section \<open>Appends\<close>

definition append_claim :: "claim \<Rightarrow> (sqlite_txn, sqlite_store_error, claim_ref) tx_step" where
  "append_claim c =
     (let row = claim_to_row c in
      tx_bind (execute_insert (\<lambda>q. claim_constraints q row)
                 (\<lambda>q. q\<lparr>q_claims := q_claims q @ [row]\<rparr>))
        (\<lambda>_. tx_return (cl_ref c)))"

definition append_validity_assertion :: "validity_assertion \<Rightarrow> (sqlite_txn, sqlite_store_error, unit) tx_step" where
  "append_validity_assertion a =
     (let row = assertion_to_row a in
      execute_insert (\<lambda>q. assertion_constraints q row) (\<lambda>q. q\<lparr>q_assertions := q_assertions q @ [row]\<rparr>))"

definition append_ledger_entry :: "ledger_entry \<Rightarrow> (sqlite_txn, sqlite_store_error, unit) tx_step" where
  "append_ledger_entry e =
     (let row = ledger_to_row e in
      execute_insert (\<lambda>q. ledger_constraints q row) (\<lambda>q. q\<lparr>q_ledger := q_ledger q @ [row]\<rparr>))"

definition append_claim_edge :: "claim_edge \<Rightarrow> (sqlite_txn, sqlite_store_error, unit) tx_step" where
  "append_claim_edge e =
     (let row = edge_to_row e in
      execute_insert (\<lambda>q. edge_constraints q row) (\<lambda>q. q\<lparr>q_edges := q_edges q @ [row]\<rparr>))"

section \<open>Reads\<close>

text \<open>Every read locks the slot; an absent connection is reported as an open transaction.\<close>

definition with_conn :: "sqlite_world \<Rightarrow> read_op \<Rightarrow> (sql_db \<Rightarrow> (sqlite_store_error, 'a) res) \<Rightarrow> (sqlite_store_error, 'a) res" where
  "with_conn w op f =
     (if \<not> sw_conn w then Inl TxnAlreadyOpen
      else if sw_read_fails w op then Inl (Sqlite OtherFailure)
      else f (sw_db w))"

definition load_subject_line ::
    "sqlite_world \<Rightarrow> agent_id \<Rightarrow> string \<Rightarrow> string \<Rightarrow> instant option \<Rightarrow> (sqlite_store_error, claim list) res" where
  "load_subject_line w a s p as_of =
     with_conn w (RdLine a s p) (\<lambda>q.
       collect_res row_to_claim
         (sort_key rc_tx_time
           (filter (\<lambda>r. rc_agent_id r = a \<and> rc_subject r = s \<and> rc_predicate r = p
                        \<and> (case as_of of Some T \<Rightarrow> rc_tx_time r \<le> T | None \<Rightarrow> True)) (q_claims q))))"

definition load_claim :: "sqlite_world \<Rightarrow> agent_id \<Rightarrow> claim_ref \<Rightarrow> (sqlite_store_error, claim option) res" where
  "load_claim w a ref =
     with_conn w (RdClaim ref) (\<lambda>q.
       case find (\<lambda>r. rc_agent_id r = a \<and> rc_claim_id r = ref) (q_claims q) of
         None \<Rightarrow> Inr None
       | Some r \<Rightarrow> and_then (row_to_claim r) (\<lambda>c. Inr (Some c)))"

definition load_validity_assertions_for ::
    "sqlite_world \<Rightarrow> agent_id \<Rightarrow> claim_ref \<Rightarrow> (sqlite_store_error, validity_assertion list) res" where
  "load_validity_assertions_for w a ref =
     with_conn w (RdAssertions ref) (\<lambda>q.
       collect_res row_to_assertion
         (sort_key rv_asserted_at
           (filter (\<lambda>r. rv_agent_id r = a \<and> rv_target_claim_id r = ref) (q_assertions q))))"

definition load_ledger ::
    "sqlite_world \<Rightarrow> agent_id \<Rightarrow> transaction_time option \<Rightarrow> nat \<Rightarrow> (sqlite_store_error, ledger_entry list) res" where
  "load_ledger w a from_t limit =
     with_conn w RdLedger (\<lambda>q.
       collect_res row_to_ledger
         (take limit
           (sort_key rl_recorded_at
             (filter (\<lambda>r. rl_agent_id r = a
                          \<and> (case from_t of Some f \<Rightarrow> rl_recorded_at r \<ge> f | None \<Rightarrow> True)) (q_ledger q)))))"

text \<open>\<^verbatim>\<open>slice::chunks\<close> and the constant \<^verbatim>\<open>CHUNK\<close>.\<close>

function chunks :: "nat \<Rightarrow> 'a list \<Rightarrow> 'a list list" where
  "chunks n xs = (if xs = [] \<or> n = 0 then [] else take n xs # chunks n (drop n xs))"
  by pat_completeness auto
termination by (relation "measure (\<lambda>(n, xs). length xs)") auto

declare chunks.simps [simp del]

definition ledger_chunk_rows :: "sql_db \<Rightarrow> agent_id \<Rightarrow> instant option \<Rightarrow> claim_ref list \<Rightarrow> ledger_row list" where
  "ledger_chunk_rows q a as_of chunk =
     sort_key rl_recorded_at
       (filter (\<lambda>r. rl_agent_id r = a \<and> rl_claim_id r \<in> set chunk
                    \<and> (case as_of of Some T \<Rightarrow> rl_recorded_at r \<le> T | None \<Rightarrow> True)) (q_ledger q))"

definition load_ledger_for_claims ::
    "sqlite_world \<Rightarrow> agent_id \<Rightarrow> claim_ref list \<Rightarrow> instant option \<Rightarrow> (sqlite_store_error, ledger_entry list) res" where
  "load_ledger_for_claims w a refs as_of =
     (if refs = [] then Inr []
      else with_conn w (RdLedgerFor refs) (\<lambda>q.
        collect_res row_to_ledger (concat (map (ledger_chunk_rows q a as_of) (chunks 900 refs)))))"

definition load_edges_for :: "sqlite_world \<Rightarrow> agent_id \<Rightarrow> claim_ref \<Rightarrow> (sqlite_store_error, claim_edge list) res" where
  "load_edges_for w a ref =
     with_conn w (RdEdges ref) (\<lambda>q.
       collect_res row_to_edge
         (sort_key re_created_at
           (filter (\<lambda>r. re_agent_id r = a \<and> (re_from_claim_id r = ref \<or> re_to_claim_id r = ref)) (q_edges q))))"

fun min_time :: "instant list \<Rightarrow> instant" where
  "min_time [] = 0"
| "min_time (t # ts) = (if ts = [] then t else min t (min_time ts))"

definition load_injected_claims :: "sqlite_world \<Rightarrow> agent_id \<Rightarrow> (sqlite_store_error, claim_ref list) res" where
  "load_injected_claims w a =
     with_conn w RdInjected (\<lambda>q.
       let rows = filter (\<lambda>r. rl_agent_id r = a \<and> rl_event_kind r = ''ServedAsInjected'') (q_ledger q);
           first_seen = (\<lambda>ref. min_time (map rl_recorded_at (filter (\<lambda>r. rl_claim_id r = ref) rows)))
       in Inr (sort_key first_seen (remdups (map rl_claim_id rows))))"

text \<open>The recursive query of \<^verbatim>\<open>load_lineage\<close>: level \<^verbatim>\<open>k + 1\<close> joins every edge that leaves the end of
  an edge of level \<^verbatim>\<open>k\<close> (\<^verbatim>\<open>UNION ALL\<close> keeps duplicates), down to depth 64.\<close>

fun lineage_levels :: "nat \<Rightarrow> edge_row list \<Rightarrow> edge_row list \<Rightarrow> edge_row list list" where
  "lineage_levels 0 edges level = []"
| "lineage_levels (Suc n) edges level =
     (if level = [] then []
      else level # lineage_levels n edges
             (concat (map (\<lambda>l. filter (\<lambda>e. re_from_claim_id e = re_to_claim_id l) edges) level)))"

definition load_lineage :: "sqlite_world \<Rightarrow> agent_id \<Rightarrow> claim_ref \<Rightarrow> (sqlite_store_error, claim_edge list) res" where
  "load_lineage w a ref =
     with_conn w (RdLineage ref) (\<lambda>q.
       let derived = filter (\<lambda>e. re_agent_id e = a \<and> re_edge_kind e = ''DerivedFrom'') (q_edges q)
       in collect_res row_to_edge
            (concat (map (sort_key re_created_at)
              (lineage_levels 64 derived (filter (\<lambda>e. re_from_claim_id e = ref) derived)))))"

definition list_predicates_for_subject ::
    "sqlite_world \<Rightarrow> agent_id \<Rightarrow> string \<Rightarrow> instant option \<Rightarrow> (sqlite_store_error, string list) res" where
  "list_predicates_for_subject w a s as_of =
     with_conn w (RdPredicates s) (\<lambda>q.
       Inr (remdups (map rc_predicate
         (filter (\<lambda>r. rc_agent_id r = a \<and> rc_subject r = s
                      \<and> (case as_of of Some T \<Rightarrow> rc_tx_time r \<le> T | None \<Rightarrow> True)) (q_claims q)))))"

definition sqlite_port :: "(sqlite_world, sqlite_txn, sqlite_store_error) persistence_port" where
  "sqlite_port = \<lparr>
     pp_begin_atomic = begin_atomic,
     pp_append_claim = append_claim,
     pp_append_validity_assertion = append_validity_assertion,
     pp_append_ledger_entry = append_ledger_entry,
     pp_append_claim_edge = append_claim_edge,
     pp_commit = commit_txn,
     pp_rollback = rollback_txn,
     pp_load_subject_line = load_subject_line,
     pp_load_claim = load_claim,
     pp_load_validity_assertions_for = load_validity_assertions_for,
     pp_load_ledger = load_ledger,
     pp_load_ledger_for_claims = load_ledger_for_claims,
     pp_load_edges_for = load_edges_for,
     pp_load_injected_claims = load_injected_claims,
     pp_load_lineage = load_lineage,
     pp_list_predicates_for_subject = list_predicates_for_subject,
     pp_requires_global_write_serialization = True\<rparr>"

section \<open>The pending queue\<close>

text \<open>The queue writes directly on the connection, outside any transaction.\<close>

definition execute_direct ::
    "(sql_db \<Rightarrow> bool) \<Rightarrow> (sql_db \<Rightarrow> sql_db) \<Rightarrow> sqlite_world \<Rightarrow> (sqlite_store_error, unit) res \<times> sqlite_world" where
  "execute_direct constraints change w =
     (if \<not> sw_conn w then (Inl TxnAlreadyOpen, w)
      else if next_fault (sw_faults w) then (Inl (Sqlite OtherFailure), w\<lparr>sw_faults := tl (sw_faults w)\<rparr>)
      else if \<not> constraints (sw_db w)
      then (Inl (Sqlite ConstraintViolation), w\<lparr>sw_faults := tl (sw_faults w)\<rparr>)
      else (Inr (), w\<lparr>sw_db := change (sw_db w), sw_faults := tl (sw_faults w)\<rparr>))"

definition insert_pending :: "pending_row \<Rightarrow> sqlite_world \<Rightarrow> (sqlite_store_error, unit) res \<times> sqlite_world" where
  "insert_pending row =
     execute_direct (\<lambda>q. \<not> list_ex (\<lambda>r. pa_handle_id r = pa_handle_id row) (q_pending q))
       (\<lambda>q. q\<lparr>q_pending := q_pending q @ [row]\<rparr>)"

definition update_status :: "string \<Rightarrow> uuid \<Rightarrow> sql_db \<Rightarrow> sql_db" where
  "update_status s h q =
     q\<lparr>q_pending := map (\<lambda>r. if pa_handle_id r = h then r\<lparr>pa_status := s\<rparr> else r) (q_pending q)\<rparr>"

definition mark_resolved :: "uuid \<Rightarrow> sqlite_world \<Rightarrow> (sqlite_store_error, unit) res \<times> sqlite_world" where
  "mark_resolved h = execute_direct (\<lambda>_. True) (update_status ''resolved'' h)"

definition mark_expired :: "uuid \<Rightarrow> sqlite_world \<Rightarrow> (sqlite_store_error, unit) res \<times> sqlite_world" where
  "mark_expired h = execute_direct (\<lambda>_. True) (update_status ''expired'' h)"

definition get_pending :: "sqlite_world \<Rightarrow> uuid \<Rightarrow> (sqlite_store_error, pending_row option) res" where
  "get_pending w h =
     with_conn w (RdPending h) (\<lambda>q.
       case find (\<lambda>r. pa_handle_id r = h) (q_pending q) of
         None \<Rightarrow> Inr None
       | Some r \<Rightarrow> and_then (row_to_pending r) (\<lambda>x. Inr (Some x)))"

definition list_pending :: "sqlite_world \<Rightarrow> agent_id option \<Rightarrow> (sqlite_store_error, pending_row list) res" where
  "list_pending w a =
     with_conn w RdListPending (\<lambda>q.
       collect_res row_to_pending
         (sort_key pa_queued_at
           (filter (\<lambda>r. (case a of Some x \<Rightarrow> pa_agent_id r = x | None \<Rightarrow> True)
                        \<and> pa_status r = ''pending'') (q_pending q))))"

definition list_expired :: "sqlite_world \<Rightarrow> instant \<Rightarrow> (sqlite_store_error, pending_row list) res" where
  "list_expired w now =
     with_conn w RdListExpired (\<lambda>q.
       collect_res row_to_pending
         (sort_key (\<lambda>r. case pa_expires_at r of Some t \<Rightarrow> t | None \<Rightarrow> 0)
           (filter (\<lambda>r. (case pa_expires_at r of Some t \<Rightarrow> t \<le> now | None \<Rightarrow> False)
                        \<and> pa_status r = ''pending'') (q_pending q))))"

text \<open>An entry is the latest of its claim when its time is the maximum over the claim's entries.\<close>

definition is_latest_entry :: "sql_db \<Rightarrow> ledger_row \<Rightarrow> bool" where
  "is_latest_entry q l =
     list_all (\<lambda>l2. rl_claim_id l2 = rl_claim_id l \<and> rl_agent_id l2 = rl_agent_id l
                    \<longrightarrow> rl_recorded_at l2 \<le> rl_recorded_at l) (q_ledger q)"

definition claim_row_of :: "sql_db \<Rightarrow> agent_id \<Rightarrow> uuid \<Rightarrow> claim_row option" where
  "claim_row_of q a ref = find (\<lambda>c. rc_claim_id c = ref \<and> rc_agent_id c = a) (q_claims q)"

definition find_committed_cheap_claim :: "sql_db \<Rightarrow> agent_id \<Rightarrow> string \<Rightarrow> string \<Rightarrow> claim_ref option" where
  "find_committed_cheap_claim q a s p =
     (let rows = filter (\<lambda>l. rl_agent_id l = a \<and> rl_disposition l = ''CommittedCheap''
                          \<and> (case claim_row_of q a (rl_claim_id l) of
                               Some c \<Rightarrow> rc_subject c = s \<and> rc_predicate c = p | None \<Rightarrow> False)
                          \<and> is_latest_entry q l) (q_ledger q)
      in case sort_key (\<lambda>l. - rl_recorded_at l) rows of [] \<Rightarrow> None | l # _ \<Rightarrow> Some (rl_claim_id l))"

definition orphan_rows :: "sql_db \<Rightarrow> (ledger_row \<times> claim_row) list" where
  "orphan_rows q =
     concat (map (\<lambda>l. case claim_row_of q (rl_agent_id l) (rl_claim_id l) of
                        None \<Rightarrow> [] | Some c \<Rightarrow> [(l, c)])
       (filter (\<lambda>l. rl_disposition l = ''QueuedForAdjudication'' \<and> is_latest_entry q l
                    \<and> \<not> list_ex (\<lambda>pa. pa_challenger pa = rl_claim_id l \<and> pa_agent_id pa = rl_agent_id l
                                      \<and> pa_status pa = ''pending'') (q_pending q)) (q_ledger q)))"

definition list_queued_orphan_claims :: "sqlite_world \<Rightarrow> (sqlite_store_error, orphan list) res" where
  "list_queued_orphan_claims w =
     with_conn w RdOrphans (\<lambda>q.
       Inr (map (\<lambda>(l, c). \<lparr>or_agent_id = rl_agent_id l, or_challenger = rl_claim_id l,
                 or_incumbent = find_committed_cheap_claim q (rl_agent_id l) (rc_subject c) (rc_predicate c),
                 or_subject = rc_subject c, or_predicate = rc_predicate c\<rparr>) (orphan_rows q)))"

definition sqlite_queue :: "(sqlite_world, sqlite_store_error) pending_port" where
  "sqlite_queue = \<lparr>pq_insert_pending = insert_pending, pq_get_pending = get_pending,
     pq_list_pending = list_pending, pq_list_expired = list_expired,
     pq_mark_resolved = mark_resolved, pq_mark_expired = mark_expired,
     pq_list_queued_orphan_claims = list_queued_orphan_claims\<rparr>"

section \<open>The logical content of the file\<close>

text \<open>A row stands for the value it reads back as. A row that does not read back (written by
  something else) gets arbitrary values in the columns that do not decode; the reads below fail on
  it, so no result depends on them.\<close>

definition abs_claim :: "claim_row \<Rightarrow> claim" where
  "abs_claim r = claim_of_row (unwrap_or CardUnknown (str_to_cardinality (rc_cardinality r)))
     (unwrap_or ModelDerived (str_to_provenance (rc_provenance_label r)))
     (unwrap_or Low (str_to_criticality (rc_criticality r))) r"

definition abs_assertion :: "assertion_row \<Rightarrow> validity_assertion" where
  "abs_assertion r = assertion_of_row (unwrap_or ModelDerived (str_to_provenance (rv_provenance_label r)))
     (unwrap_or (Reopen 0) (row_to_assertion_kind r)) r"

definition abs_ledger :: "ledger_row \<Rightarrow> ledger_entry" where
  "abs_ledger r = ledger_of_row (unwrap_or ClaimCommitted (str_to_ledger_event_kind (rl_event_kind r)))
     (unwrap_or Rejected (str_to_disposition (rl_disposition r))) r"

definition abs_edge :: "edge_row \<Rightarrow> claim_edge" where
  "abs_edge r = edge_of_row (unwrap_or DependsOn (str_to_edge_kind (re_edge_kind r))) r"

definition abs_db :: "sql_db \<Rightarrow> db" where
  "abs_db q = \<lparr>db_claims = map abs_claim (q_claims q), db_assertions = map abs_assertion (q_assertions q),
     db_ledger = map abs_ledger (q_ledger q), db_edges = map abs_edge (q_edges q), db_pending = q_pending q\<rparr>"

definition sqlite_disk :: "sqlite_world \<Rightarrow> db" where
  "sqlite_disk w = abs_db (sw_db w)"

definition sqlite_work :: "sqlite_txn \<Rightarrow> db" where
  "sqlite_work t = abs_db (st_db t)"

lemma abs_claim_cols [simp]:
  "cl_ref (abs_claim r) = rc_claim_id r"
  "cl_agent_id (abs_claim r) = rc_agent_id r"
  "fa_subject (cl_fact (abs_claim r)) = rc_subject r"
  "fa_predicate (cl_fact (abs_claim r)) = rc_predicate r"
  "cl_transaction_time (abs_claim r) = rc_tx_time r"
  by (simp_all add: abs_claim_def claim_of_row_def)

lemma abs_assertion_cols [simp]:
  "va_assertion_ref (abs_assertion r) = rv_assertion_id r"
  "va_agent_id (abs_assertion r) = rv_agent_id r"
  "va_target_claim (abs_assertion r) = rv_target_claim_id r"
  "va_asserted_at (abs_assertion r) = rv_asserted_at r"
  by (simp_all add: abs_assertion_def assertion_of_row_def)

lemma abs_ledger_cols [simp]:
  "le_entry_id (abs_ledger r) = rl_entry_id r"
  "le_agent_id (abs_ledger r) = rl_agent_id r"
  "le_claim_ref (abs_ledger r) = rl_claim_id r"
  "le_recorded_at (abs_ledger r) = rl_recorded_at r"
  by (simp_all add: abs_ledger_def ledger_of_row_def)

lemma abs_edge_cols [simp]:
  "ed_agent_id (abs_edge r) = re_agent_id r"
  "ed_from_claim (abs_edge r) = re_from_claim_id r"
  "ed_to_claim (abs_edge r) = re_to_claim_id r"
  "ed_created_at (abs_edge r) = re_created_at r"
  by (simp_all add: abs_edge_def edge_of_row_def)

lemma row_to_claim_abs: "row_to_claim r = Inr c \<Longrightarrow> c = abs_claim r"
  by (auto simp: row_to_claim_def abs_claim_def and_then_Inr)

lemma row_to_assertion_abs: "row_to_assertion r = Inr a \<Longrightarrow> a = abs_assertion r"
  by (auto simp: row_to_assertion_def abs_assertion_def and_then_Inr)

lemma row_to_ledger_abs: "row_to_ledger r = Inr e \<Longrightarrow> e = abs_ledger r"
  by (auto simp: row_to_ledger_def abs_ledger_def and_then_Inr)

lemma row_to_edge_abs: "row_to_edge r = Inr e \<Longrightarrow> e = abs_edge r"
  by (auto simp: row_to_edge_def abs_edge_def and_then_Inr)

lemma row_to_pending_same: "row_to_pending r = Inr x \<Longrightarrow> x = r"
  by (simp add: row_to_pending_def split: if_splits)

lemma collect_res_abs:
  assumes "collect_res f xs = Inr ys" "\<And>x y. f x = Inr y \<Longrightarrow> y = g x"
  shows "ys = map g xs"
  using assms by (induction xs arbitrary: ys) (auto split: sum.splits)

lemma abs_claim_to_row [simp]: "abs_claim (claim_to_row c) = stored_claim c"
  using row_to_claim_abs[OF row_to_claim_to_row] by simp

lemma abs_assertion_to_row [simp]: "abs_assertion (assertion_to_row a) = a"
  using row_to_assertion_abs[OF row_to_assertion_to_row] by simp

lemma abs_ledger_to_row [simp]: "abs_ledger (ledger_to_row e) = e"
  using row_to_ledger_abs[OF row_to_ledger_to_row] by simp

lemma abs_edge_to_row [simp]: "abs_edge (edge_to_row e) = e"
  using row_to_edge_abs[OF row_to_edge_to_row] by simp

section \<open>Chunks\<close>

lemma concat_chunks: "0 < n \<Longrightarrow> concat (chunks n xs) = xs"
  by (induction n xs rule: chunks.induct) (subst chunks.simps, auto)

lemma chunks_bound: "c \<in> set (chunks n xs) \<Longrightarrow> length c \<le> n \<and> c \<noteq> []"
  by (induction n xs rule: chunks.induct) (subst (asm) chunks.simps, auto split: if_splits)

lemma filter_ref_concat_chunks:
  fixes row_of :: "claim_ref list \<Rightarrow> ledger_entry list"
  assumes "distinct (concat cs)" "r \<in> set (concat cs)"
    and "\<And>c. c \<in> set cs \<Longrightarrow> filter (\<lambda>e. le_claim_ref e = r) (row_of c) = (if r \<in> set c then X else [])"
  shows "filter (\<lambda>e. le_claim_ref e = r) (concat (map row_of cs)) = X"
  using assms
proof (induction cs)
  case (Cons c cs)
  have rest: "filter (\<lambda>e. le_claim_ref e = r) (concat (map row_of cs)) = []" if "r \<in> set c"
  proof -
    have "filter (\<lambda>e. le_claim_ref e = r) (row_of d) = []" if "d \<in> set cs" for d
      using Cons.prems(1,3) \<open>r \<in> set c\<close> that by auto
    then show ?thesis by (induction cs) auto
  qed
  show ?case
    using Cons rest by (cases "r \<in> set c") auto
qed simp

section \<open>The interfaces hold of the adapter\<close>

lemmas sqlite_port_ops = sqlite_port_def persistence_port.simps

lemma execute_insert_ok:
  "execute_insert cons ch t = (Inr u, t') \<Longrightarrow> st_db t' = ch (st_db t) \<and> cons (st_db t)"
  by (auto simp: execute_insert_def split: if_splits)

lemma execute_insert_err: "execute_insert cons ch t = (Inl e, t') \<Longrightarrow> st_db t' = st_db t"
  by (auto simp: execute_insert_def split: if_splits)

lemma append_claim_cases:
  "append_claim c t = (Inr r, t') \<Longrightarrow>
     r = cl_ref c \<and> sqlite_work t' = add_claim c (sqlite_work t)
     \<and> cl_ref c \<notin> cl_ref ` set (db_claims (sqlite_work t))"
  "append_claim c t = (Inl e, t') \<Longrightarrow> sqlite_work t' = sqlite_work t"
  unfolding append_claim_def Let_def
   apply (erule tx_bind_cases)
    apply simp
   apply (drule execute_insert_ok)
   apply (auto simp: sqlite_work_def abs_db_def add_claim_def claim_constraints_def claim_exists_def
      list_ex_iff claim_to_row_def[of c, THEN arg_cong[where f = rc_claim_id]])[1]
  apply (erule tx_bind_cases)
   apply (auto simp: sqlite_work_def dest: execute_insert_err)
  done

lemma append_assertion_cases:
  "append_validity_assertion a t = (Inr u, t') \<Longrightarrow>
     sqlite_work t' = add_assertion a (sqlite_work t)
     \<and> va_assertion_ref a \<notin> va_assertion_ref ` set (db_assertions (sqlite_work t))"
  "append_validity_assertion a t = (Inl e, t') \<Longrightarrow> sqlite_work t' = sqlite_work t"
proof -
  have key: "rv_assertion_id (assertion_to_row a) = va_assertion_ref a"
    using abs_assertion_cols(1)[of "assertion_to_row a"] by simp
  show "append_validity_assertion a t = (Inr u, t') \<Longrightarrow>
     sqlite_work t' = add_assertion a (sqlite_work t)
     \<and> va_assertion_ref a \<notin> va_assertion_ref ` set (db_assertions (sqlite_work t))"
    by (auto simp: append_validity_assertion_def Let_def sqlite_work_def abs_db_def add_assertion_def
        assertion_constraints_def list_ex_iff key dest!: execute_insert_ok)
  show "append_validity_assertion a t = (Inl e, t') \<Longrightarrow> sqlite_work t' = sqlite_work t"
    by (auto simp: append_validity_assertion_def Let_def sqlite_work_def dest!: execute_insert_err)
qed

lemma with_conn_Inr: "with_conn w op f = Inr x \<Longrightarrow> f (sw_db w) = Inr x"
  by (simp add: with_conn_def split: if_splits)

lemma cutoff_case: "(case as_of of Some T \<Rightarrow> t \<le> T | None \<Rightarrow> True) = cutoff as_of t"
  by (simp add: cutoff_def split: option.split)

lemma load_subject_line_spec:
  "load_subject_line w a s p as_of = Inr cs \<Longrightarrow> cs = line_of (sqlite_disk w) a s p as_of"
  unfolding load_subject_line_def
  by (drule with_conn_Inr, drule collect_res_abs[OF _ row_to_claim_abs])
    (simp_all add: line_of_def sqlite_disk_def abs_db_def sort_key_map_swap filter_map_swap cutoff_case)

lemma load_claim_spec: "load_claim w a r = Inr co \<Longrightarrow> co = claim_of (sqlite_disk w) a r"
  unfolding load_claim_def
  by (drule with_conn_Inr)
    (auto simp: claim_of_def sqlite_disk_def abs_db_def find_map_swap and_then_Inr
      split: option.splits dest: row_to_claim_abs)

lemma load_assertions_spec:
  "load_validity_assertions_for w a r = Inr vs \<Longrightarrow> vs = assertions_of (sqlite_disk w) a r"
  unfolding load_validity_assertions_for_def
  by (drule with_conn_Inr, drule collect_res_abs[OF _ row_to_assertion_abs])
    (simp_all add: assertions_of_def sqlite_disk_def abs_db_def sort_key_map_swap filter_map_swap)

lemma load_ledger_spec:
  "load_ledger w a from_t n = Inr es \<Longrightarrow> es = ledger_page (sqlite_disk w) a from_t n"
  unfolding load_ledger_def
  by (drule with_conn_Inr, drule collect_res_abs[OF _ row_to_ledger_abs])
    (simp_all add: ledger_page_def sqlite_disk_def abs_db_def sort_key_map_swap filter_map_swap take_map cong: option.case_cong)

lemma load_edges_spec: "load_edges_for w a r = Inr es \<Longrightarrow> es = edges_of (sqlite_disk w) a r"
  unfolding load_edges_for_def
  by (drule with_conn_Inr, drule collect_res_abs[OF _ row_to_edge_abs])
    (simp_all add: edges_of_def sqlite_disk_def abs_db_def sort_key_map_swap filter_map_swap)

lemma predicates_of_image:
  "predicates_of d a s as_of = (\<lambda>c. fa_predicate (cl_fact c)) ` set (filter (\<lambda>c. cl_agent_id c = a
     \<and> fa_subject (cl_fact c) = s \<and> cutoff as_of (cl_transaction_time c)) (db_claims d))"
  by (auto simp: predicates_of_def)

lemma list_predicates_spec:
  "list_predicates_for_subject w a s as_of = Inr ps \<Longrightarrow>
     distinct ps \<and> set ps = predicates_of (sqlite_disk w) a s as_of"
  unfolding list_predicates_for_subject_def
  by (drule with_conn_Inr)
    (auto simp: predicates_of_image sqlite_disk_def abs_db_def cutoff_case filter_map_swap image_image)

lemma ledger_chunk_rows_abs:
  "map abs_ledger (ledger_chunk_rows q a as_of c) = ledger_of_chunk (abs_db q) a c as_of"
  by (simp add: ledger_chunk_rows_def ledger_of_chunk_def abs_db_def sort_key_map_swap filter_map_swap cutoff_case)

lemma filter_ledger_of_chunk:
  "filter (\<lambda>e. le_claim_ref e = r) (ledger_of_chunk d a c as_of)
     = (if r \<in> set c then ledger_of_chunk d a [r] as_of else [])"
proof (cases "r \<in> set c")
  case True
  then show ?thesis
    by (simp add: ledger_of_chunk_def sort_key_filter)
      (metis (mono_tags, opaque_lifting))
next
  case False
  then have "filter (\<lambda>e. le_claim_ref e = r) (ledger_of_chunk d a c as_of) = []"
    by (auto simp: ledger_of_chunk_def filter_empty_conv)
  then show ?thesis using False by simp
qed

lemma load_ledger_for_claims_spec:
  assumes "load_ledger_for_claims w a refs as_of = Inr es" "distinct refs"
  shows "(\<forall>r \<in> set refs. filter (\<lambda>e. le_claim_ref e = r) es = ledger_of_chunk (sqlite_disk w) a [r] as_of)
     \<and> le_claim_ref ` set es \<subseteq> set refs"
proof (cases "refs = []")
  case False
  let ?cs = "chunks 900 refs"
  have cc: "concat ?cs = refs" by (rule concat_chunks) simp
  have es: "es = concat (map (\<lambda>c. ledger_of_chunk (sqlite_disk w) a c as_of) ?cs)"
    using assms(1) False
    by (auto simp: load_ledger_for_claims_def sqlite_disk_def map_concat comp_def ledger_chunk_rows_abs
        dest!: with_conn_Inr dest: collect_res_abs[OF _ row_to_ledger_abs])
  have "filter (\<lambda>e. le_claim_ref e = r) es = ledger_of_chunk (sqlite_disk w) a [r] as_of" if "r \<in> set refs" for r
    unfolding es
    by (rule filter_ref_concat_chunks) (use assms(2) that cc in \<open>simp_all add: filter_ledger_of_chunk\<close>)
  moreover have "le_claim_ref e \<in> set refs" if "e \<in> set es" for e
  proof -
    from that obtain c where "c \<in> set ?cs" "e \<in> set (ledger_of_chunk (sqlite_disk w) a c as_of)"
      unfolding es by auto
    then have "le_claim_ref e \<in> set c" "set c \<subseteq> set (concat ?cs)"
      by (auto simp: ledger_of_chunk_def)
    then show ?thesis using cc by auto
  qed
  ultimately show ?thesis by auto
qed (use assms in \<open>simp add: load_ledger_for_claims_def\<close>)

interpretation sqlite: persistence sqlite_port sqlite_disk sqlite_work
proof unfold_locales
  fix a w t w' e
  show "pp_begin_atomic sqlite_port a w = (Inr t, w') \<Longrightarrow> sqlite_work t = sqlite_disk w \<and> sqlite_disk w' = sqlite_disk w"
    by (auto simp: sqlite_port_ops begin_atomic_def sqlite_work_def sqlite_disk_def split: if_splits)
  show "pp_begin_atomic sqlite_port a w = (Inl e, w') \<Longrightarrow> sqlite_disk w' = sqlite_disk w"
    by (auto simp: sqlite_port_ops begin_atomic_def sqlite_disk_def split: if_splits)
next
  fix c t r t' e
  show "pp_append_claim sqlite_port c t = (Inr r, t') \<Longrightarrow>
     r = cl_ref c \<and> sqlite_work t' = add_claim c (sqlite_work t)
     \<and> cl_ref c \<notin> cl_ref ` set (db_claims (sqlite_work t))"
    using append_claim_cases(1)[of c t r t'] by (simp add: sqlite_port_ops)
  show "pp_append_claim sqlite_port c t = (Inl e, t') \<Longrightarrow> sqlite_work t' = sqlite_work t"
    using append_claim_cases(2)[of c t e t'] by (simp add: sqlite_port_ops)
next
  fix a t u t' e
  show "pp_append_validity_assertion sqlite_port a t = (Inr u, t') \<Longrightarrow>
     sqlite_work t' = add_assertion a (sqlite_work t)
     \<and> va_assertion_ref a \<notin> va_assertion_ref ` set (db_assertions (sqlite_work t))"
    using append_assertion_cases(1)[of a t u t'] by (simp add: sqlite_port_ops)
  show "pp_append_validity_assertion sqlite_port a t = (Inl e, t') \<Longrightarrow> sqlite_work t' = sqlite_work t"
    using append_assertion_cases(2)[of a t e t'] by (simp add: sqlite_port_ops)
next
  fix le t u t' e
  show "pp_append_ledger_entry sqlite_port le t = (Inr u, t') \<Longrightarrow> sqlite_work t' = add_ledger le (sqlite_work t)"
    by (auto simp: sqlite_port_ops append_ledger_entry_def Let_def sqlite_work_def abs_db_def add_ledger_def
        dest!: execute_insert_ok)
  show "pp_append_ledger_entry sqlite_port le t = (Inl e, t') \<Longrightarrow> sqlite_work t' = sqlite_work t"
    by (auto simp: sqlite_port_ops append_ledger_entry_def Let_def sqlite_work_def dest!: execute_insert_err)
next
  fix ed t u t' e
  show "pp_append_claim_edge sqlite_port ed t = (Inr u, t') \<Longrightarrow> sqlite_work t' = add_edge ed (sqlite_work t)"
    by (auto simp: sqlite_port_ops append_claim_edge_def Let_def sqlite_work_def abs_db_def add_edge_def
        dest!: execute_insert_ok)
  show "pp_append_claim_edge sqlite_port ed t = (Inl e, t') \<Longrightarrow> sqlite_work t' = sqlite_work t"
    by (auto simp: sqlite_port_ops append_claim_edge_def Let_def sqlite_work_def dest!: execute_insert_err)
next
  fix t w u w' e
  show "pp_commit sqlite_port t w = (Inr u, w') \<Longrightarrow> sqlite_disk w' = sqlite_work t"
    by (auto simp: sqlite_port_ops commit_txn_def sqlite_disk_def sqlite_work_def split: if_splits)
  show "pp_commit sqlite_port t w = (Inl e, w') \<Longrightarrow> sqlite_disk w' = sqlite_disk w"
    by (auto simp: sqlite_port_ops commit_txn_def sqlite_disk_def split: if_splits)
  show "sqlite_disk (snd (pp_rollback sqlite_port t w)) = sqlite_disk w"
    by (simp add: sqlite_port_ops rollback_txn_def sqlite_disk_def)
next
  fix w a s p as_of cs
  show "pp_load_subject_line sqlite_port w a s p as_of = Inr cs \<Longrightarrow> cs = line_of (sqlite_disk w) a s p as_of"
    using load_subject_line_spec by (simp add: sqlite_port_ops)
next
  fix w a r co
  show "pp_load_claim sqlite_port w a r = Inr co \<Longrightarrow> co = claim_of (sqlite_disk w) a r"
    using load_claim_spec by (simp add: sqlite_port_ops)
next
  fix w a r vs
  show "pp_load_validity_assertions_for sqlite_port w a r = Inr vs \<Longrightarrow> vs = assertions_of (sqlite_disk w) a r"
    using load_assertions_spec by (simp add: sqlite_port_ops)
next
  fix w a from_t n es
  show "pp_load_ledger sqlite_port w a from_t n = Inr es \<Longrightarrow> es = ledger_page (sqlite_disk w) a from_t n"
    using load_ledger_spec by (simp add: sqlite_port_ops)
next
  fix w a refs as_of es
  show "pp_load_ledger_for_claims sqlite_port w a refs as_of = Inr es \<Longrightarrow> distinct refs \<Longrightarrow>
     (\<forall>r \<in> set refs. filter (\<lambda>e. le_claim_ref e = r) es = ledger_of_chunk (sqlite_disk w) a [r] as_of)
     \<and> le_claim_ref ` set es \<subseteq> set refs"
    using load_ledger_for_claims_spec[of w a refs as_of es] by (simp add: sqlite_port_ops)
next
  fix w a r eds
  show "pp_load_edges_for sqlite_port w a r = Inr eds \<Longrightarrow> eds = edges_of (sqlite_disk w) a r"
    using load_edges_spec by (simp add: sqlite_port_ops)
next
  fix w a s as_of ps
  show "pp_list_predicates_for_subject sqlite_port w a s as_of = Inr ps \<Longrightarrow>
     distinct ps \<and> set ps = predicates_of (sqlite_disk w) a s as_of"
    using list_predicates_spec[of w a s as_of ps] by (simp add: sqlite_port_ops)
qed

lemmas sqlite_queue_ops = sqlite_queue_def pending_port.simps

lemma execute_direct_ok:
  "execute_direct cons ch w = (Inr u, w') \<Longrightarrow> sw_db w' = ch (sw_db w) \<and> cons (sw_db w)"
  by (auto simp: execute_direct_def split: if_splits)

lemma execute_direct_err: "execute_direct cons ch w = (Inl e, w') \<Longrightarrow> sw_db w' = sw_db w"
  by (auto simp: execute_direct_def split: if_splits)

lemma abs_update_status: "abs_db (update_status s h q) = set_pending_status s h (abs_db q)"
  by (simp add: update_status_def set_pending_status_def abs_db_def)

lemma abs_ledger_queued:
  "le_disposition (abs_ledger l) = QueuedForAdjudication \<longleftrightarrow> rl_disposition l = ''QueuedForAdjudication''"
  by (auto simp: abs_ledger_def ledger_of_row_def str_to_disposition_def)

lemma find_None_map: "find P (map f xs) = None \<longleftrightarrow> find (\<lambda>x. P (f x)) xs = None"
  by (simp add: find_map_swap)

definition orphan_row :: "sql_db \<Rightarrow> ledger_row \<Rightarrow> bool" where
  "orphan_row q l = (rl_disposition l = ''QueuedForAdjudication'' \<and> is_latest_entry q l
     \<and> \<not> list_ex (\<lambda>pa. pa_challenger pa = rl_claim_id l \<and> pa_agent_id pa = rl_agent_id l
                      \<and> pa_status pa = ''pending'') (q_pending q))"

lemma orphan_row_abs:
  "orphan_row q l \<and> claim_row_of q (rl_agent_id l) (rl_claim_id l) \<noteq> None
     \<longleftrightarrow> orphan_entry_of (abs_db q) (abs_ledger l)"
proof -
  have row: "claim_row_of q a r = None \<longleftrightarrow> claim_of (abs_db q) a r = None" for a r
    by (simp add: claim_row_of_def claim_of_def abs_db_def find_None_map conj_commute)
  have latest: "is_latest_entry q l \<longleftrightarrow> (\<forall>x \<in> set (db_ledger (abs_db q)). le_claim_ref x = rl_claim_id l
      \<and> le_agent_id x = rl_agent_id l \<longrightarrow> le_recorded_at x \<le> rl_recorded_at l)"
    by (simp add: is_latest_entry_def list_all_iff abs_db_def)
  have pending: "db_pending (abs_db q) = q_pending q" by (simp add: abs_db_def)
  show ?thesis
    unfolding orphan_row_def orphan_entry_of_def abs_ledger_queued abs_ledger_cols latest row pending list_ex_iff
    by blast
qed

lemma orphan_rows_mem:
  "(l, c) \<in> set (orphan_rows q) \<longleftrightarrow>
     l \<in> set (q_ledger q) \<and> orphan_row q l \<and> claim_row_of q (rl_agent_id l) (rl_claim_id l) = Some c"
  unfolding orphan_rows_def orphan_row_def[symmetric]
  by (auto split: option.splits)

lemma orphan_rows_keys:
  "(\<lambda>(l, c). (rl_agent_id l, rl_claim_id l)) ` set (orphan_rows q) = orphans_of (abs_db q)"
  (is "?f ` _ = _")
proof (intro equalityI subsetI)
  fix k assume "k \<in> ?f ` set (orphan_rows q)"
  then obtain l c where m: "(l, c) \<in> set (orphan_rows q)" and k: "k = (rl_agent_id l, rl_claim_id l)" by auto
  have "orphan_entry_of (abs_db q) (abs_ledger l)"
    using m unfolding orphan_rows_mem orphan_row_abs[symmetric] by simp
  moreover have "abs_ledger l \<in> set (db_ledger (abs_db q))"
    using m by (simp add: orphan_rows_mem abs_db_def)
  moreover have "k = (le_agent_id (abs_ledger l), le_claim_ref (abs_ledger l))" by (simp add: k)
  ultimately show "k \<in> orphans_of (abs_db q)" unfolding orphans_of_def by blast
next
  fix k assume "k \<in> orphans_of (abs_db q)"
  then obtain l where l: "l \<in> set (q_ledger q)" "orphan_entry_of (abs_db q) (abs_ledger l)"
    "k = (rl_agent_id l, rl_claim_id l)"
    by (auto simp: orphans_of_def abs_db_def)
  then obtain c where "(l, c) \<in> set (orphan_rows q)"
    by (auto simp: orphan_rows_mem orphan_row_abs[symmetric])
  then show "k \<in> ?f ` set (orphan_rows q)" using l(3) by (force intro: rev_image_eqI)
qed

interpretation sqlite_q: pending_queue sqlite_queue sqlite_disk "\<lambda>row. row"
proof unfold_locales
  fix row :: pending_row
  show "row = row\<lparr>pa_queued_at := pa_queued_at row, pa_expires_at := pa_expires_at row\<rparr>" by simp
  show "pa_queued_at row \<le> pa_queued_at row \<and> pa_queued_at row < pa_queued_at row + 1000" by simp
  show "rel_option (\<lambda>s t. s \<le> t \<and> t < s + 1000) (pa_expires_at row) (pa_expires_at row)"
    by (cases "pa_expires_at row") simp_all
next
  fix row w u w' e
  show "pq_insert_pending sqlite_queue row w = (Inr u, w') \<Longrightarrow>
     sqlite_disk w' = add_pending row (sqlite_disk w)
     \<and> pa_handle_id row \<notin> pa_handle_id ` set (db_pending (sqlite_disk w))"
    by (auto simp: sqlite_queue_ops insert_pending_def sqlite_disk_def abs_db_def add_pending_def list_ex_iff
        dest!: execute_direct_ok)
  show "pq_insert_pending sqlite_queue row w = (Inl e, w') \<Longrightarrow> sqlite_disk w' = sqlite_disk w"
    by (auto simp: sqlite_queue_ops insert_pending_def sqlite_disk_def dest!: execute_direct_err)
next
  fix h w u w' e
  show "pq_mark_resolved sqlite_queue h w = (Inr u, w') \<Longrightarrow>
     sqlite_disk w' = set_pending_status ''resolved'' h (sqlite_disk w)"
    by (auto simp: sqlite_queue_ops mark_resolved_def sqlite_disk_def abs_update_status dest!: execute_direct_ok)
  show "pq_mark_resolved sqlite_queue h w = (Inl e, w') \<Longrightarrow> sqlite_disk w' = sqlite_disk w"
    by (auto simp: sqlite_queue_ops mark_resolved_def sqlite_disk_def dest!: execute_direct_err)
  show "pq_mark_expired sqlite_queue h w = (Inr u, w') \<Longrightarrow>
     sqlite_disk w' = set_pending_status ''expired'' h (sqlite_disk w)"
    by (auto simp: sqlite_queue_ops mark_expired_def sqlite_disk_def abs_update_status dest!: execute_direct_ok)
  show "pq_mark_expired sqlite_queue h w = (Inl e, w') \<Longrightarrow> sqlite_disk w' = sqlite_disk w"
    by (auto simp: sqlite_queue_ops mark_expired_def sqlite_disk_def dest!: execute_direct_err)
next
  fix w h ro
  show "pq_get_pending sqlite_queue w h = Inr ro \<Longrightarrow> ro = pending_of (sqlite_disk w) h"
    by (auto simp: sqlite_queue_ops get_pending_def pending_of_def sqlite_disk_def abs_db_def and_then_Inr
        split: option.splits dest!: with_conn_Inr dest: row_to_pending_same)
next
  fix w now rs
  show "pq_list_expired sqlite_queue w now = Inr rs \<Longrightarrow> rs = expired_of (sqlite_disk w) now"
    by (auto simp: sqlite_queue_ops list_expired_def expired_of_def sqlite_disk_def abs_db_def
        dest!: with_conn_Inr dest: collect_res_abs[OF _ row_to_pending_same])
next
  fix w os
  assume "pq_list_queued_orphan_claims sqlite_queue w = Inr os"
  then have os: "os = map (\<lambda>(l, c). \<lparr>or_agent_id = rl_agent_id l, or_challenger = rl_claim_id l,
        or_incumbent = find_committed_cheap_claim (sw_db w) (rl_agent_id l) (rc_subject c) (rc_predicate c),
        or_subject = rc_subject c, or_predicate = rc_predicate c\<rparr>) (orphan_rows (sw_db w))"
    by (auto simp: sqlite_queue_ops list_queued_orphan_claims_def dest!: with_conn_Inr)
  have "orphan_key ` set os = (\<lambda>(l, c). (rl_agent_id l, rl_claim_id l)) ` set (orphan_rows (sw_db w))"
    unfolding os by (force simp: orphan_key_def)
  then show "orphan_key ` set os = orphans_of (sqlite_disk w)"
    by (simp add: orphan_rows_keys sqlite_disk_def)
qed

interpretation sqlite_engine: engine_store sqlite_port sqlite_queue sqlite_disk sqlite_work "\<lambda>row. row" ..

end
