(* ===== verification/Ingest_Facts.thy ===== *)
theory Ingest_Facts
  imports Ingest Sqlite_Store
begin

text \<open>What \<^verbatim>\<open>ingest_claim\<close> does to the store, for every adapter: the rows of one committed claim, or
  nothing; the orphan window after the commit; the amplification guard that writes nothing.\<close>

text \<open>The store after the transaction of an admitted claim.\<close>

definition committed_db ::
    "(nat \<Rightarrow> uuid) \<Rightarrow> claim \<Rightarrow> gate_decision \<Rightarrow> agent_id \<Rightarrow> transaction_time \<Rightarrow> db \<Rightarrow> db" where
  "committed_db ids c decision a now d = d\<lparr>
     db_claims := db_claims d @ [stored_claim c],
     db_ledger := db_ledger d @ [committed_entry (ids 1) a (cl_ref c) decision now],
     db_edges := db_edges d @ lineage_edges ids 2 a (cl_ref c) now (cl_derived_from c)\<rparr>"

lemma ids_of_lineage_edges: "e \<in> set (lineage_edges ids k a r now ps) \<Longrightarrow> ed_created_at e = now"
  by (induction ids k a r now ps rule: lineage_edges.induct) auto

text \<open>The claim a request is stamped into.\<close>

definition request_claim :: "ingest_request \<Rightarrow> instant \<Rightarrow> uuid \<Rightarrow> claim" where
  "request_claim req now r = \<lparr>cl_ref = r, cl_agent_id = iq_agent_id req,
     cl_fact = \<lparr>fa_subject = iq_subject req, fa_predicate = iq_predicate req, fa_value = iq_value req\<rparr>,
     cl_cardinality = iq_cardinality req, cl_provenance = iq_provenance req,
     cl_external_anchor = \<lparr>ea_nearest_external_anchor = None, ea_derivation_depth = 0\<rparr>,
     cl_transaction_time = now,
     cl_valid_time = (case iq_valid_time req of Some vt \<Rightarrow> vt | None \<Rightarrow> unknown_valid_time),
     cl_confidence = iq_confidence req, cl_criticality = iq_criticality req,
     cl_derived_from = iq_derived_from req, cl_metadata = None, cl_snapshot_schema_version = None\<rparr>"

lemma stamp_request [simp]: "stamp (ingest_input_of req) now r = Inr (request_claim req now r)"
  by (simp add: stamp_def ingest_input_of_def request_claim_def)

lemma request_claim_simps [simp]:
  "cl_ref (request_claim req now r) = r" "cl_transaction_time (request_claim req now r) = now"
  "cl_agent_id (request_claim req now r) = iq_agent_id req"
  "cl_provenance (request_claim req now r) = iq_provenance req"
  "cl_derived_from (request_claim req now r) = iq_derived_from req"
  by (simp_all add: request_claim_def)

context persistence
begin

lemma foreach_edges:
  "tx_foreach (\<lambda>edge. tx_map_err Persistence (pp_append_claim_edge P edge)) es t = (Inr u, t') \<Longrightarrow>
     work t' = (work t)\<lparr>db_edges := db_edges (work t) @ es\<rparr>"
proof (induction es arbitrary: t)
  case (Cons e es)
  then obtain t1 where "pp_append_claim_edge P e t = (Inr (), t1)"
    "tx_foreach (\<lambda>edge. tx_map_err Persistence (pp_append_claim_edge P edge)) es t1 = (Inr u, t')"
    by (auto simp: tx_bind_Inr_iff)
  then show ?case
    using Cons.IH append_edge_ok by (simp add: add_edge_def)
qed (simp add: tx_return_def)

lemma append_within_txn_ok:
  assumes "append_within_txn P ids c decision incumbent a now t = (Inr resp, t')"
  shows "work t' = committed_db ids c decision a now (work t)"
    "ir_claim_ref resp = cl_ref c" "ir_disposition resp = gd_disposition decision"
    "cl_ref c \<notin> cl_ref ` set (db_claims (work t))"
proof -
  let ?entry = "\<lambda>r. committed_entry (ids 1) a r decision now"
  obtain r t1 t2 t3 where 1: "pp_append_claim P c t = (Inr r, t1)"
    and 2: "pp_append_ledger_entry P (?entry r) t1 = (Inr (), t2)"
    and 3: "tx_foreach (\<lambda>edge. tx_map_err Persistence (pp_append_claim_edge P edge))
      (lineage_edges ids 2 a r now (cl_derived_from c)) t2 = (Inr (), t3)"
    and resp: "t' = t3" "ir_claim_ref resp = r" "ir_disposition resp = gd_disposition decision"
    using assms unfolding append_within_txn_def
    by (auto simp: tx_bind_Inr_iff tx_return_def)
  have c: "r = cl_ref c" "work t1 = add_claim c (work t)" "cl_ref c \<notin> cl_ref ` set (db_claims (work t))"
    using append_claim_ok[OF 1] by auto
  then show "work t' = committed_db ids c decision a now (work t)"
    "ir_claim_ref resp = cl_ref c" "ir_disposition resp = gd_disposition decision"
    "cl_ref c \<notin> cl_ref ` set (db_claims (work t))"
    using foreach_edges[OF 3] append_ledger_ok[OF 2] resp
    by (auto simp: committed_db_def add_claim_def add_ledger_def)
qed

lemma append_within_txn_grows:
  assumes "cl_transaction_time c = now"
  shows "tx_grows work now (append_within_txn P ids c decision incumbent a now)"
  unfolding append_within_txn_def
  by (intro tx_grow assms)
    (auto simp: committed_entry_def dest: ids_of_lineage_edges)

end

context engine_store
begin

lemma enqueue_grows:
  assumes "Qo \<in> {None, Some Q}"
  shows "grows now (disk w) (disk (snd (enqueue_adjudication Qo oracle cfg req incumbent c resp now w)))"
proof -
  have "grows now (disk w) (disk w')" if "pq_insert_pending Q row w = (r, w')" for row r w'
    using insert_grows[of now w row] that by simp
  then show ?thesis
    using assms by (auto simp: enqueue_adjudication_def split: option.splits sum.splits prod.splits)
qed

text \<open>The queue step only adds a pending row.\<close>

lemma enqueue_tables:
  assumes "Qo \<in> {None, Some Q}"
    and "enqueue_adjudication Qo oracle cfg req incumbent c resp now w = (r, w')"
  shows "db_claims (disk w') = db_claims (disk w)" "db_assertions (disk w') = db_assertions (disk w)"
    "db_ledger (disk w') = db_ledger (disk w)" "db_edges (disk w') = db_edges (disk w)"
    "r = Inr x \<Longrightarrow> x = resp"
    "r = Inl e \<Longrightarrow> ir_disposition resp = QueuedForAdjudication \<and> disk w' = disk w"
  using assms insert_ok insert_err
  by (auto simp: enqueue_adjudication_def add_pending_def split: option.splits sum.splits prod.splits if_splits)

lemma ingest_execute_cases:
  assumes "ingest_execute P Qo oracle cfg ids req now w = (r, w')"
  obtains (Untouched) "w' = w"
      "\<And>resp. r = Inr resp \<Longrightarrow>
         (\<exists>injected. firewall_check cfg (request_claim req now (ids 0)) injected 0
                       = CorroborateByIdentity (ir_claim_ref resp) False)
         \<or> (\<exists>injected reason. firewall_check cfg (request_claim req now (ids 0)) injected 0 = FW_Quarantine reason)"
    | (Classified) claims ledger where
      "pp_load_subject_line P w (iq_agent_id req) (iq_subject req) (iq_predicate req) None = Inr claims"
      "pp_load_ledger_for_claims P w (iq_agent_id req) (map cl_ref claims) None = Inr ledger"
      "ingest_classified P Qo oracle cfg ids req now (request_claim req now (ids 0)) claims ledger w = (r, w')"
proof (cases "pp_load_injected_claims P w (iq_agent_id req)")
  case (Inl e)
  then show ?thesis using assms by (auto simp: ingest_execute_def intro: Untouched)
next
  case (Inr injected)
  have corr: "\<not> b" if "firewall_check cfg c injected 0 = CorroborateByIdentity x b" for c x b
    using that by (simp add: firewall_corroborates)
  show ?thesis
  proof (cases "firewall_check cfg (request_claim req now (ids 0)) injected 0")
    case (CorroborateByIdentity x b)
    then show ?thesis
      using assms Inr corr[OF CorroborateByIdentity] by (intro Untouched) (auto simp: ingest_execute_def)
  next
    case (FW_Quarantine reason)
    then show ?thesis using assms Inr by (intro Untouched) (auto simp: ingest_execute_def)
  qed (use assms Inr Classified Untouched in \<open>auto simp: ingest_execute_def split: sum.splits\<close>)
qed

lemma ingest_classified_cases:
  assumes "Qo \<in> {None, Some Q}" "ingest_classified P Qo oracle cfg ids req now c claims ledger w = (r, w')"
  defines "a \<equiv> iq_agent_id req"
  defines "dec \<equiv> ingest_decide cfg (oracle \<noteq> None) req c
    (fold_claims claims (assertions_for P w a) now None cfg (build_latest_disposition_map ledger)) ledger"
  obtains (Failed) e where "r = Inl e" "disk w' = disk w"
    | (Committed) resp w1 where
      "disk w1 = committed_db ids c (snd dec) a now (disk w)"
      "cl_ref c \<notin> cl_ref ` set (db_claims (disk w))"
      "ir_claim_ref resp = cl_ref c" "ir_disposition resp = gd_disposition (snd dec)"
      "enqueue_adjudication Qo oracle cfg req (fst dec) c resp now w1 = (r, w')"
proof -
  obtain inc decision where d: "dec = (inc, decision)" by (cases dec)
  obtain r1 w1 where t: "in_txn P a (append_within_txn P ids c decision inc a now) w = (r1, w1)"
    by (cases "in_txn P a (append_within_txn P ids c decision inc a now) w")
  show ?thesis
  proof (cases r1)
    case (Inl e)
    then have "r = Inl e" "w' = w1"
      using assms(2) t d by (auto simp: ingest_classified_def dec_def a_def)
    then show ?thesis using in_txn_error t Inl by (intro Failed) auto
  next
    case (Inr resp)
    then obtain t0 t1 where tt: "work t0 = disk w" "disk w1 = work t1"
        "append_within_txn P ids c decision inc a now t0 = (Inr resp, t1)"
      using t by (metis in_txn_ok)
    have "enqueue_adjudication Qo oracle cfg req inc c resp now w1 = (r, w')"
      using assms(2) t d Inr by (auto simp: ingest_classified_def dec_def a_def)
    then show ?thesis
      using append_within_txn_ok[OF tt(3)] tt(1,2) d by (intro Committed[of w1 resp]) auto
  qed
qed

lemma ingest_grows:
  assumes "Qo \<in> {None, Some Q}"
  shows "grows now (disk w) (disk (snd (ingest_execute P Qo oracle cfg ids req now w)))"
proof -
  obtain r w' where e: "ingest_execute P Qo oracle cfg ids req now w = (r, w')"
    by (cases "ingest_execute P Qo oracle cfg ids req now w")
  from e have "grows now (disk w) (disk w')"
  proof (cases rule: ingest_execute_cases)
    case (Classified claims ledger)
    from assms Classified(3) show ?thesis
    proof (cases rule: ingest_classified_cases)
      case (Committed resp w1)
      have "grows now (disk w) (disk w1)"
        using Committed(1,2) by (auto simp: grows_def appended_def db_wf_def committed_db_def
            committed_entry_def dest: ids_of_lineage_edges)
      moreover have "grows now (disk w1) (disk w')"
        using enqueue_grows[OF assms] Committed(5) by (metis snd_conv)
      ultimately show ?thesis by (rule grows_trans)
    qed simp
  qed simp
  then show ?thesis using e by simp
qed

end

end
