(* ===== verification/Adjudication.thy ===== *)
theory Adjudication
  imports Ledger_Maps Valid_Time Txn_Effects
begin

text \<open>\<^verbatim>\<open>application/submit_adjudication.rs\<close>: applying an oracle verdict to a queued challenger, with
  the lazy expiry of its handle. \<^verbatim>\<open>application/sweep_adjudications.rs\<close> and the sweep of
  \<^verbatim>\<open>engine_handle.rs\<close>: reverting expired rows and orphaned challengers. \<^verbatim>\<open>engine/supersession.rs\<close>:
  the bound, the ledger entry and the dependents cascade of a supersession.\<close>

section \<open>Supersession and its cascade\<close>

text \<open>The loop with the \<^verbatim>\<open>HashSet\<close> of seen dependents keeps the first occurrence of each.\<close>

fun first_occurrences :: "claim_ref set \<Rightarrow> claim_ref list \<Rightarrow> claim_ref list" where
  "first_occurrences seen [] = []"
| "first_occurrences seen (x # xs) =
     (if x \<in> seen then first_occurrences seen xs else x # first_occurrences (insert x seen) xs)"

definition dependents_of :: "claim_ref \<Rightarrow> claim_edge list \<Rightarrow> claim_ref list" where
  "dependents_of target edges =
     first_occurrences {}
       (map ed_from_claim (filter (\<lambda>e. ed_kind e = DependsOn \<and> ed_to_claim e = target) edges))"

definition dependent_flag ::
    "uuid \<Rightarrow> agent_id \<Rightarrow> claim_ref \<Rightarrow> claim_ref \<Rightarrow> transaction_time \<Rightarrow> claim_ref \<Rightarrow> ledger_entry" where
  "dependent_flag entry_id a parent overturning now dep =
     \<lparr>le_entry_id = entry_id, le_agent_id = a, le_claim_ref = dep,
      le_event_kind = DependentFlaggedPendingReview, le_disposition = PendingReview,
      le_rationale = Some (JObj [(''event'', JStr ''depends_on_cascade''),
                                 (''overturning_claim'', JText [UuidStr overturning]),
                                 (''superseded_parent'', JText [UuidStr parent])]),
      le_recorded_at = now\<rparr>"

fun dependent_flags ::
    "(nat \<Rightarrow> uuid) \<Rightarrow> nat \<Rightarrow> agent_id \<Rightarrow> claim_ref \<Rightarrow> claim_ref \<Rightarrow> transaction_time \<Rightarrow> claim_ref list \<Rightarrow> ledger_entry list" where
  "dependent_flags ids k a parent overturning now [] = []"
| "dependent_flags ids k a parent overturning now (x # xs) =
     dependent_flag (ids k) a parent overturning now x # dependent_flags ids (Suc k) a parent overturning now xs"

definition full_confidence :: confidence where
  "full_confidence = \<lparr>cf_value_confidence = F32 1, cf_valid_time_confidence = F32 1\<rparr>"

definition supersession_assertion ::
    "uuid \<Rightarrow> agent_id \<Rightarrow> claim_ref \<Rightarrow> instant \<Rightarrow> date_granularity option \<Rightarrow> transaction_time \<Rightarrow> validity_assertion" where
  "supersession_assertion assertion_ref a target bound_at gran now =
     \<lparr>va_assertion_ref = assertion_ref, va_agent_id = a, va_target_claim = target,
      va_kind = Bound bound_at gran, va_provenance = External ExternalFirstHand,
      va_confidence = full_confidence, va_asserted_at = now\<rparr>"

definition supersession_execute ::
    "('w, 't, 'e) persistence_port \<Rightarrow> (nat \<Rightarrow> uuid) \<Rightarrow> agent_id \<Rightarrow> claim_ref \<Rightarrow> claim_ref \<Rightarrow> instant
       \<Rightarrow> transaction_time \<Rightarrow> claim_edge list \<Rightarrow> ('t, 'e, nat) tx_step" where
  "supersession_execute P ids a superseded overturning bound_at recorded_at preloaded_edges =
     (let dependents = dependents_of superseded preloaded_edges in
      tx_bind (pp_append_validity_assertion P
                 (supersession_assertion (ids 0) a superseded bound_at None recorded_at)) (\<lambda>_.
      tx_bind (pp_append_ledger_entry P
                 \<lparr>le_entry_id = ids 1, le_agent_id = a, le_claim_ref = superseded,
                  le_event_kind = ValidityAsserted, le_disposition = Superseded,
                  le_rationale = Some (JObj [(''bound_at'', JText [Rfc3339 bound_at]),
                                             (''event'', JStr ''supersession''),
                                             (''overturning_claim'', JText [UuidStr overturning])]),
                  le_recorded_at = recorded_at\<rparr>) (\<lambda>_.
      tx_bind (tx_foreach (pp_append_ledger_entry P)
                 (dependent_flags ids 2 a superseded overturning recorded_at dependents)) (\<lambda>_.
      tx_return (length dependents)))))"

section \<open>Applying a verdict\<close>

definition oracle_supersession_entry ::
    "uuid \<Rightarrow> agent_id \<Rightarrow> claim_ref \<Rightarrow> claim_ref \<Rightarrow> instant \<Rightarrow> string \<Rightarrow> transaction_time \<Rightarrow> ledger_entry" where
  "oracle_supersession_entry entry_id a target overturning bound_at verdict now =
     \<lparr>le_entry_id = entry_id, le_agent_id = a, le_claim_ref = target,
      le_event_kind = ValidityAsserted, le_disposition = Superseded,
      le_rationale = Some (JObj [(''bound_at'', JText [Rfc3339 bound_at]),
                                 (''event'', JStr ''oracle_supersession''),
                                 (''overturning_claim'', JText [UuidStr overturning]),
                                 (''verdict'', JStr verdict)]),
      le_recorded_at = now\<rparr>"

definition bound_claim ::
    "('w, 't, 'e) persistence_port \<Rightarrow> (nat \<Rightarrow> uuid) \<Rightarrow> agent_id \<Rightarrow> claim_ref \<Rightarrow> claim_ref \<Rightarrow> instant
       \<Rightarrow> date_granularity option \<Rightarrow> transaction_time \<Rightarrow> claim_edge list \<Rightarrow> string \<Rightarrow> ('t, 'e mem_error, unit) tx_step" where
  "bound_claim P ids a target overturning bound_at gran now preloaded_edges verdict =
     tx_bind (tx_map_err Persistence (pp_append_validity_assertion P
                (supersession_assertion (ids 0) a target bound_at gran now))) (\<lambda>_.
     tx_bind (tx_map_err Persistence (pp_append_ledger_entry P
                (oracle_supersession_entry (ids 1) a target overturning bound_at verdict now))) (\<lambda>_.
     tx_foreach (\<lambda>e. tx_map_err Persistence (pp_append_ledger_entry P e))
       (dependent_flags ids 2 a target overturning now (dependents_of target preloaded_edges))))"

text \<open>\<^verbatim>\<open>ProvenanceLabel\<close> serializes with \<^verbatim>\<open>tag = "type", content = "kind"\<close>.\<close>

fun provenance_to_json :: "provenance_label \<Rightarrow> json" where
  "provenance_to_json (External UserAsserted) = JObj [(''kind'', JStr ''UserAsserted''), (''type'', JStr ''External'')]"
| "provenance_to_json (External ExternalFirstHand) =
     JObj [(''kind'', JStr ''ExternalFirstHand''), (''type'', JStr ''External'')]"
| "provenance_to_json RecallReEntry = JObj [(''type'', JStr ''RecallReEntry'')]"
| "provenance_to_json ModelDerived = JObj [(''type'', JStr ''ModelDerived'')]"

definition affirm_entry :: "uuid \<Rightarrow> agent_id \<Rightarrow> claim_ref \<Rightarrow> provenance_label \<Rightarrow> transaction_time \<Rightarrow> ledger_entry" where
  "affirm_entry entry_id a challenger evidence now =
     \<lparr>le_entry_id = entry_id, le_agent_id = a, le_claim_ref = challenger,
      le_event_kind = AdjudicationResolved, le_disposition = CommittedCheap,
      le_rationale = Some (JObj [(''event'', JStr ''oracle_affirm''),
                                 (''evidence_provenance'', provenance_to_json evidence),
                                 (''verdict'', JStr ''Affirm'')]),
      le_recorded_at = now\<rparr>"

definition abstain_entry :: "uuid \<Rightarrow> agent_id \<Rightarrow> claim_ref \<Rightarrow> transaction_time \<Rightarrow> ledger_entry" where
  "abstain_entry entry_id a r now =
     \<lparr>le_entry_id = entry_id, le_agent_id = a, le_claim_ref = r,
      le_event_kind = AdjudicationResolved, le_disposition = Contested,
      le_rationale = Some (JObj [(''event'', JStr ''oracle_abstain''), (''verdict'', JStr ''Unknown'')]),
      le_recorded_at = now\<rparr>"

definition apply_verdict_within_txn ::
    "('w, 't, 'e) persistence_port \<Rightarrow> (nat \<Rightarrow> uuid) \<Rightarrow> adjudication_verdict \<Rightarrow> provenance_label \<Rightarrow> agent_id
       \<Rightarrow> claim_ref \<Rightarrow> claim_ref \<Rightarrow> transaction_time \<Rightarrow> instant \<Rightarrow> date_granularity option
       \<Rightarrow> claim_edge list \<Rightarrow> claim_edge list \<Rightarrow> ('t, 'e mem_error, unit) tx_step" where
  "apply_verdict_within_txn P ids verdict evidence a challenger incumbent now bound_at gran
       incumbent_edges challenger_edges =
     (case verdict of
        Affirm \<Rightarrow>
          tx_bind (bound_claim P ids a incumbent challenger bound_at gran now incumbent_edges ''affirm'') (\<lambda>_.
          tx_map_err Persistence (pp_append_ledger_entry P
            (affirm_entry (ids (2 + length (dependents_of incumbent incumbent_edges))) a challenger evidence now)))
      | Deny \<Rightarrow>
          bound_claim P ids a challenger incumbent now None now challenger_edges ''deny''
      | V_Unknown \<Rightarrow>
          tx_bind (tx_map_err Persistence (pp_append_ledger_entry P (abstain_entry (ids 0) a challenger now))) (\<lambda>_.
          tx_map_err Persistence (pp_append_ledger_entry P (abstain_entry (ids 1) a incumbent now))))"

section \<open>Submitting a verdict\<close>

definition lazy_expiry_entry :: "uuid \<Rightarrow> pending_row \<Rightarrow> uuid \<Rightarrow> instant \<Rightarrow> transaction_time \<Rightarrow> ledger_entry" where
  "lazy_expiry_entry entry_id row handle expires_at now =
     \<lparr>le_entry_id = entry_id, le_agent_id = pa_agent_id row, le_claim_ref = pa_challenger row,
      le_event_kind = AdjudicationExpired, le_disposition = Contested,
      le_rationale = Some (JObj [(''event'', JStr ''adjudication_ttl_expired_lazy''),
                                 (''expired_at'', JText [Rfc3339 expires_at]),
                                 (''handle_id'', JText [UuidStr handle]),
                                 (''incumbent_claim_ref'', JText [UuidStr (pa_incumbent row)])]),
      le_recorded_at = now\<rparr>"

definition expire_lazily ::
    "('w, 't, 'e) persistence_port \<Rightarrow> ('w, 'e) pending_port \<Rightarrow> (nat \<Rightarrow> uuid) \<Rightarrow> pending_row \<Rightarrow> uuid \<Rightarrow> instant
       \<Rightarrow> instant \<Rightarrow> 'w \<Rightarrow> ('e mem_error, adjudication_outcome) res \<times> 'w" where
  "expire_lazily P Q ids row handle expires_at now w =
     (case pp_load_ledger_for_claims P w (pa_agent_id row) [pa_challenger row] None of
        Inl e \<Rightarrow> (Inl (Persistence e), w)
      | Inr ledger \<Rightarrow>
          if latest_disposition_from_ledger ledger (pa_challenger row) = Some QueuedForAdjudication
          then (case in_txn P (pa_agent_id row)
                       (tx_map_err Persistence (pp_append_ledger_entry P
                          (lazy_expiry_entry (ids 0) row handle expires_at now))) w of
                  (Inl e, w1) \<Rightarrow> (Inl e, w1)
                | (Inr _, w1) \<Rightarrow> (Inl (AdjudicationHandleNotFound handle), snd (pq_mark_expired Q handle w1)))
          else (Inl (AdjudicationHandleNotFound handle), w))"

definition verdict_disposition :: "adjudication_verdict \<Rightarrow> disposition" where
  "verdict_disposition v = (case v of Affirm \<Rightarrow> CommittedCheap | Deny \<Rightarrow> Superseded | V_Unknown \<Rightarrow> Contested)"

text \<open>The instant an Affirm bounds the incumbent at: the trusted start of the challenger, else now.\<close>

definition affirm_bound :: "engine_config \<Rightarrow> claim \<Rightarrow> instant \<Rightarrow> instant \<times> date_granularity option" where
  "affirm_bound cfg challenger now =
     (if claim_is_trusted challenger (ec_valid_time_confidence_threshold cfg)
      then (the (vt_start (cl_valid_time challenger)), vt_start_granularity (cl_valid_time challenger))
      else (now, None))"

definition submit_verdict ::
    "('w, 't, 'e) persistence_port \<Rightarrow> ('w, 'e) pending_port \<Rightarrow> engine_config \<Rightarrow> (nat \<Rightarrow> uuid) \<Rightarrow> pending_row \<Rightarrow> uuid
       \<Rightarrow> adjudication_response \<Rightarrow> claim_edge list \<Rightarrow> claim_edge list \<Rightarrow> claim \<Rightarrow> instant \<Rightarrow> 'w
       \<Rightarrow> ('e mem_error, adjudication_outcome) res \<times> 'w" where
  "submit_verdict P Q cfg ids row handle response incumbent_edges challenger_edges challenger_claim now w =
     (let (bound_at, gran) = affirm_bound cfg challenger_claim now in
      case in_txn P (pa_agent_id row)
             (apply_verdict_within_txn P ids (ap_verdict response) (ap_evidence_provenance response)
                (pa_agent_id row) (pa_challenger row) (pa_incumbent row) now bound_at gran
                incumbent_edges challenger_edges) w of
        (Inl e, w1) \<Rightarrow> (Inl e, w1)
      | (Inr _, w1) \<Rightarrow>
          (case pq_mark_resolved Q handle w1 of
             (Inl e, w2) \<Rightarrow> (Inl (PendingStore e), w2)
           | (Inr _, w2) \<Rightarrow>
               (Inr \<lparr>ao_handle_id = handle, ao_disposition = verdict_disposition (ap_verdict response),
                     ao_claim_ref = pa_challenger row\<rparr>, w2)))"

definition submit_queued ::
    "('w, 't, 'e) persistence_port \<Rightarrow> ('w, 'e) pending_port \<Rightarrow> engine_config \<Rightarrow> (nat \<Rightarrow> uuid) \<Rightarrow> pending_row \<Rightarrow> uuid
       \<Rightarrow> adjudication_response \<Rightarrow> instant \<Rightarrow> 'w \<Rightarrow> ('e mem_error, adjudication_outcome) res \<times> 'w" where
  "submit_queued P Q cfg ids row handle response now w =
     (let a = pa_agent_id row; challenger = pa_challenger row; incumbent = pa_incumbent row in
      case pp_load_ledger_for_claims P w a [challenger] None of
        Inl e \<Rightarrow> (Inl (Persistence e), w)
      | Inr ledger \<Rightarrow>
        if latest_disposition_from_ledger ledger challenger \<noteq> Some QueuedForAdjudication
        then (Inl (AdjudicationHandleNotFound handle), w)
        else (case pp_load_edges_for P w a incumbent of
            Inl e \<Rightarrow> (Inl (Persistence e), w)
          | Inr incumbent_edges \<Rightarrow>
            (case pp_load_edges_for P w a challenger of
               Inl e \<Rightarrow> (Inl (Persistence e), w)
             | Inr challenger_edges \<Rightarrow>
               (case pp_load_claim P w a challenger of
                  Inl e \<Rightarrow> (Inl (Persistence e), w)
                | Inr None \<Rightarrow> (Inl (ClaimNotFound challenger), w)
                | Inr (Some challenger_claim) \<Rightarrow>
                    submit_verdict P Q cfg ids row handle response incumbent_edges challenger_edges
                      challenger_claim now w))))"

definition submit_execute ::
    "('w, 't, 'e) persistence_port \<Rightarrow> ('w, 'e) pending_port \<Rightarrow> engine_config \<Rightarrow> (nat \<Rightarrow> uuid) \<Rightarrow> uuid
       \<Rightarrow> adjudication_response \<Rightarrow> instant \<Rightarrow> 'w \<Rightarrow> ('e mem_error, adjudication_outcome) res \<times> 'w" where
  "submit_execute P Q cfg ids handle response now w =
     (case pq_get_pending Q w handle of
        Inl e \<Rightarrow> (Inl (PendingStore e), w)
      | Inr None \<Rightarrow> (Inl (AdjudicationHandleNotFound handle), w)
      | Inr (Some row) \<Rightarrow>
          (case pa_expires_at row of
             Some expires_at \<Rightarrow>
               if expires_at \<le> now then expire_lazily P Q ids row handle expires_at now w
               else submit_queued P Q cfg ids row handle response now w
           | None \<Rightarrow> submit_queued P Q cfg ids row handle response now w))"

section \<open>The sweep\<close>

definition swept_entry :: "uuid \<Rightarrow> pending_row \<Rightarrow> instant \<Rightarrow> ledger_entry" where
  "swept_entry entry_id row now =
     \<lparr>le_entry_id = entry_id, le_agent_id = pa_agent_id row, le_claim_ref = pa_challenger row,
      le_event_kind = AdjudicationExpired, le_disposition = Contested,
      le_rationale = Some (JObj [(''event'', JStr ''adjudication_ttl_expired''),
                                 (''expired_at'', JText [Rfc3339 now]),
                                 (''handle_id'', JText [UuidStr (pa_handle_id row)]),
                                 (''incumbent_claim_ref'', JText [UuidStr (pa_incumbent row)])]),
      le_recorded_at = now\<rparr>"

definition revert_expired_row ::
    "('w, 't, 'e) persistence_port \<Rightarrow> ('w, 'e) pending_port \<Rightarrow> uuid \<Rightarrow> pending_row \<Rightarrow> instant \<Rightarrow> 'w
       \<Rightarrow> ('e mem_error, bool) res \<times> 'w" where
  "revert_expired_row P Q entry_id row now w =
     (case pp_load_ledger_for_claims P w (pa_agent_id row) [pa_challenger row] None of
        Inl e \<Rightarrow> (Inl (Persistence e), w)
      | Inr ledger \<Rightarrow>
          if latest_disposition_from_ledger ledger (pa_challenger row) \<noteq> Some QueuedForAdjudication
          then (Inr False, w)
          else (case in_txn P (pa_agent_id row)
                       (tx_map_err Persistence (pp_append_ledger_entry P (swept_entry entry_id row now))) w of
                  (Inl e, w1) \<Rightarrow> (Inl e, w1)
                | (Inr _, w1) \<Rightarrow>
                    (case pq_mark_expired Q (pa_handle_id row) w1 of
                       (Inl e, w2) \<Rightarrow> (Inl (PendingStore e), w2)
                     | (Inr _, w2) \<Rightarrow> (Inr True, w2))))"

definition orphan_entry :: "uuid \<Rightarrow> orphan \<Rightarrow> instant \<Rightarrow> ledger_entry" where
  "orphan_entry entry_id orph now =
     \<lparr>le_entry_id = entry_id, le_agent_id = or_agent_id orph, le_claim_ref = or_challenger orph,
      le_event_kind = AdjudicationExpired, le_disposition = Contested,
      le_rationale = Some (JObj [(''event'', JStr ''orphaned_queued_claim_recovery''),
        (''incumbent_claim_ref'', (case or_incumbent orph of
             Some r \<Rightarrow> JText [UuidStr r] | None \<Rightarrow> JStr ''unknown'')),
        (''predicate'', JStr (or_predicate orph)),
        (''reason'', JStr ''QueuedForAdjudication claim had no matching pending_adjudications row''),
        (''recovered_at'', JText [Rfc3339 now]),
        (''subject'', JStr (or_subject orph))]),
      le_recorded_at = now\<rparr>"

definition revert_orphan ::
    "('w, 't, 'e) persistence_port \<Rightarrow> uuid \<Rightarrow> orphan \<Rightarrow> instant \<Rightarrow> 'w \<Rightarrow> ('e mem_error, bool) res \<times> 'w" where
  "revert_orphan P entry_id orph now w =
     (case pp_load_ledger_for_claims P w (or_agent_id orph) [or_challenger orph] None of
        Inl e \<Rightarrow> (Inl (Persistence e), w)
      | Inr ledger \<Rightarrow>
          if latest_disposition_from_ledger ledger (or_challenger orph) \<noteq> Some QueuedForAdjudication
          then (Inr False, w)
          else (case in_txn P (or_agent_id orph)
                       (tx_map_err Persistence (pp_append_ledger_entry P (orphan_entry entry_id orph now))) w of
                  (Inl e, w1) \<Rightarrow> (Inl e, w1)
                | (Inr _, w1) \<Rightarrow> (Inr True, w1)))"

text \<open>The two loops of \<^verbatim>\<open>EngineHandle::sweep_expired_adjudications\<close>: an error stops the sweep.\<close>

fun sweep_loop ::
    "(uuid \<Rightarrow> 'x \<Rightarrow> 'w \<Rightarrow> ('e mem_error, bool) res \<times> 'w) \<Rightarrow> (nat \<Rightarrow> uuid) \<Rightarrow> nat \<Rightarrow> 'x list \<Rightarrow> nat \<Rightarrow> 'w
       \<Rightarrow> ('e mem_error, nat) res \<times> 'w" where
  "sweep_loop revert ids k [] swept w = (Inr swept, w)"
| "sweep_loop revert ids k (x # xs) swept w =
     (case revert (ids k) x w of
        (Inl e, w1) \<Rightarrow> (Inl e, w1)
      | (Inr reverted, w1) \<Rightarrow>
          sweep_loop revert ids (Suc k) xs (if reverted then Suc swept else swept) w1)"

definition sweep_expired_adjudications ::
    "('w, 't, 'e) persistence_port \<Rightarrow> ('w, 'e) pending_port option \<Rightarrow> (nat \<Rightarrow> uuid) \<Rightarrow> instant \<Rightarrow> 'w
       \<Rightarrow> ('e mem_error, nat) res \<times> 'w" where
  "sweep_expired_adjudications P Qo ids now w =
     (case Qo of
        None \<Rightarrow> (Inr 0, w)
      | Some Q \<Rightarrow>
        (case pq_list_expired Q w now of
           Inl e \<Rightarrow> (Inl (PendingStore e), w)
         | Inr rows \<Rightarrow>
           (case sweep_loop (\<lambda>i row w. revert_expired_row P Q i row now w) ids 0 rows 0 w of
              (Inl e, w1) \<Rightarrow> (Inl e, w1)
            | (Inr swept, w1) \<Rightarrow>
              (case pq_list_queued_orphan_claims Q w1 of
                 Inl e \<Rightarrow> (Inl (PendingStore e), w1)
               | Inr orphans \<Rightarrow>
                   sweep_loop (\<lambda>i orph w. revert_orphan P i orph now w) ids (length rows) orphans swept w1))))"

end
