(* ===== verification/Store_Facts.thy ===== *)
theory Store_Facts
  imports Ledger_Maps Truth_Facts Sqlite_Store
begin

text \<open>What the use-case proofs share about the logical store: the latest disposition of a claim as
  a function of the store and its change by an append, the ledger slice of a list of claims, and
  what growth leaves of a read with a cutoff.\<close>

section \<open>Stable sorting by time\<close>

lemma sort_key_append_later [sort_facts]:
  fixes k :: "'a \<Rightarrow> 'b::linorder"
  assumes "\<And>x y. x \<in> set xs \<Longrightarrow> y \<in> set ys \<Longrightarrow> k x \<le> k y"
  shows "sort_key k (xs @ ys) = sort_key k xs @ sort_key k ys"
proof (rule properties_for_sort_key)
  show "mset (sort_key k xs @ sort_key k ys) = mset (xs @ ys)" by simp
  show "filter (\<lambda>x. k y = k x) (sort_key k xs @ sort_key k ys) = filter (\<lambda>x. k y = k x) (xs @ ys)" for y
    using sort_key_stable[of k "k y"] by (simp add: eq_commute[of "k y"])
  show "sorted (map k (sort_key k xs @ sort_key k ys))"
    using assms by (auto simp: sorted_append)
qed

lemma sort_key_const: "(\<And>x. x \<in> set xs \<Longrightarrow> k x = c) \<Longrightarrow> sort_key k xs = xs"
proof (induction xs)
  case (Cons x xs)
  then show ?case by (cases xs) auto
qed simp

lemma max_by_time_sorted:
  "sorted (map le_recorded_at es) \<Longrightarrow> es \<noteq> [] \<Longrightarrow> max_by_time es = Some (last es)"
proof (induction es)
  case (Cons e es)
  show ?case
  proof (cases "es = []")
    case False
    then have "max_by_time es = Some (last es)" "le_recorded_at e \<le> le_recorded_at (last es)"
      using Cons by auto
    then show ?thesis using False by simp
  qed simp
qed simp

section \<open>The latest disposition of a claim in the store\<close>

definition claim_entries :: "db \<Rightarrow> agent_id \<Rightarrow> claim_ref \<Rightarrow> ledger_entry list" where
  "claim_entries d a r = filter (\<lambda>e. le_agent_id e = a \<and> le_claim_ref e = r) (db_ledger d)"

definition latest_in :: "db \<Rightarrow> agent_id \<Rightarrow> claim_ref \<Rightarrow> disposition option" where
  "latest_in d a r = latest_disposition_from_ledger (ledger_of_chunk d a [r] None) r"

text \<open>No ledger entry is stamped later than \<^verbatim>\<open>now\<close>.\<close>

definition ledger_until :: "instant \<Rightarrow> db \<Rightarrow> bool" where
  "ledger_until now d = (\<forall>e \<in> set (db_ledger d). le_recorded_at e \<le> now)"

lemma ledger_of_chunk_single:
  "ledger_of_chunk d a [r] None = sort_key le_recorded_at (claim_entries d a r)"
  by (simp add: ledger_of_chunk_def claim_entries_def cutoff_def)

lemma filter_ledger_of_chunk_single [simp]:
  "filter (\<lambda>e. le_claim_ref e = r) (ledger_of_chunk d a [r] T) = ledger_of_chunk d a [r] T"
  by (auto simp: ledger_of_chunk_def intro!: filter_True)

lemma latest_in_last:
  "latest_in d a r = (let es = sort_key le_recorded_at (claim_entries d a r)
     in if es = [] then None else Some (le_disposition (last es)))"
  by (simp add: latest_in_def latest_disposition_from_ledger_def ledger_of_chunk_single[symmetric]
      max_by_time_sorted Let_def)
    (simp add: ledger_of_chunk_single max_by_time_sorted)

text \<open>Entries stamped no earlier than the stored ones decide, by their last one.\<close>

lemma latest_in_append:
  assumes "ledger_until now d" "\<forall>e \<in> set es. le_recorded_at e = now" "db_ledger d' = db_ledger d @ es"
  shows "latest_in d' a r =
    (let mine = filter (\<lambda>e. le_agent_id e = a \<and> le_claim_ref e = r) es
     in if mine = [] then latest_in d a r else Some (le_disposition (last mine)))"
proof -
  let ?mine = "filter (\<lambda>e. le_agent_id e = a \<and> le_claim_ref e = r) es"
  have "sort_key le_recorded_at (claim_entries d' a r)
      = sort_key le_recorded_at (claim_entries d a r) @ sort_key le_recorded_at ?mine"
    using assms by (auto simp: claim_entries_def ledger_until_def intro!: sort_key_append_later)
  moreover have "sort_key le_recorded_at ?mine = ?mine"
    using assms(2) by (intro sort_key_const[of _ _ now]) auto
  ultimately show ?thesis by (simp add: latest_in_last Let_def)
qed

lemma latest_in_same_ledger: "db_ledger d' = db_ledger d \<Longrightarrow> latest_in d' a r = latest_in d a r"
  by (simp add: latest_in_def ledger_of_chunk_def)

lemma ledger_until_appended:
  "appended now d d' \<Longrightarrow> ledger_until now d \<Longrightarrow> ledger_until now d'"
  by (auto simp: appended_def ledger_until_def)

lemma ledger_until_mono: "ledger_until now d \<Longrightarrow> now \<le> later \<Longrightarrow> ledger_until later d"
  by (auto simp: ledger_until_def)

section \<open>The ledger slice of several claims\<close>

definition ledger_slice :: "db \<Rightarrow> agent_id \<Rightarrow> claim_ref list \<Rightarrow> instant option \<Rightarrow> ledger_entry list" where
  "ledger_slice d a refs T = concat (map (\<lambda>r. ledger_of_chunk d a [r] T) refs)"

text \<open>Two slices are the same to the readers when they agree claim by claim.\<close>

definition same_entries :: "ledger_entry list \<Rightarrow> ledger_entry list \<Rightarrow> bool" where
  "same_entries l l' = (\<forall>r. filter (\<lambda>e. le_claim_ref e = r) l = filter (\<lambda>e. le_claim_ref e = r) l')"

lemma filter_ledger_slice:
  assumes "distinct refs"
  shows "filter (\<lambda>e. le_claim_ref e = r) (ledger_slice d a refs T)
       = (if r \<in> set refs then ledger_of_chunk d a [r] T else [])"
  using assms
proof (induction refs)
  case (Cons x xs)
  have "filter (\<lambda>e. le_claim_ref e = r) (ledger_of_chunk d a [x] T)
      = (if x = r then ledger_of_chunk d a [r] T else [])"
    by (auto simp: ledger_of_chunk_def filter_empty_conv)
  then show ?case using Cons by (auto simp: ledger_slice_def)
qed (simp add: ledger_slice_def)

lemma same_entries_latest:
  "same_entries l l' \<Longrightarrow> build_latest_disposition_map l = build_latest_disposition_map l'"
  by (rule ext) (simp add: build_latest_disposition_map_at same_entries_def)

lemma same_entries_denied:
  "same_entries l l' \<Longrightarrow> build_denied_via_adjudication_set l = build_denied_via_adjudication_set l'"
  by (auto simp: build_denied_mem same_entries_def)

lemma same_entries_refl [simp, intro]: "same_entries l l"
  by (simp add: same_entries_def)

lemma same_entries_filter: "same_entries l l' \<Longrightarrow>
    filter (\<lambda>e. le_claim_ref e = r) l = filter (\<lambda>e. le_claim_ref e = r) l'"
  by (simp add: same_entries_def)

section \<open>Reads with a cutoff before a growth\<close>

lemma cutoff_Some [simp]: "cutoff (Some T) t \<longleftrightarrow> t \<le> T" "cutoff None t"
  by (simp_all add: cutoff_def)

lemma line_of_grows:
  assumes "grows now d d'" "T < now"
  shows "line_of d' a s p (Some T) = line_of d a s p (Some T)"
  using assms by (fastforce simp: grows_def appended_def line_of_def filter_empty_conv)

lemma ledger_slice_grows:
  assumes "grows now d d'" "T < now"
  shows "ledger_slice d' a refs (Some T) = ledger_slice d a refs (Some T)"
proof -
  have "ledger_of_chunk d' a [r] (Some T) = ledger_of_chunk d a [r] (Some T)" for r
    using assms by (fastforce simp: grows_def appended_def ledger_of_chunk_def filter_empty_conv)
  then show ?thesis by (simp add: ledger_slice_def)
qed

lemma filter_assertions_of:
  "filter (\<lambda>x. va_asserted_at x \<le> T) (assertions_of d a r) =
     sort_key va_asserted_at (filter (\<lambda>x. va_agent_id x = a \<and> va_target_claim x = r \<and> va_asserted_at x \<le> T)
       (db_assertions d))"
  by (simp add: assertions_of_def sort_key_filter)

lemma active_bound_grows:
  assumes "grows now d d'" "T < now"
  shows "active_bound_at (assertions_of d' a r) T = active_bound_at (assertions_of d a r) T"
proof -
  obtain as where as: "db_assertions d' = db_assertions d @ as" "\<forall>x \<in> set as. va_asserted_at x = now"
    using assms(1) by (auto simp: grows_def appended_def)
  have "filter (\<lambda>x. va_agent_id x = a \<and> va_target_claim x = r \<and> va_asserted_at x \<le> T) as = []"
    using as(2) assms(2) by (auto simp: filter_empty_conv)
  then have "filter (\<lambda>x. va_asserted_at x \<le> T) (assertions_of d' a r)
      = filter (\<lambda>x. va_asserted_at x \<le> T) (assertions_of d a r)"
    by (simp add: filter_assertions_of as(1))
  then show ?thesis
    using active_bound_at_visible[of "assertions_of d' a r" T] active_bound_at_visible[of "assertions_of d a r" T]
    by simp
qed

section \<open>Keys of a line\<close>

lemma distinct_refs_line:
  assumes "db_wf d"
  shows "distinct (map cl_ref (line_of d a s p T))"
proof -
  have "mset (map cl_ref (sort_key k xs)) = mset (map cl_ref xs)" for k :: "claim \<Rightarrow> instant" and xs
    by simp
  then have "distinct (map cl_ref (sort_key k xs)) = distinct (map cl_ref xs)"
    for k :: "claim \<Rightarrow> instant" and xs
    by (rule mset_eq_imp_distinct_iff)
  then show ?thesis
    using assms by (simp add: line_of_def db_wf_def distinct_map_filter)
qed

section \<open>The reads of the adapter\<close>

context persistence
begin

lemma read_ledger_one:
  assumes "pp_load_ledger_for_claims P w a [r] T = Inr es"
  shows "es = ledger_of_chunk (disk w) a [r] T"
proof -
  have *: "filter (\<lambda>e. le_claim_ref e = r) es = ledger_of_chunk (disk w) a [r] T" "le_claim_ref ` set es \<subseteq> {r}"
    using read_ledger_for[OF assms] by auto
  from *(2) have "filter (\<lambda>e. le_claim_ref e = r) es = es" by (intro filter_True) auto
  with *(1) show ?thesis by simp
qed

lemma read_latest:
  assumes "pp_load_ledger_for_claims P w a [r] None = Inr es"
  shows "latest_disposition_from_ledger es r = latest_in (disk w) a r"
  using read_ledger_one[OF assms] by (simp add: latest_in_def)

lemma read_slice:
  assumes "pp_load_ledger_for_claims P w a refs T = Inr es" "distinct refs"
  shows "same_entries es (ledger_slice (disk w) a refs T)"
  unfolding same_entries_def
proof
  fix r
  show "filter (\<lambda>e. le_claim_ref e = r) es = filter (\<lambda>e. le_claim_ref e = r) (ledger_slice (disk w) a refs T)"
    using read_ledger_for[OF assms] assms(2)
    by (auto simp: filter_ledger_slice filter_empty_conv)
qed

text \<open>The loop that appends ledger entries.\<close>

lemma foreach_ledger:
  "tx_foreach (\<lambda>e. tx_map_err Persistence (pp_append_ledger_entry P e)) es t = (Inr u, t') \<Longrightarrow>
     work t' = (work t)\<lparr>db_ledger := db_ledger (work t) @ es\<rparr>"
proof (induction es arbitrary: t)
  case (Cons e es)
  then obtain t1 where "pp_append_ledger_entry P e t = (Inr (), t1)"
    "tx_foreach (\<lambda>e. tx_map_err Persistence (pp_append_ledger_entry P e)) es t1 = (Inr u, t')"
    by (auto simp: tx_bind_Inr_iff)
  then show ?case
    using Cons.IH append_ledger_ok by (simp add: add_ledger_def)
qed (simp add: tx_return_def)

end

end
