(* ===== verification/Adjudication_Facts.thy ===== *)
theory Adjudication_Facts
  imports Adjudication Store_Facts
begin

text \<open>What a submitted verdict and the sweep do to the store, for every adapter: the exact rows of
  each verdict, the branches that leave the store alone, the at-most-once application, the
  recovery of expired and orphaned challengers.\<close>

section \<open>The rows of a verdict\<close>

definition bound_rows ::
    "(nat \<Rightarrow> uuid) \<Rightarrow> agent_id \<Rightarrow> claim_ref \<Rightarrow> claim_ref \<Rightarrow> instant \<Rightarrow> instant \<Rightarrow> claim_edge list \<Rightarrow> string
       \<Rightarrow> ledger_entry list" where
  "bound_rows ids a target overturning bound_at now edges verdict =
     oracle_supersession_entry (ids 1) a target overturning bound_at verdict now
     # dependent_flags ids 2 a target overturning now (dependents_of target edges)"

definition verdict_ledger ::
    "(nat \<Rightarrow> uuid) \<Rightarrow> adjudication_verdict \<Rightarrow> provenance_label \<Rightarrow> agent_id \<Rightarrow> claim_ref \<Rightarrow> claim_ref \<Rightarrow> instant
       \<Rightarrow> instant \<Rightarrow> claim_edge list \<Rightarrow> claim_edge list \<Rightarrow> ledger_entry list" where
  "verdict_ledger ids verdict evidence a challenger incumbent now bound_at inc_edges ch_edges =
     (case verdict of
        Affirm \<Rightarrow> bound_rows ids a incumbent challenger bound_at now inc_edges ''affirm''
          @ [affirm_entry (ids (2 + length (dependents_of incumbent inc_edges))) a challenger evidence now]
      | Deny \<Rightarrow> bound_rows ids a challenger incumbent now now ch_edges ''deny''
      | V_Unknown \<Rightarrow> [abstain_entry (ids 0) a challenger now, abstain_entry (ids 1) a incumbent now])"

definition verdict_assertions ::
    "(nat \<Rightarrow> uuid) \<Rightarrow> adjudication_verdict \<Rightarrow> agent_id \<Rightarrow> claim_ref \<Rightarrow> claim_ref \<Rightarrow> instant
       \<Rightarrow> instant \<Rightarrow> date_granularity option \<Rightarrow> validity_assertion list" where
  "verdict_assertions ids verdict a challenger incumbent now bound_at gran =
     (case verdict of
        Affirm \<Rightarrow> [supersession_assertion (ids 0) a incumbent bound_at gran now]
      | Deny \<Rightarrow> [supersession_assertion (ids 0) a challenger now None now]
      | V_Unknown \<Rightarrow> [])"

lemma dependent_flags_mem:
  "e \<in> set (dependent_flags ids k a p ov now xs) \<Longrightarrow>
     le_recorded_at e = now \<and> le_agent_id e = a \<and> le_disposition e = PendingReview \<and> le_claim_ref e \<in> set xs"
  by (induction ids k a p ov now xs rule: dependent_flags.induct) (auto simp: dependent_flag_def)

lemma entry_simps [simp]:
  "le_recorded_at (oracle_supersession_entry i a t ov b v now) = now"
  "le_agent_id (oracle_supersession_entry i a t ov b v now) = a"
  "le_claim_ref (oracle_supersession_entry i a t ov b v now) = t"
  "le_disposition (oracle_supersession_entry i a t ov b v now) = Superseded"
  "le_recorded_at (affirm_entry i a c ev now) = now" "le_agent_id (affirm_entry i a c ev now) = a"
  "le_claim_ref (affirm_entry i a c ev now) = c" "le_disposition (affirm_entry i a c ev now) = CommittedCheap"
  "le_recorded_at (abstain_entry i a c now) = now" "le_agent_id (abstain_entry i a c now) = a"
  "le_claim_ref (abstain_entry i a c now) = c" "le_disposition (abstain_entry i a c now) = Contested"
  by (simp_all add: oracle_supersession_entry_def affirm_entry_def abstain_entry_def)

lemma entry_simps_sweep [simp]:
  "le_recorded_at (lazy_expiry_entry i row h x now) = now" "le_agent_id (lazy_expiry_entry i row h x now) = pa_agent_id row"
  "le_claim_ref (lazy_expiry_entry i row h x now) = pa_challenger row"
  "le_disposition (lazy_expiry_entry i row h x now) = Contested"
  "le_recorded_at (swept_entry i row now) = now" "le_agent_id (swept_entry i row now) = pa_agent_id row"
  "le_claim_ref (swept_entry i row now) = pa_challenger row" "le_disposition (swept_entry i row now) = Contested"
  "le_recorded_at (orphan_entry i orph now) = now" "le_agent_id (orphan_entry i orph now) = or_agent_id orph"
  "le_claim_ref (orphan_entry i orph now) = or_challenger orph" "le_disposition (orphan_entry i orph now) = Contested"
  by (simp_all add: lazy_expiry_entry_def swept_entry_def orphan_entry_def)

lemma verdict_ledger_now:
  "e \<in> set (verdict_ledger ids v ev a ch inc now b ie ce) \<Longrightarrow> le_recorded_at e = now"
  by (cases v) (auto simp: verdict_ledger_def bound_rows_def dest: dependent_flags_mem)

text \<open>Whatever the verdict, the last entry of the challenger is not \<^verbatim>\<open>QueuedForAdjudication\<close>.\<close>

lemma verdict_ledger_not_queued:
  "e \<in> set (verdict_ledger ids v ev a ch inc now b ie ce) \<Longrightarrow> le_disposition e \<noteq> QueuedForAdjudication"
  by (cases v) (auto simp: verdict_ledger_def bound_rows_def dest: dependent_flags_mem)

lemma verdict_ledger_challenger:
  "\<exists>e \<in> set (verdict_ledger ids v ev a ch inc now b ie ce). le_agent_id e = a \<and> le_claim_ref e = ch"
  by (cases v) (auto simp: verdict_ledger_def bound_rows_def)

section \<open>What a sweep may change\<close>

definition unqueued :: "db \<Rightarrow> agent_id \<times> claim_ref \<Rightarrow> bool" where
  "unqueued d k = (latest_in d (fst k) (snd k) \<noteq> Some QueuedForAdjudication)"

definition row_key :: "pending_row \<Rightarrow> agent_id \<times> claim_ref" where
  "row_key r = (pa_agent_id r, pa_challenger r)"

text \<open>Only \<^verbatim>\<open>Contested\<close> entries are added, and a pending row at most stops being pending.\<close>

definition sweep_rel :: "instant \<Rightarrow> db \<Rightarrow> db \<Rightarrow> bool" where
  "sweep_rel now d d' =
     (db_claims d' = db_claims d
      \<and> (\<exists>es. db_ledger d' = db_ledger d @ es
             \<and> (\<forall>e \<in> set es. le_disposition e = Contested \<and> le_recorded_at e = now))
      \<and> (\<forall>r \<in> set (db_pending d'). pa_status r = ''pending'' \<longrightarrow> r \<in> set (db_pending d)))"

lemma sweep_rel_refl [simp, intro]: "sweep_rel now d d"
  by (simp add: sweep_rel_def)

lemma sweep_rel_trans: "sweep_rel now d d' \<Longrightarrow> sweep_rel now d' d'' \<Longrightarrow> sweep_rel now d d''"
  unfolding sweep_rel_def by (elim conjE exE, intro conjI) (auto intro: exI)

lemma sweep_rel_until: "sweep_rel now d d' \<Longrightarrow> ledger_until now d \<Longrightarrow> ledger_until now d'"
  by (auto simp: sweep_rel_def ledger_until_def)

lemma sweep_rel_unqueued:
  assumes "sweep_rel now d d'" "ledger_until now d" "unqueued d k"
  shows "unqueued d' k"
proof -
  obtain es where es: "db_ledger d' = db_ledger d @ es"
    "\<forall>e \<in> set es. le_disposition e = Contested \<and> le_recorded_at e = now"
    using assms(1) by (auto simp: sweep_rel_def)
  let ?mine = "filter (\<lambda>e. le_agent_id e = fst k \<and> le_claim_ref e = snd k) es"
  have "le_disposition (last ?mine) = Contested" if "?mine \<noteq> []"
    using last_in_set[OF that] es(2) by simp
  then show ?thesis
    using latest_in_append[of now d es d' "fst k" "snd k"] es assms(2,3)
    by (auto simp: unqueued_def Let_def)
qed

lemma sweep_rel_expired:
  "sweep_rel now d d' \<Longrightarrow> r \<in> set (expired_of d' now) \<Longrightarrow> r \<in> set (expired_of d now)"
  by (auto simp: sweep_rel_def expired_of_def)

lemma sweep_rel_orphans:
  assumes "sweep_rel now d d'" "db_pending d' = db_pending d"
  shows "orphans_of d' \<subseteq> orphans_of d"
proof -
  have "e \<in> set (db_ledger d) \<and> orphan_entry_of d e" if "e \<in> set (db_ledger d')" "orphan_entry_of d' e" for e
    using assms that by (auto simp: sweep_rel_def orphan_entry_of_def claim_of_def)
  then show ?thesis by (auto simp: orphans_of_def)
qed

lemma latest_in_entry:
  assumes "latest_in d a r = Some q"
  shows "\<exists>e \<in> set (db_ledger d). le_agent_id e = a \<and> le_claim_ref e = r \<and> le_disposition e = q
    \<and> (\<forall>x \<in> set (db_ledger d). le_claim_ref x = r \<and> le_agent_id x = a \<longrightarrow> le_recorded_at x \<le> le_recorded_at e)"
proof -
  obtain m where m: "max_by_time (filter (\<lambda>e. le_claim_ref e = r) (ledger_of_chunk d a [r] None)) = Some m"
    "le_disposition m = q"
    using assms by (auto simp: latest_in_def latest_disposition_from_ledger_def)
  then show ?thesis
    using max_by_time_Some[OF m(1)] by (auto simp: ledger_of_chunk_def)
qed

text \<open>An orphan stays one under \<^verbatim>\<open>sweep_rel\<close> until it is no longer queued.\<close>

lemma sweep_rel_orphan_kept:
  assumes "sweep_rel now d d'" "k \<in> orphans_of d" "\<not> unqueued d' k"
  shows "k \<in> orphans_of d'"
proof -
  have "latest_in d' (fst k) (snd k) = Some QueuedForAdjudication"
    using assms(3) by (simp add: unqueued_def)
  from latest_in_entry[OF this] obtain e where e: "e \<in> set (db_ledger d')"
    "le_agent_id e = fst k" "le_claim_ref e = snd k" "le_disposition e = QueuedForAdjudication"
    "\<forall>x \<in> set (db_ledger d'). le_claim_ref x = snd k \<and> le_agent_id x = fst k
       \<longrightarrow> le_recorded_at x \<le> le_recorded_at e"
    by blast
  obtain e0 where "orphan_entry_of d e0" "k = (le_agent_id e0, le_claim_ref e0)"
    using assms(2) by (auto simp: orphans_of_def)
  then have "claim_of d (fst k) (snd k) \<noteq> None"
    "\<forall>r \<in> set (db_pending d). \<not> (pa_challenger r = snd k \<and> pa_agent_id r = fst k \<and> pa_status r = ''pending'')"
    by (simp_all add: orphan_entry_of_def)
  then have "claim_of d' (fst k) (snd k) \<noteq> None"
    "\<forall>r \<in> set (db_pending d'). \<not> (pa_challenger r = snd k \<and> pa_agent_id r = fst k \<and> pa_status r = ''pending'')"
    using assms(1) by (auto simp: sweep_rel_def claim_of_def)
  then have "orphan_entry_of d' e"
    unfolding orphan_entry_of_def using e by simp
  moreover have "k = (le_agent_id e, le_claim_ref e)" using e by simp
  moreover note e(1)
  ultimately show ?thesis unfolding orphans_of_def by blast
qed

lemma sweep_rel_add_ledger:
  "le_disposition e = Contested \<Longrightarrow> le_recorded_at e = now \<Longrightarrow> sweep_rel now d (add_ledger e d)"
  by (auto simp: sweep_rel_def add_ledger_def)

lemma sweep_rel_expire: "sweep_rel now d (set_pending_status ''expired'' h d)"
  by (auto simp: sweep_rel_def set_pending_status_def)

lemma unqueued_after_entry:
  assumes "ledger_until now d" "le_disposition e \<noteq> QueuedForAdjudication" "le_recorded_at e = now"
  shows "unqueued (add_ledger e d) (le_agent_id e, le_claim_ref e)"
  using latest_in_append[of now d "[e]" "add_ledger e d" "le_agent_id e" "le_claim_ref e"] assms
  by (simp add: unqueued_def add_ledger_def)

lemma unqueued_set_status [simp]: "unqueued (set_pending_status s h d) k = unqueued d k"
  by (simp add: unqueued_def set_pending_status_def latest_in_def ledger_of_chunk_def)

text \<open>The store after a verdict: its rows, the pending row resolved.\<close>

definition verdict_db ::
    "engine_config \<Rightarrow> (nat \<Rightarrow> uuid) \<Rightarrow> pending_row \<Rightarrow> uuid \<Rightarrow> adjudication_response \<Rightarrow> claim \<Rightarrow> instant \<Rightarrow> db \<Rightarrow> db" where
  "verdict_db cfg ids row handle resp c now d =
     (let (bound_at, gran) = affirm_bound cfg c now; a = pa_agent_id row; ch = pa_challenger row; inc = pa_incumbent row
      in set_pending_status ''resolved'' handle (d\<lparr>
           db_assertions := db_assertions d @ verdict_assertions ids (ap_verdict resp) a ch inc now bound_at gran,
           db_ledger := db_ledger d @ verdict_ledger ids (ap_verdict resp) (ap_evidence_provenance resp) a ch inc
             now bound_at (edges_of d a inc) (edges_of d a ch)\<rparr>))"

lemma verdict_db_ledger:
  "db_ledger (verdict_db cfg ids row handle resp c now d) = db_ledger d @
     verdict_ledger ids (ap_verdict resp) (ap_evidence_provenance resp) (pa_agent_id row) (pa_challenger row)
       (pa_incumbent row) now (fst (affirm_bound cfg c now)) (edges_of d (pa_agent_id row) (pa_incumbent row))
       (edges_of d (pa_agent_id row) (pa_challenger row))"
  by (simp add: verdict_db_def set_pending_status_def Let_def split: prod.split)

lemma verdict_db_unqueued:
  assumes "ledger_until now d"
  shows "unqueued (verdict_db cfg ids row handle resp c now d) (row_key row)"
proof -
  let ?es = "verdict_ledger ids (ap_verdict resp) (ap_evidence_provenance resp) (pa_agent_id row) (pa_challenger row)
       (pa_incumbent row) now (fst (affirm_bound cfg c now)) (edges_of d (pa_agent_id row) (pa_incumbent row))
       (edges_of d (pa_agent_id row) (pa_challenger row))"
  let ?mine = "filter (\<lambda>e. le_agent_id e = pa_agent_id row \<and> le_claim_ref e = pa_challenger row) ?es"
  have ne: "?mine \<noteq> []"
    using verdict_ledger_challenger[of ids "ap_verdict resp"] by (fastforce simp: filter_empty_conv)
  have "le_disposition (last ?mine) \<noteq> QueuedForAdjudication"
    using last_in_set[OF ne] verdict_ledger_not_queued by auto
  then show ?thesis
    using latest_in_append[OF assms _ verdict_db_ledger] verdict_ledger_now ne
    by (auto simp: unqueued_def row_key_def Let_def)
qed

lemma verdict_db_pending:
  "pending_of d handle = Some row \<Longrightarrow>
     pending_of (verdict_db cfg ids row handle resp c now d) handle = Some (row\<lparr>pa_status := ''resolved''\<rparr>)"
proof -
  have "find (\<lambda>r. pa_handle_id r = handle) (map (\<lambda>r. if pa_handle_id r = handle then r\<lparr>pa_status := x\<rparr> else r) rs)
      = map_option (\<lambda>r. r\<lparr>pa_status := x\<rparr>) (find (\<lambda>r. pa_handle_id r = handle) rs)" for x and rs :: "pending_row list"
    by (induction rs) auto
  moreover assume "pending_of d handle = Some row"
  ultimately show ?thesis
    by (simp add: verdict_db_def set_pending_status_def pending_of_def Let_def split: prod.split)
qed

section \<open>Steps on the open transaction\<close>

context persistence
begin

lemma bound_claim_ok:
  assumes "bound_claim P ids a target ov bound_at gran now edges v t = (Inr u, t')"
  shows "work t' = (work t)\<lparr>
    db_assertions := db_assertions (work t) @ [supersession_assertion (ids 0) a target bound_at gran now],
    db_ledger := db_ledger (work t) @ bound_rows ids a target ov bound_at now edges v\<rparr>"
proof -
  obtain t1 t2 where
    1: "pp_append_validity_assertion P (supersession_assertion (ids 0) a target bound_at gran now) t = (Inr (), t1)" and
    2: "pp_append_ledger_entry P (oracle_supersession_entry (ids 1) a target ov bound_at v now) t1 = (Inr (), t2)" and
    3: "tx_foreach (\<lambda>e. tx_map_err Persistence (pp_append_ledger_entry P e))
       (dependent_flags ids 2 a target ov now (dependents_of target edges)) t2 = (Inr u, t')"
    using assms unfolding bound_claim_def by (auto simp: tx_bind_Inr_iff)
  show ?thesis
    using append_assertion_ok[OF 1] append_ledger_ok[OF 2] foreach_ledger[OF 3]
    by (simp add: add_assertion_def add_ledger_def bound_rows_def)
qed

lemma apply_verdict_ok:
  assumes "apply_verdict_within_txn P ids v ev a ch inc now bound_at gran ie ce t = (Inr u, t')"
  shows "work t' = (work t)\<lparr>
    db_assertions := db_assertions (work t) @ verdict_assertions ids v a ch inc now bound_at gran,
    db_ledger := db_ledger (work t) @ verdict_ledger ids v ev a ch inc now bound_at ie ce\<rparr>"
proof (cases v)
  case Affirm
  then obtain t1 where
    1: "bound_claim P ids a inc ch bound_at gran now ie ''affirm'' t = (Inr (), t1)" and
    2: "pp_append_ledger_entry P
      (affirm_entry (ids (2 + length (dependents_of inc ie))) a ch ev now) t1 = (Inr u, t')"
    using assms unfolding apply_verdict_within_txn_def by (auto simp: tx_bind_Inr_iff)
  show ?thesis
    using bound_claim_ok[OF 1] append_ledger_ok[OF 2] Affirm
    by (simp add: verdict_assertions_def verdict_ledger_def add_ledger_def)
next
  case Deny
  then show ?thesis
    using assms bound_claim_ok by (simp add: apply_verdict_within_txn_def verdict_assertions_def verdict_ledger_def)
next
  case V_Unknown
  then obtain t1 where
    1: "pp_append_ledger_entry P (abstain_entry (ids 0) a ch now) t = (Inr (), t1)" and
    2: "pp_append_ledger_entry P (abstain_entry (ids 1) a inc now) t1 = (Inr u, t')"
    using assms unfolding apply_verdict_within_txn_def by (auto simp: tx_bind_Inr_iff)
  show ?thesis
    using append_ledger_ok[OF 1] append_ledger_ok[OF 2] V_Unknown
    by (simp add: verdict_assertions_def verdict_ledger_def add_ledger_def)
qed

lemma bound_claim_grows [tx_grow]: "tx_grows work now (bound_claim P ids a target ov bound_at gran now edges v)"
  unfolding bound_claim_def
  by (intro tx_grow) (auto simp: supersession_assertion_def dest: dependent_flags_mem)

lemma apply_verdict_grows [tx_grow]:
  "tx_grows work now (apply_verdict_within_txn P ids v ev a ch inc now bound_at gran ie ce)"
  unfolding apply_verdict_within_txn_def
  by (cases v) (auto intro!: tx_grow)

lemma single_entry_ok:
  assumes "tx_map_err Persistence (pp_append_ledger_entry P e) t = (Inr u, t')"
  shows "work t' = add_ledger e (work t)"
  using assms append_ledger_ok by simp

text \<open>One ledger entry in a transaction of its own.\<close>

lemma in_txn_entry_ok:
  assumes "in_txn P a (tx_map_err Persistence (pp_append_ledger_entry P e)) w = (Inr u, w')"
  shows "disk w' = add_ledger e (disk w)"
  using in_txn_ok[OF assms] single_entry_ok by metis

lemma in_txn_entry_grows:
  assumes "le_recorded_at e = now"
  shows "grows now (disk w) (disk (snd (in_txn P a (tx_map_err Persistence (pp_append_ledger_entry P e)) w)))"
  using assms by (intro in_txn_grows tx_grow)

end

section \<open>Submitting a verdict\<close>

context engine_store
begin

text \<open>The queue writes after a transaction.\<close>

lemma mark_expired_ledger:
  "db_ledger (disk (snd (pq_mark_expired Q h w))) = db_ledger (disk w)"
proof -
  obtain r w' where "pq_mark_expired Q h w = (r, w')" by (cases "pq_mark_expired Q h w")
  then show ?thesis
    using mark_expired_ok mark_expired_err by (cases r) (fastforce simp: set_pending_status_def)+
qed

lemma submit_verdict_cases:
  assumes "submit_verdict P Q cfg ids row handle resp ie ce c now w = (r, w')"
  obtains (Failed) e where "r = Inl e" "disk w' = disk w"
    | (Applied) w1 where
      "disk w1 = (disk w)\<lparr>
         db_assertions := db_assertions (disk w) @ verdict_assertions ids (ap_verdict resp) (pa_agent_id row)
           (pa_challenger row) (pa_incumbent row) now (fst (affirm_bound cfg c now)) (snd (affirm_bound cfg c now)),
         db_ledger := db_ledger (disk w) @ verdict_ledger ids (ap_verdict resp) (ap_evidence_provenance resp)
           (pa_agent_id row) (pa_challenger row) (pa_incumbent row) now (fst (affirm_bound cfg c now)) ie ce\<rparr>"
      "(disk w' = disk w1 \<and> (\<exists>e. r = Inl (PendingStore e)))
       \<or> (disk w' = set_pending_status ''resolved'' handle (disk w1)
          \<and> r = Inr \<lparr>ao_handle_id = handle, ao_disposition = verdict_disposition (ap_verdict resp),
                     ao_claim_ref = pa_challenger row\<rparr>)"
proof -
  let ?body = "apply_verdict_within_txn P ids (ap_verdict resp) (ap_evidence_provenance resp)
      (pa_agent_id row) (pa_challenger row) (pa_incumbent row) now (fst (affirm_bound cfg c now))
      (snd (affirm_bound cfg c now)) ie ce"
  obtain r1 w1 where t: "in_txn P (pa_agent_id row) ?body w = (r1, w1)"
    by (cases "in_txn P (pa_agent_id row) ?body w")
  show ?thesis
  proof (cases r1)
    case (Inl e)
    then have "r = Inl e" "w' = w1"
      using assms t by (auto simp: submit_verdict_def split: prod.splits)
    then show ?thesis using in_txn_error t Inl by (intro Failed) auto
  next
    case (Inr u)
    then obtain t0 t1 where tt: "work t0 = disk w" "?body t0 = (Inr u, t1)" "disk w1 = work t1"
      using t by (metis in_txn_ok)
    obtain r2 w2 where m: "pq_mark_resolved Q handle w1 = (r2, w2)" by (cases "pq_mark_resolved Q handle w1")
    have r: "w' = w2" "case r2 of Inl e \<Rightarrow> r = Inl (PendingStore e)
        | Inr _ \<Rightarrow> r = Inr \<lparr>ao_handle_id = handle, ao_disposition = verdict_disposition (ap_verdict resp),
                     ao_claim_ref = pa_challenger row\<rparr>"
      using assms t m Inr by (cases r2; force simp: submit_verdict_def split: prod.splits)+
    show ?thesis
    proof (rule Applied)
      show "disk w1 = (disk w)\<lparr>
         db_assertions := db_assertions (disk w) @ verdict_assertions ids (ap_verdict resp) (pa_agent_id row)
           (pa_challenger row) (pa_incumbent row) now (fst (affirm_bound cfg c now)) (snd (affirm_bound cfg c now)),
         db_ledger := db_ledger (disk w) @ verdict_ledger ids (ap_verdict resp) (ap_evidence_provenance resp)
           (pa_agent_id row) (pa_challenger row) (pa_incumbent row) now (fst (affirm_bound cfg c now)) ie ce\<rparr>"
        using apply_verdict_ok[OF tt(2)] tt(1,3) by simp
      show "(disk w' = disk w1 \<and> (\<exists>e. r = Inl (PendingStore e)))
       \<or> (disk w' = set_pending_status ''resolved'' handle (disk w1)
          \<and> r = Inr \<lparr>ao_handle_id = handle, ao_disposition = verdict_disposition (ap_verdict resp),
                     ao_claim_ref = pa_challenger row\<rparr>)"
        using r m mark_resolved_ok mark_resolved_err by (cases r2) auto
    qed
  qed
qed

lemma submit_queued_cases:
  assumes "submit_queued P Q cfg ids row handle resp now w = (r, w')"
  obtains (Untouched) e where "r = Inl e" "w' = w"
    | (Verdict) c where
      "latest_in (disk w) (pa_agent_id row) (pa_challenger row) = Some QueuedForAdjudication"
      "claim_of (disk w) (pa_agent_id row) (pa_challenger row) = Some c"
      "submit_verdict P Q cfg ids row handle resp (edges_of (disk w) (pa_agent_id row) (pa_incumbent row))
         (edges_of (disk w) (pa_agent_id row) (pa_challenger row)) c now w = (r, w')"
proof (cases "pp_load_ledger_for_claims P w (pa_agent_id row) [pa_challenger row] None")
  case (Inl e)
  then show ?thesis using assms by (intro Untouched) (auto simp: submit_queued_def Let_def)
next
  case (Inr ledger)
  note q = read_latest[OF Inr]
  show ?thesis
  proof (cases "latest_in (disk w) (pa_agent_id row) (pa_challenger row) = Some QueuedForAdjudication")
    case False
    then show ?thesis using assms Inr q by (intro Untouched) (auto simp: submit_queued_def Let_def)
  next
    case True
    show ?thesis
    proof (cases "\<exists>ie ce c. pp_load_edges_for P w (pa_agent_id row) (pa_incumbent row) = Inr ie
        \<and> pp_load_edges_for P w (pa_agent_id row) (pa_challenger row) = Inr ce
        \<and> pp_load_claim P w (pa_agent_id row) (pa_challenger row) = Inr (Some c)")
      case False
      then have "(\<exists>e. r = Inl e) \<and> w' = w"
        using assms Inr q True by (auto simp: submit_queued_def Let_def split: sum.splits option.splits)
      then show ?thesis by (auto intro: Untouched)
    next
      case good: True
      then obtain ie ce c where g: "pp_load_edges_for P w (pa_agent_id row) (pa_incumbent row) = Inr ie"
        "pp_load_edges_for P w (pa_agent_id row) (pa_challenger row) = Inr ce"
        "pp_load_claim P w (pa_agent_id row) (pa_challenger row) = Inr (Some c)"
        by blast
      then show ?thesis
        using assms Inr q True read_edges read_claim
        by (intro Verdict[of c]) (auto simp: submit_queued_def Let_def)
    qed
  qed
qed

lemma expire_lazily_cases:
  assumes "expire_lazily P Q ids row handle x now w = (r, w')"
  shows "\<exists>e. r = Inl e"
    and "disk w' = disk w \<or>
      (latest_in (disk w) (pa_agent_id row) (pa_challenger row) = Some QueuedForAdjudication
       \<and> (\<exists>w1. disk w1 = add_ledger (lazy_expiry_entry (ids 0) row handle x now) (disk w)
              \<and> w' = snd (pq_mark_expired Q handle w1)))"
proof -
  let ?body = "tx_map_err Persistence (pp_append_ledger_entry P (lazy_expiry_entry (ids 0) row handle x now))"
  obtain r1 w1 where t: "in_txn P (pa_agent_id row) ?body w = (r1, w1)"
    by (cases "in_txn P (pa_agent_id row) ?body w")
  show "\<exists>e. r = Inl e"
    using assms t by (auto simp: expire_lazily_def split: sum.splits if_splits)
  show "disk w' = disk w \<or>
      (latest_in (disk w) (pa_agent_id row) (pa_challenger row) = Some QueuedForAdjudication
       \<and> (\<exists>w1. disk w1 = add_ledger (lazy_expiry_entry (ids 0) row handle x now) (disk w)
              \<and> w' = snd (pq_mark_expired Q handle w1)))"
  proof (cases "pp_load_ledger_for_claims P w (pa_agent_id row) [pa_challenger row] None")
    case (Inl e)
    then show ?thesis using assms by (auto simp: expire_lazily_def)
  next
    case (Inr ledger)
    show ?thesis
    proof (cases r1)
      case (Inl e)
      then show ?thesis using assms t Inr in_txn_error[of _ ?body w e w1]
        by (auto simp: expire_lazily_def split: if_splits)
    next
      case (Inr u)
      then have "disk w1 = add_ledger (lazy_expiry_entry (ids 0) row handle x now) (disk w)"
        using t in_txn_entry_ok by metis
      then show ?thesis using assms t Inr \<open>pp_load_ledger_for_claims P w (pa_agent_id row) [pa_challenger row] None = Inr ledger\<close>
          read_latest[of w "pa_agent_id row" "pa_challenger row" ledger]
        by (auto simp: expire_lazily_def split: if_splits)
    qed
  qed
qed

lemma submit_execute_cases:
  assumes "submit_execute P Q cfg ids handle resp now w = (r, w')"
  obtains (Untouched) e where "r = Inl e" "w' = w"
    | (Expired) row x where "pending_of (disk w) handle = Some row" "pa_expires_at row = Some x" "x \<le> now"
      "expire_lazily P Q ids row handle x now w = (r, w')"
    | (Queued) row where "pending_of (disk w) handle = Some row"
      "case pa_expires_at row of Some x \<Rightarrow> now < x | None \<Rightarrow> True"
      "submit_queued P Q cfg ids row handle resp now w = (r, w')"
proof (cases "pq_get_pending Q w handle")
  case (Inl e)
  then show ?thesis using assms by (intro Untouched) (auto simp: submit_execute_def)
next
  case (Inr ro)
  note p = read_pending[OF Inr]
  show ?thesis
  proof (cases ro)
    case None
    then show ?thesis using assms Inr by (intro Untouched) (auto simp: submit_execute_def)
  next
    case (Some row)
    show ?thesis
    proof (cases "\<exists>x. pa_expires_at row = Some x \<and> x \<le> now")
      case True
      then show ?thesis using assms Inr Some p Expired by (auto simp: submit_execute_def)
    next
      case False
      then show ?thesis using assms Inr Some p
        by (intro Queued) (auto simp: submit_execute_def split: option.splits)
    qed
  qed
qed

lemma submit_grows: "grows now (disk w) (disk (snd (submit_execute P Q cfg ids handle resp now w)))"
proof -
  obtain r w' where e: "submit_execute P Q cfg ids handle resp now w = (r, w')"
    by (cases "submit_execute P Q cfg ids handle resp now w")
  have verdict: "grows now (disk w) (disk (snd (submit_verdict P Q cfg ids row handle resp ie ce c now w)))"
    for row ie ce c
  proof -
    let ?body = "apply_verdict_within_txn P ids (ap_verdict resp) (ap_evidence_provenance resp)
      (pa_agent_id row) (pa_challenger row) (pa_incumbent row) now (fst (affirm_bound cfg c now))
      (snd (affirm_bound cfg c now)) ie ce"
    obtain r1 w1 where t: "in_txn P (pa_agent_id row) ?body w = (r1, w1)"
      by (cases "in_txn P (pa_agent_id row) ?body w")
    have "grows now (disk w) (disk (snd (in_txn P (pa_agent_id row) ?body w)))"
      by (intro in_txn_grows apply_verdict_grows)
    then have "grows now (disk w) (disk w1)" using t by simp
    moreover have "grows now (disk w1) (disk (snd (pq_mark_resolved Q handle w1)))" by (rule mark_resolved_grows)
    ultimately show ?thesis
      using t by (auto simp: submit_verdict_def split: prod.splits sum.splits intro: grows_trans)
  qed
  from e have "grows now (disk w) (disk w')"
  proof (cases rule: submit_execute_cases)
    case (Expired row x)
    from expire_lazily_cases(2)[OF Expired(4)] show ?thesis
    proof (elim disjE conjE exE)
      fix w1
      assume w1: "disk w1 = add_ledger (lazy_expiry_entry (ids 0) row handle x now) (disk w)"
        "w' = snd (pq_mark_expired Q handle w1)"
      have "grows now (disk w) (disk w1)" unfolding w1(1) by (rule grows_add_ledger) simp
      then show ?thesis using mark_expired_grows[of now w1 handle] w1(2) by (blast intro: grows_trans)
    qed simp
  next
    case (Queued row)
    from Queued(3) show ?thesis
    proof (cases rule: submit_queued_cases)
      case (Verdict c)
      then show ?thesis using verdict by (metis snd_conv)
    qed simp
  qed simp
  then show ?thesis using e by simp
qed

lemma submit_success:
  assumes "submit_execute P Q cfg ids handle resp now w = (Inr out, w')"
  obtains row c where "pending_of (disk w) handle = Some row"
    "case pa_expires_at row of Some x \<Rightarrow> now < x | None \<Rightarrow> True"
    "\<not> unqueued (disk w) (row_key row)"
    "claim_of (disk w) (pa_agent_id row) (pa_challenger row) = Some c"
    "disk w' = verdict_db cfg ids row handle resp c now (disk w)"
    "out = \<lparr>ao_handle_id = handle, ao_disposition = verdict_disposition (ap_verdict resp),
            ao_claim_ref = pa_challenger row\<rparr>"
  using assms
proof (cases rule: submit_execute_cases)
  case (Expired row x)
  then show ?thesis using expire_lazily_cases(1)[OF Expired(4)] by auto
next
  case (Queued row)
  from Queued(3) show ?thesis
  proof (cases rule: submit_queued_cases)
    case (Verdict c)
    from Verdict(3) show ?thesis
    proof (cases rule: submit_verdict_cases)
      case (Applied w1)
      then show ?thesis
        using Queued Verdict that[of row c]
        by (auto simp: verdict_db_def Let_def unqueued_def row_key_def split: prod.splits)
    qed auto
  qed auto
qed auto

text \<open>A challenger that is not queued any more is never touched: its handle gives an error.\<close>

lemma submit_not_queued:
  assumes "submit_execute P Q cfg ids handle resp now w = (r, w')"
    and "\<And>row. pending_of (disk w) handle = Some row \<Longrightarrow>
      latest_in (disk w) (pa_agent_id row) (pa_challenger row) \<noteq> Some QueuedForAdjudication"
  shows "(\<exists>e. r = Inl e) \<and> disk w' = disk w"
  using assms(1)
proof (cases rule: submit_execute_cases)
  case (Expired row x)
  then show ?thesis using expire_lazily_cases[OF Expired(4)] assms(2) by blast
next
  case (Queued row)
  from Queued(3) show ?thesis
    using assms(2)[OF Queued(1)] by (cases rule: submit_queued_cases) auto
qed auto

section \<open>The sweep\<close>

lemma revert_expired_row_cases:
  assumes "revert_expired_row P Q i row now w = (r, w')"
  obtains (Failed) e where "r = Inl e" "disk w' = disk w"
    | (Skipped) "r = Inr False" "w' = w"
        "latest_in (disk w) (pa_agent_id row) (pa_challenger row) \<noteq> Some QueuedForAdjudication"
    | (Reverted) w1 where "disk w1 = add_ledger (swept_entry i row now) (disk w)"
        "(disk w' = disk w1 \<and> (\<exists>e. r = Inl e))
         \<or> (disk w' = set_pending_status ''expired'' (pa_handle_id row) (disk w1) \<and> r = Inr True)"
proof (cases "pp_load_ledger_for_claims P w (pa_agent_id row) [pa_challenger row] None")
  case (Inl e)
  then show ?thesis using assms by (intro Failed) (auto simp: revert_expired_row_def)
next
  case (Inr ledger)
  note q = read_latest[OF Inr]
  let ?body = "tx_map_err Persistence (pp_append_ledger_entry P (swept_entry i row now))"
  obtain r1 w1 where t: "in_txn P (pa_agent_id row) ?body w = (r1, w1)"
    by (cases "in_txn P (pa_agent_id row) ?body w")
  obtain r2 w2 where m: "pq_mark_expired Q (pa_handle_id row) w1 = (r2, w2)"
    by (cases "pq_mark_expired Q (pa_handle_id row) w1")
  show ?thesis
  proof (cases "latest_in (disk w) (pa_agent_id row) (pa_challenger row) = Some QueuedForAdjudication")
    case False
    then show ?thesis using assms Inr q by (intro Skipped) (auto simp: revert_expired_row_def)
  next
    case True
    show ?thesis
    proof (cases r1)
      case (Inl e)
      then show ?thesis using assms t True q \<open>_ = Inr ledger\<close> in_txn_error[of _ ?body w e w1]
        by (intro Failed) (auto simp: revert_expired_row_def)
    next
      case r1: (Inr u)
      have "disk w1 = add_ledger (swept_entry i row now) (disk w)"
        using t r1 in_txn_entry_ok by metis
      then show ?thesis
      proof (rule Reverted)
        show "(disk w' = disk w1 \<and> (\<exists>e. r = Inl e))
         \<or> (disk w' = set_pending_status ''expired'' (pa_handle_id row) (disk w1) \<and> r = Inr True)"
          using assms t True q Inr r1 m mark_expired_ok mark_expired_err
          by (cases r2) (auto simp: revert_expired_row_def)
      qed
    qed
  qed
qed

lemma revert_orphan_cases:
  assumes "revert_orphan P i orph now w = (r, w')"
  obtains (Failed) e where "r = Inl e" "disk w' = disk w"
    | (Skipped) "r = Inr False" "w' = w"
        "latest_in (disk w) (or_agent_id orph) (or_challenger orph) \<noteq> Some QueuedForAdjudication"
    | (Reverted) "r = Inr True" "disk w' = add_ledger (orphan_entry i orph now) (disk w)"
proof (cases "pp_load_ledger_for_claims P w (or_agent_id orph) [or_challenger orph] None")
  case (Inl e)
  then show ?thesis using assms by (intro Failed) (auto simp: revert_orphan_def)
next
  case (Inr ledger)
  note q = read_latest[OF Inr]
  let ?body = "tx_map_err Persistence (pp_append_ledger_entry P (orphan_entry i orph now))"
  obtain r1 w1 where t: "in_txn P (or_agent_id orph) ?body w = (r1, w1)"
    by (cases "in_txn P (or_agent_id orph) ?body w")
  show ?thesis
  proof (cases "latest_in (disk w) (or_agent_id orph) (or_challenger orph) = Some QueuedForAdjudication")
    case False
    then show ?thesis using assms Inr q by (intro Skipped) (auto simp: revert_orphan_def)
  next
    case True
    show ?thesis
    proof (cases r1)
      case (Inl e)
      then show ?thesis using assms t True q \<open>_ = Inr ledger\<close> in_txn_error[of _ ?body w e w1]
        by (intro Failed) (auto simp: revert_orphan_def)
    next
      case r1: (Inr u)
      have "disk w1 = add_ledger (orphan_entry i orph now) (disk w)"
        using t r1 in_txn_entry_ok by metis
      then show ?thesis using assms t True q Inr r1
        by (intro Reverted) (auto simp: revert_orphan_def)
    qed
  qed
qed

lemma revert_expired_row_grows: "grows now (disk w) (disk (snd (revert_expired_row P Q i row now w)))"
proof -
  obtain r w' where e: "revert_expired_row P Q i row now w = (r, w')"
    by (cases "revert_expired_row P Q i row now w")
  from e have "grows now (disk w) (disk w')"
  proof (cases rule: revert_expired_row_cases)
    case (Reverted w1)
    have "grows now (disk w) (disk w1)" unfolding Reverted(1) by (rule grows_add_ledger) simp
    from this grows_trans[OF this grows_set_pending_status] show ?thesis using Reverted(2) by auto
  qed auto
  then show ?thesis using e by simp
qed

lemma revert_orphan_grows: "grows now (disk w) (disk (snd (revert_orphan P i orph now w)))"
proof -
  obtain r w' where e: "revert_orphan P i orph now w = (r, w')" by (cases "revert_orphan P i orph now w")
  from e have "grows now (disk w) (disk w')"
    by (cases rule: revert_orphan_cases) (auto intro: grows_add_ledger)
  then show ?thesis using e by simp
qed

lemma sweep_loop_grows:
  assumes "\<And>i x w. grows now (disk w) (disk (snd (revert i x w)))"
  shows "grows now (disk w) (disk (snd (sweep_loop revert ids k xs n w)))"
proof (induction xs arbitrary: k n w)
  case (Cons x xs)
  obtain r w1 where r: "revert (ids k) x w = (r, w1)" by (cases "revert (ids k) x w")
  have g: "grows now (disk w) (disk w1)" using assms[of w "ids k" x] r by simp
  show ?case
  proof (cases r)
    case (Inr b)
    then show ?thesis using grows_trans[OF g Cons.IH] r by simp
  qed (use g r in simp)
qed simp

lemma sweep_grows:
  assumes "Qo \<in> {None, Some Q}"
  shows "grows now (disk w) (disk (snd (sweep_expired_adjudications P Qo ids now w)))"
proof -
  have 1: "grows now (disk v) (disk (snd (sweep_loop (\<lambda>i row. revert_expired_row P Q i row now) ids k xs n v)))" for k xs n v
    by (rule sweep_loop_grows) (rule revert_expired_row_grows)
  have 2: "grows now (disk v) (disk (snd (sweep_loop (\<lambda>i orph. revert_orphan P i orph now) ids k xs n v)))" for k xs n v
    by (rule sweep_loop_grows) (rule revert_orphan_grows)
  show ?thesis
  proof (cases "Qo = None \<or> (\<exists>e. pq_list_expired Q w now = Inl e)")
    case True
    then show ?thesis using assms by (auto simp: sweep_expired_adjudications_def)
  next
    case False
    then obtain rows where rows: "pq_list_expired Q w now = Inr rows" "Qo = Some Q"
      using assms by (cases "pq_list_expired Q w now") auto
    obtain r w1 where l1: "sweep_loop (\<lambda>i row. revert_expired_row P Q i row now) ids 0 rows 0 w = (r, w1)"
      by (cases "sweep_loop (\<lambda>i row. revert_expired_row P Q i row now) ids 0 rows 0 w")
    have g: "grows now (disk w) (disk w1)" using 1[of w 0 rows 0] l1 by simp
    show ?thesis
    proof (cases r)
      case (Inr n)
      then show ?thesis
        using rows l1 g grows_trans[OF g 2]
        by (cases "pq_list_queued_orphan_claims Q w1") (simp_all add: sweep_expired_adjudications_def)
    qed (use rows l1 g in \<open>simp add: sweep_expired_adjudications_def\<close>)
  qed
qed

text \<open>The loop: what every step keeps, the loop keeps; what every step achieves, the loop achieves
  for all elements; elements that need nothing leave the store alone.\<close>

lemma sweep_loop_rel:
  assumes "\<And>i x w r w1. revert i x w = (r, w1) \<Longrightarrow> R (disk w) (disk w1)"
    and "\<And>d. R d d" "\<And>d d' d''. R d d' \<Longrightarrow> R d' d'' \<Longrightarrow> R d d''"
    and "sweep_loop revert ids k xs n w = (r, w')"
  shows "R (disk w) (disk w')"
  using assms(4)
proof (induction xs arbitrary: k n w)
  case (Cons x xs)
  obtain r1 w1 where r: "revert (ids k) x w = (r1, w1)" by (cases "revert (ids k) x w")
  then have "R (disk w) (disk w1)" by (rule assms(1))
  then show ?case
    using Cons r assms(3) by (cases r1) auto
qed (use assms(2) in simp)

lemma sweep_loop_unqueues:
  assumes step: "\<And>i x w r w1. revert i x w = (r, w1) \<Longrightarrow> sweep_rel now (disk w) (disk w1)"
    and achieves: "\<And>i x w b w1. revert i x w = (Inr b, w1) \<Longrightarrow> ledger_until now (disk w) \<Longrightarrow> unqueued (disk w1) (key x)"
    and "sweep_loop revert ids k xs n w = (Inr m, w')" "ledger_until now (disk w)"
  shows "\<forall>x \<in> set xs. unqueued (disk w') (key x)"
  using assms(3,4)
proof (induction xs arbitrary: k n w)
  case (Cons x xs)
  obtain b w1 where r: "revert (ids k) x w = (Inr b, w1)"
    and rest: "sweep_loop revert ids (Suc k) xs (if b then Suc n else n) w1 = (Inr m, w')"
    using Cons.prems(1) by (auto split: prod.splits sum.splits)
  have u: "ledger_until now (disk w1)" using sweep_rel_until[OF step[OF r] Cons.prems(2)] .
  have "sweep_rel now (disk w1) (disk w')"
    by (rule sweep_loop_rel[where R = "sweep_rel now" and revert = revert, OF step _ sweep_rel_trans rest]) auto
  then have "unqueued (disk w') (key x)"
    using sweep_rel_unqueued u achieves[OF r Cons.prems(2)] by blast
  then show ?case using Cons.IH[OF rest u] by simp
qed simp

lemma sweep_loop_skips:
  assumes skip: "\<And>i x w r w1. revert i x w = (r, w1) \<Longrightarrow> unqueued (disk w) (key x) \<Longrightarrow>
      disk w1 = disk w \<and> (r = Inr False \<or> (\<exists>e. r = Inl e))"
    and "sweep_loop revert ids k xs n w = (r, w')" "\<forall>x \<in> set xs. unqueued (disk w) (key x)"
  shows "disk w' = disk w \<and> (r = Inr n \<or> (\<exists>e. r = Inl e))"
  using assms(2,3)
proof (induction xs arbitrary: k n w)
  case (Cons x xs)
  obtain r1 w1 where r: "revert (ids k) x w = (r1, w1)" by (cases "revert (ids k) x w")
  from skip[OF r] Cons.prems(2) have s: "disk w1 = disk w" "r1 = Inr False \<or> (\<exists>e. r1 = Inl e)" by auto
  then show ?case using Cons r by auto
qed simp

lemma revert_expired_row_rel:
  assumes "revert_expired_row P Q i row now w = (r, w1)"
  shows "sweep_rel now (disk w) (disk w1)"
  using assms
proof (cases rule: revert_expired_row_cases)
  case (Reverted v)
  have "sweep_rel now (disk w) (disk v)" unfolding Reverted(1) by (rule sweep_rel_add_ledger) simp_all
  from this sweep_rel_trans[OF this sweep_rel_expire] show ?thesis using Reverted(2) by auto
qed auto

lemma revert_expired_row_unqueues:
  assumes "revert_expired_row P Q i row now w = (Inr b, w1)" "ledger_until now (disk w)"
  shows "unqueued (disk w1) (row_key row)"
  using assms(1)
proof (cases rule: revert_expired_row_cases)
  case (Reverted v)
  have "unqueued (disk v) (row_key row)"
    using unqueued_after_entry[OF assms(2), of "swept_entry i row now"]
    unfolding Reverted(1) row_key_def by simp
  then show ?thesis using Reverted(2) by auto
qed (auto simp: unqueued_def row_key_def)

lemma revert_expired_row_skips:
  assumes "revert_expired_row P Q i row now w = (r, w1)" "unqueued (disk w) (row_key row)"
  shows "disk w1 = disk w \<and> (r = Inr False \<or> (\<exists>e. r = Inl e))"
proof (cases "pp_load_ledger_for_claims P w (pa_agent_id row) [pa_challenger row] None")
  case (Inr ledger)
  then show ?thesis
    using assms read_latest[OF Inr] by (auto simp: revert_expired_row_def unqueued_def row_key_def)
qed (use assms(1) in \<open>auto simp: revert_expired_row_def\<close>)

lemma revert_orphan_rel:
  assumes "revert_orphan P i orph now w = (r, w1)"
  shows "sweep_rel now (disk w) (disk w1) \<and> db_pending (disk w1) = db_pending (disk w)"
  using assms
proof (cases rule: revert_orphan_cases)
  case Reverted
  have "sweep_rel now (disk w) (add_ledger (orphan_entry i orph now) (disk w))"
    by (rule sweep_rel_add_ledger) simp_all
  then show ?thesis unfolding Reverted(2) by (simp add: add_ledger_def)
qed auto

lemma revert_orphan_unqueues:
  assumes "revert_orphan P i orph now w = (Inr b, w1)" "ledger_until now (disk w)"
  shows "unqueued (disk w1) (orphan_key orph)"
  using assms(1)
proof (cases rule: revert_orphan_cases)
  case Reverted
  then show ?thesis
    using unqueued_after_entry[OF assms(2), of "orphan_entry i orph now"] by (simp add: orphan_key_def)
qed (auto simp: unqueued_def orphan_key_def)

lemma revert_orphan_skips:
  assumes "revert_orphan P i orph now w = (r, w1)" "unqueued (disk w) (orphan_key orph)"
  shows "disk w1 = disk w \<and> (r = Inr False \<or> (\<exists>e. r = Inl e))"
proof (cases "pp_load_ledger_for_claims P w (or_agent_id orph) [or_challenger orph] None")
  case (Inr ledger)
  then show ?thesis
    using assms read_latest[OF Inr] by (auto simp: revert_orphan_def unqueued_def orphan_key_def)
qed (use assms(1) in \<open>auto simp: revert_orphan_def\<close>)

lemma sweep_ok:
  assumes "sweep_expired_adjudications P (Some Q) ids now w = (Inr n, w')" "ledger_until now (disk w)"
  obtains w1 where "sweep_rel now (disk w) (disk w1)" "ledger_until now (disk w1)"
    "\<forall>row \<in> set (expired_of (disk w) now). unqueued (disk w1) (row_key row)"
    "sweep_rel now (disk w1) (disk w')" "db_pending (disk w') = db_pending (disk w1)"
    "\<forall>k \<in> orphans_of (disk w1). unqueued (disk w') k"
proof -
  let ?row = "\<lambda>i row w. revert_expired_row P Q i row now w" and ?orph = "\<lambda>i orph w. revert_orphan P i orph now w"
  obtain rows orphans m w1 where l: "pq_list_expired Q w now = Inr rows"
    "sweep_loop ?row ids 0 rows 0 w = (Inr m, w1)" "pq_list_queued_orphan_claims Q w1 = Inr orphans"
    "sweep_loop ?orph ids (length rows) orphans m w1 = (Inr n, w')"
    using assms(1) by (auto simp: sweep_expired_adjudications_def split: sum.splits prod.splits)
  let ?R = "\<lambda>d d'. sweep_rel now d d' \<and> db_pending d' = db_pending d"
  have r1: "sweep_rel now (disk w) (disk w1)"
    by (rule sweep_loop_rel[where R = "sweep_rel now" and revert = ?row, OF _ _ sweep_rel_trans l(2)])
      (auto intro: revert_expired_row_rel)
  have u1: "ledger_until now (disk w1)" using sweep_rel_until[OF r1 assms(2)] .
  have r2: "?R (disk w1) (disk w')"
    by (rule sweep_loop_rel[where R = ?R and revert = ?orph, OF _ _ _ l(4)])
      (auto dest: revert_orphan_rel intro: sweep_rel_trans)
  have "\<forall>row \<in> set rows. unqueued (disk w1) (row_key row)"
    by (rule sweep_loop_unqueues[where revert = ?row, OF _ _ l(2) assms(2)])
      (auto intro: revert_expired_row_rel revert_expired_row_unqueues)
  moreover have "\<forall>x \<in> set orphans. unqueued (disk w') (orphan_key x)"
    by (rule sweep_loop_unqueues[where revert = ?orph, OF _ _ l(4) u1])
      (auto dest: revert_orphan_rel intro: revert_orphan_unqueues)
  then have "\<forall>k \<in> orphans_of (disk w1). unqueued (disk w') k"
    unfolding read_orphans[OF l(3), symmetric] by blast
  ultimately show ?thesis
    using r1 u1 r2 read_expired[OF l(1)] by (intro that[of w1]) auto
qed

lemma sweep_recovers:
  assumes "sweep_expired_adjudications P (Some Q) ids now w = (Inr n, w')" "ledger_until now (disk w)"
  shows "\<forall>row \<in> set (expired_of (disk w) now). unqueued (disk w') (row_key row)"
    "\<forall>k \<in> orphans_of (disk w). unqueued (disk w') k"
    "\<forall>k \<in> orphans_of (disk w'). unqueued (disk w') k"
proof -
  from assms obtain w1 where s: "sweep_rel now (disk w) (disk w1)" "ledger_until now (disk w1)"
    "\<forall>row \<in> set (expired_of (disk w) now). unqueued (disk w1) (row_key row)"
    "sweep_rel now (disk w1) (disk w')" "db_pending (disk w') = db_pending (disk w1)"
    "\<forall>k \<in> orphans_of (disk w1). unqueued (disk w') k"
    by (rule sweep_ok)
  show "\<forall>row \<in> set (expired_of (disk w) now). unqueued (disk w') (row_key row)"
    using sweep_rel_unqueued[OF s(4,2)] s(3) by blast
  show "\<forall>k \<in> orphans_of (disk w). unqueued (disk w') k"
    using sweep_rel_orphan_kept[OF s(1)] s(6) sweep_rel_unqueued[OF s(4,2)] by blast
  show "\<forall>k \<in> orphans_of (disk w'). unqueued (disk w') k"
    using sweep_rel_orphans[OF s(4,5)] s(6) by blast
qed

text \<open>A second sweep at the same time finds nothing to revert.\<close>

lemma sweep_again:
  assumes "sweep_expired_adjudications P (Some Q) ids now w = (Inr n, w')" "ledger_until now (disk w)"
    and again: "sweep_expired_adjudications P (Some Q) ids' now w' = (r, w'')"
  shows "disk w'' = disk w' \<and> (r = Inr 0 \<or> (\<exists>e. r = Inl e))"
proof -
  let ?row = "\<lambda>i row w. revert_expired_row P Q i row now w" and ?orph = "\<lambda>i orph w. revert_orphan P i orph now w"
  from assms(1,2) obtain w0 where s: "sweep_rel now (disk w) (disk w0)" "sweep_rel now (disk w0) (disk w')"
    by (rule sweep_ok)
  then have rel: "sweep_rel now (disk w) (disk w')" by (rule sweep_rel_trans)
  show ?thesis
  proof (cases "pq_list_expired Q w' now")
    case (Inl e)
    then show ?thesis using again by (auto simp: sweep_expired_adjudications_def)
  next
    case (Inr rows)
    obtain r1 w1 where l1: "sweep_loop ?row ids' 0 rows 0 w' = (r1, w1)"
      by (cases "sweep_loop ?row ids' 0 rows 0 w'")
    have "\<forall>row \<in> set rows. unqueued (disk w') (row_key row)"
      using sweep_recovers(1)[OF assms(1,2)] sweep_rel_expired[OF rel] read_expired[OF Inr] by blast
    then have 1: "disk w1 = disk w'" "r1 = Inr 0 \<or> (\<exists>e. r1 = Inl e)"
      using sweep_loop_skips[where revert = ?row, OF revert_expired_row_skips l1] by auto
    show ?thesis
    proof (cases "\<exists>os. r1 = Inr 0 \<and> pq_list_queued_orphan_claims Q w1 = Inr os")
      case False
      then show ?thesis using again Inr l1 1
        by (auto simp: sweep_expired_adjudications_def split: sum.splits)
    next
      case True
      then obtain os where os: "r1 = Inr 0" "pq_list_queued_orphan_claims Q w1 = Inr os" by blast
      have l2: "sweep_loop ?orph ids' (length rows) os 0 w1 = (r, w'')"
        using again Inr l1 os by (simp add: sweep_expired_adjudications_def)
      have "\<forall>x \<in> set os. unqueued (disk w1) (orphan_key x)"
        using sweep_recovers(3)[OF assms(1,2)] read_orphans[OF os(2)] 1(1) by auto
      then show ?thesis
        using sweep_loop_skips[where revert = ?orph, OF revert_orphan_skips l2] 1(1) by auto
    qed
  qed
qed

end

section \<open>A challenger whose row still waits\<close>

text \<open>The row is pending under a handle of its own, and the entries of its challenger are \<^verbatim>\<open>es\<close>.\<close>

definition waiting :: "pending_row \<Rightarrow> ledger_entry list \<Rightarrow> db \<Rightarrow> bool" where
  "waiting row es d =
     (row \<in> set (db_pending d) \<and> distinct (map pa_handle_id (db_pending d))
      \<and> claim_entries d (pa_agent_id row) (pa_challenger row) = es)"

lemma waiting_add_ledger:
  assumes "waiting row es d" "(le_agent_id e, le_claim_ref e) \<noteq> row_key row"
  shows "waiting row es (add_ledger e d)"
  using assms by (auto simp: waiting_def claim_entries_def add_ledger_def row_key_def)

lemma waiting_set_status:
  assumes "waiting row es d" "h \<noteq> pa_handle_id row"
  shows "waiting row es (set_pending_status s h d)"
proof -
  have "map pa_handle_id (db_pending (set_pending_status s h d)) = map pa_handle_id (db_pending d)"
    by (simp add: set_pending_status_def)
  then have "distinct (map pa_handle_id (db_pending (set_pending_status s h d)))"
    using assms(1) by (simp only: waiting_def)
  moreover have "row \<in> set (db_pending (set_pending_status s h d))"
    using assms by (force simp: waiting_def set_pending_status_def)
  ultimately show ?thesis
    using assms(1) unfolding waiting_def claim_entries_def by (simp add: set_pending_status_def)
qed

context engine_store
begin

text \<open>An invariant of the elements of the loop.\<close>

lemma sweep_loop_keeps:
  assumes step: "\<And>i x w r w1. x \<in> set xs \<Longrightarrow> I (disk w) \<Longrightarrow> revert i x w = (r, w1) \<Longrightarrow> I (disk w1)"
    and "I (disk w)" "sweep_loop revert ids k xs n w = (r, w')"
  shows "I (disk w')"
  using assms
proof (induction xs arbitrary: k n w)
  case (Cons x xs)
  obtain r1 w1 where r: "revert (ids k) x w = (r1, w1)" by (cases "revert (ids k) x w")
  have i: "I (disk w1)" using Cons.prems(1)[OF _ Cons.prems(2) r] by simp
  show ?case
  proof (cases r1)
    case (Inr b)
    then have "sweep_loop revert ids (Suc k) xs (if b then Suc n else n) w1 = (r, w')" using Cons.prems(3) r by simp
    then show ?thesis by (rule Cons.IH[OF _ i, rotated]) (rule Cons.prems(1), simp_all)
  qed (use Cons.prems(3) r i in auto)
qed simp

lemma sweep_spares:
  assumes "sweep_expired_adjudications P (Some Q) ids now w = (r, w')" "db_wf (disk w)"
    and "row \<in> set (db_pending (disk w))" "pa_status row = ''pending''"
    and "\<forall>x \<in> set (expired_of (disk w) now). row_key x \<noteq> row_key row"
  shows "latest_in (disk w') (pa_agent_id row) (pa_challenger row) = latest_in (disk w) (pa_agent_id row) (pa_challenger row)
    \<and> row \<in> set (db_pending (disk w'))"
proof -
  let ?row = "\<lambda>i row w. revert_expired_row P Q i row now w" and ?orph = "\<lambda>i orph w. revert_orphan P i orph now w"
  define es where "es = claim_entries (disk w) (pa_agent_id row) (pa_challenger row)"
  have start: "waiting row es (disk w)" using assms(2,3) by (simp add: waiting_def es_def db_wf_def)
  have handles: "pa_handle_id x \<noteq> pa_handle_id row" if "x \<in> set (expired_of (disk w) now)" for x
  proof
    assume "pa_handle_id x = pa_handle_id row"
    moreover have "x \<in> set (db_pending (disk w))" using that by (auto simp: expired_of_def)
    ultimately have "x = row" using assms(2,3) by (auto simp: db_wf_def distinct_map dest: inj_onD)
    then show False using that assms(5) by blast
  qed
  have rows: "waiting row es (disk w2)"
    if "x \<in> set (expired_of (disk w) now)" "waiting row es (disk w1)" "?row i x w1 = (r1, w2)" for i x w1 r1 w2
    using that(3)
  proof (cases rule: revert_expired_row_cases)
    case (Reverted v)
    have "waiting row es (disk v)" unfolding Reverted(1)
      by (rule waiting_add_ledger[OF that(2)]) (use assms(5) that(1) in \<open>auto simp: row_key_def\<close>)
    then show ?thesis using Reverted(2) waiting_set_status handles[OF that(1)] by metis
  qed (use that(2) in simp_all)
  have orphans: "waiting row es (disk w2)"
    if "orphan_key x \<noteq> row_key row" "waiting row es (disk w1)" "?orph i x w1 = (r1, w2)" for i x w1 r1 w2
    using that(3)
  proof (cases rule: revert_orphan_cases)
    case Reverted
    show ?thesis unfolding Reverted(2)
      by (rule waiting_add_ledger[OF that(2)]) (use that(1) in \<open>auto simp: orphan_key_def\<close>)
  qed (use that(2) in simp_all)
  have not_orphan: "row_key row \<notin> orphans_of d" if "waiting row es d" for d
    using that assms(4) by (auto simp: waiting_def orphans_of_def orphan_entry_of_def row_key_def)
  have "waiting row es (disk w')"
  proof (cases "pq_list_expired Q w now")
    case (Inl e)
    then show ?thesis using assms(1) start by (auto simp: sweep_expired_adjudications_def)
  next
    case (Inr rs)
    obtain r1 w1 where l: "sweep_loop ?row ids 0 rs 0 w = (r1, w1)" by (cases "sweep_loop ?row ids 0 rs 0 w")
    have w1: "waiting row es (disk w1)"
      by (rule sweep_loop_keeps[where I = "waiting row es" and revert = ?row, OF _ start l])
        (use rows read_expired[OF Inr] in auto)
    show ?thesis
    proof (cases "\<exists>m os. r1 = Inr m \<and> pq_list_queued_orphan_claims Q w1 = Inr os")
      case True
      then obtain m os where o: "r1 = Inr m" "pq_list_queued_orphan_claims Q w1 = Inr os" by blast
      then have loop: "sweep_loop ?orph ids (length rs) os m w1 = (r, w')"
        using assms(1) Inr l by (simp add: sweep_expired_adjudications_def)
      have other: "orphan_key x \<noteq> row_key row" if "x \<in> set os" for x
        using not_orphan[OF w1] imageI[OF that, of orphan_key] unfolding read_orphans[OF o(2)] by metis
      have step: "waiting row es (disk v')" if "x \<in> set os" "waiting row es (disk v)" "?orph i x v = (q, v')" for i x v q v'
        using orphans[OF other[OF that(1)] that(2,3)] .
      show ?thesis
        by (rule sweep_loop_keeps[where I = "waiting row es" and revert = ?orph, OF step w1 loop])
    next
      case False
      then show ?thesis using assms(1) Inr l w1
        by (auto simp: sweep_expired_adjudications_def split: sum.splits)
    qed
  qed
  then show ?thesis by (simp add: waiting_def es_def latest_in_def ledger_of_chunk_single)
qed

end

end
