(* ===== verification/Assert_Validity.thy ===== *)
theory Assert_Validity
  imports Ledger_Maps Truth_Facts Txn_Effects
begin

text \<open>\<^verbatim>\<open>application/assert_validity.rs\<close>: the host bounds or reopens a claim; the gates in their order,
  the two atomic writes, and the resolution of a subject line to its single live claim.\<close>

datatype validity_assertion_input =
    AI_Bound instant "date_granularity option"
  | AI_Reopen

record assert_validity_request =
  aq_agent_id :: agent_id
  aq_target :: claim_ref
  aq_assertion :: validity_assertion_input
  aq_provenance :: provenance_label
  aq_confidence :: confidence

record assert_validity_response =
  as_claim_ref :: claim_ref
  as_assertion_ref :: "uuid option"
  as_kind :: assertion_kind
  as_effective_at :: "instant option"
  as_disposition :: disposition
  as_no_op :: bool

definition VERDICT_HOST_BOUND :: string where
  "VERDICT_HOST_BOUND = ''host_bound''"

definition latest_active_bound ::
    "validity_assertion list \<Rightarrow> instant \<Rightarrow> (instant \<times> uuid \<times> date_granularity option) option" where
  "latest_active_bound assertions now =
     map_option (\<lambda>s. (bs_bound_at s, bs_assertion_ref s, bs_bound_at_granularity s)) (active_bound_at assertions now)"

definition validity_entry ::
    "uuid \<Rightarrow> agent_id \<Rightarrow> claim_ref \<Rightarrow> disposition \<Rightarrow> json \<Rightarrow> transaction_time \<Rightarrow> ledger_entry" where
  "validity_entry entry_id a target d rationale now =
     \<lparr>le_entry_id = entry_id, le_agent_id = a, le_claim_ref = target, le_event_kind = ValidityAsserted,
      le_disposition = d, le_rationale = Some rationale, le_recorded_at = now\<rparr>"

definition write_validity_and_ledger ::
    "('w, 't, 'e) persistence_port \<Rightarrow> validity_assertion \<Rightarrow> ledger_entry \<Rightarrow> ('t, 'e mem_error, unit) tx_step" where
  "write_validity_and_ledger P assertion entry =
     tx_bind (tx_map_err Persistence (pp_append_validity_assertion P assertion)) (\<lambda>_.
     tx_map_err Persistence (pp_append_ledger_entry P entry))"

definition host_assertion ::
    "uuid \<Rightarrow> assert_validity_request \<Rightarrow> assertion_kind \<Rightarrow> transaction_time \<Rightarrow> validity_assertion" where
  "host_assertion assertion_ref req kind now =
     \<lparr>va_assertion_ref = assertion_ref, va_agent_id = aq_agent_id req, va_target_claim = aq_target req,
      va_kind = kind, va_provenance = aq_provenance req, va_confidence = aq_confidence req,
      va_asserted_at = now\<rparr>"

definition bound_rationale :: "instant \<Rightarrow> json" where
  "bound_rationale bound_at = JObj [(''bound_at'', JText [Rfc3339 bound_at]),
     (''event'', JStr ''assert_validity_bound''), (''verdict'', JStr VERDICT_HOST_BOUND)]"

definition reopen_rationale :: "instant \<Rightarrow> json" where
  "reopen_rationale now = JObj [(''event'', JStr ''assert_validity_reopen''), (''reopen_at'', JText [Rfc3339 now])]"

definition write_assertion ::
    "('w, 't, 'e) persistence_port \<Rightarrow> (nat \<Rightarrow> uuid) \<Rightarrow> assert_validity_request \<Rightarrow> assertion_kind \<Rightarrow> disposition
       \<Rightarrow> json \<Rightarrow> instant \<Rightarrow> instant \<Rightarrow> 'w \<Rightarrow> ('e mem_error, assert_validity_response) res \<times> 'w" where
  "write_assertion P ids req kind d rationale eff now w =
     (case in_txn P (aq_agent_id req)
             (write_validity_and_ledger P (host_assertion (ids 0) req kind now)
                (validity_entry (ids 1) (aq_agent_id req) (aq_target req) d rationale now)) w of
        (Inl e, w1) \<Rightarrow> (Inl e, w1)
      | (Inr _, w1) \<Rightarrow>
          (Inr \<lparr>as_claim_ref = aq_target req, as_assertion_ref = Some (ids 0), as_kind = kind,
                as_effective_at = Some eff, as_disposition = d, as_no_op = False\<rparr>, w1))"

text \<open>Gates 2.5 to 5 and the write of the \<^verbatim>\<open>Bound\<close> arm.\<close>

definition assert_bound ::
    "('w, 't, 'e) persistence_port \<Rightarrow> (nat \<Rightarrow> uuid) \<Rightarrow> assert_validity_request \<Rightarrow> instant \<Rightarrow> date_granularity option
       \<Rightarrow> claim \<Rightarrow> (instant \<times> uuid \<times> date_granularity option) option \<Rightarrow> instant \<Rightarrow> 'w
       \<Rightarrow> ('e mem_error, assert_validity_response) res \<times> 'w" where
  "assert_bound P ids req bound_at gran target_claim active now w =
     (case pp_load_ledger_for_claims P w (aq_agent_id req) [aq_target req] None of
        Inl e \<Rightarrow> (Inl (Persistence e), w)
      | Inr ledger \<Rightarrow>
        if build_latest_disposition_map ledger (aq_target req) = Some QueuedForAdjudication
           \<or> aq_target req \<in> build_denied_via_adjudication_set ledger
        then (Inl (TargetUnderAdjudication (aq_target req)), w)
        else if (case vt_start (cl_valid_time target_claim) of Some s \<Rightarrow> bound_at < s | None \<Rightarrow> False)
        then (Inl (IncoherentTemporalWindow [Rfc3339 (the (vt_start (cl_valid_time target_claim)))]
                     [Rfc3339 bound_at]), w)
        else (case active of
            Some (existing_at, existing_ref, existing_gran) \<Rightarrow>
              if existing_at = bound_at
              then (Inr \<lparr>as_claim_ref = aq_target req, as_assertion_ref = Some existing_ref,
                         as_kind = Bound existing_at existing_gran, as_effective_at = Some existing_at,
                         as_disposition = Superseded, as_no_op = True\<rparr>, w)
              else (Inl (AlreadyBound (aq_target req) [Rfc3339 existing_at]), w)
          | None \<Rightarrow>
              (case vt_end (cl_valid_time target_claim) of
                 Some own_end \<Rightarrow>
                   if own_end \<le> bound_at
                   then (Inr \<lparr>as_claim_ref = aq_target req, as_assertion_ref = None,
                              as_kind = Bound own_end (vt_end_granularity (cl_valid_time target_claim)),
                              as_effective_at = Some own_end, as_disposition = Superseded,
                              as_no_op = True\<rparr>, w)
                   else write_assertion P ids req (Bound bound_at gran) Superseded
                          (bound_rationale bound_at) bound_at now w
               | None \<Rightarrow> write_assertion P ids req (Bound bound_at gran) Superseded
                          (bound_rationale bound_at) bound_at now w)))"

definition assert_validity_execute ::
    "('w, 't, 'e) persistence_port \<Rightarrow> (nat \<Rightarrow> uuid) \<Rightarrow> assert_validity_request \<Rightarrow> instant \<Rightarrow> 'w
       \<Rightarrow> ('e mem_error, assert_validity_response) res \<times> 'w" where
  "assert_validity_execute P ids req now w =
     (if \<not> is_cheap_path_eligible (aq_provenance req)
      then (Inl (InsufficientProvenanceForOverturn (aq_provenance req)), w)
      else case pp_load_claim P w (aq_agent_id req) (aq_target req) of
        Inl e \<Rightarrow> (Inl (Persistence e), w)
      | Inr None \<Rightarrow> (Inl (ClaimNotFound (aq_target req)), w)
      | Inr (Some target_claim) \<Rightarrow>
        (case pp_load_validity_assertions_for P w (aq_agent_id req) (aq_target req) of
           Inl e \<Rightarrow> (Inl (Persistence e), w)
         | Inr existing \<Rightarrow>
           (let active = latest_active_bound existing now in
            case aq_assertion req of
              AI_Bound bound_at gran \<Rightarrow> assert_bound P ids req bound_at gran target_claim active now w
            | AI_Reopen \<Rightarrow>
                (case active of
                   None \<Rightarrow> (Inr \<lparr>as_claim_ref = aq_target req, as_assertion_ref = None, as_kind = Reopen now,
                                 as_effective_at = None, as_disposition = Reinstated, as_no_op = True\<rparr>, w)
                 | Some _ \<Rightarrow> write_assertion P ids req (Reopen now) Reinstated (reopen_rationale now) now now w))))"

section \<open>Resolving a line to its live claim\<close>

datatype live_claim_resolution = LR_Empty | LR_Single claim_ref | LR_Ambiguous nat

definition resolve_live_claim_for_line ::
    "('w, 't, 'e) persistence_port \<Rightarrow> engine_config \<Rightarrow> agent_id \<Rightarrow> string \<Rightarrow> string \<Rightarrow> instant \<Rightarrow> 'w
       \<Rightarrow> ('e mem_error, live_claim_resolution) res" where
  "resolve_live_claim_for_line P cfg a s p now w =
     and_then (map_err Persistence (pp_load_subject_line P w a s p (Some now))) (\<lambda>claims.
     and_then (map_err Persistence (pp_load_ledger_for_claims P w a (map cl_ref claims) (Some now))) (\<lambda>ledger.
       let fr = fold_claims claims (assertions_for P w a) now None cfg (build_latest_disposition_map ledger)
       in Inr (case fr_live_claims fr of
                 [] \<Rightarrow> LR_Empty
               | [cs] \<Rightarrow> LR_Single (cl_ref (cw_claim cs))
               | css \<Rightarrow> LR_Ambiguous (length css))))"

end
