(* ===== verification/Reconcile_UC.thy ===== *)
theory Reconcile_UC
  imports Gate_Reconciler Ledger_Maps Txn_Effects
begin

text \<open>\<^verbatim>\<open>application/reconcile.rs\<close>: re-adjudicate every live claim of the given lines against the
  others and record one ledger entry per claim; it never bounds a claim.\<close>

record reconcile_request =
  rq_agent_id :: agent_id
  rq_subject_lines :: "(string \<times> string) list"

record reconcile_response =
  rr_outcomes :: "(claim_ref \<times> disposition) list"
  rr_oracle_escalations :: "32 word"

text \<open>All lines are loaded before anything else.\<close>

definition load_lines ::
    "('w, 't, 'e) persistence_port \<Rightarrow> 'w \<Rightarrow> agent_id \<Rightarrow> (string \<times> string) list \<Rightarrow> ('e mem_error, claim list list) res" where
  "load_lines P w a lines =
     collect_res (\<lambda>(s, p). map_err Persistence (pp_load_subject_line P w a s p None)) lines"

text \<open>The incumbent of a candidate is the first other claim of the narrowed live set, else of the
  widened one.\<close>

definition other_incumbent :: "claim_with_status list \<Rightarrow> claim list \<Rightarrow> claim \<Rightarrow> belief option" where
  "other_incumbent live all_live candidate =
     map_option claim_to_belief_raw
       (case find (\<lambda>x. cl_ref x \<noteq> cl_ref candidate) (map cw_claim live) of
          Some x \<Rightarrow> Some x
        | None \<Rightarrow> find (\<lambda>x. cl_ref x \<noteq> cl_ref candidate) all_live)"

definition reconcile_candidate ::
    "engine_config \<Rightarrow> bool \<Rightarrow> claim_with_status list \<Rightarrow> claim list \<Rightarrow> claim \<Rightarrow> gate_decision" where
  "reconcile_candidate cfg oracle_present live all_live candidate =
     adjudicate (reconcile_claim \<lparr>
        ri_candidate = candidate,
        ri_incumbent = other_incumbent live all_live candidate,
        ri_superseded_claim_refs = [],
        ri_measured_confidence = cf_value_confidence (cl_confidence candidate),
        ri_cardinality_proposal = cl_cardinality candidate,
        ri_oracle_present = oracle_present,
        ri_succession_threshold = ec_valid_time_confidence_threshold cfg,
        ri_all_live_claims = all_live\<rparr>) cfg"

definition reconcile_line ::
    "('w, 't, 'e) persistence_port \<Rightarrow> 'w \<Rightarrow> engine_config \<Rightarrow> bool \<Rightarrow> agent_id \<Rightarrow> instant \<Rightarrow> ledger_entry list
       \<Rightarrow> claim list \<Rightarrow> (claim_ref \<times> gate_decision) list" where
  "reconcile_line P w cfg oracle_present a now ledger claims =
     (let fr = fold_claims claims (assertions_for P w a) now None cfg (build_latest_disposition_map ledger);
          all_live = build_conflict_candidate_claims fr (build_denied_via_adjudication_set ledger)
      in map (\<lambda>cs. (cl_ref (cw_claim cs),
                     reconcile_candidate cfg oracle_present (fr_live_claims fr) all_live (cw_claim cs)))
           (fr_live_claims fr))"

definition resolved_entry :: "uuid \<Rightarrow> agent_id \<Rightarrow> transaction_time \<Rightarrow> claim_ref \<times> gate_decision \<Rightarrow> ledger_entry" where
  "resolved_entry entry_id a now rd =
     \<lparr>le_entry_id = entry_id, le_agent_id = a, le_claim_ref = fst rd, le_event_kind = AdjudicationResolved,
      le_disposition = gd_disposition (snd rd), le_rationale = Some (gd_rationale (snd rd)),
      le_recorded_at = now\<rparr>"

fun resolved_entries ::
    "(nat \<Rightarrow> uuid) \<Rightarrow> nat \<Rightarrow> agent_id \<Rightarrow> transaction_time \<Rightarrow> (claim_ref \<times> gate_decision) list \<Rightarrow> ledger_entry list" where
  "resolved_entries ids k a now [] = []"
| "resolved_entries ids k a now (d # ds) = resolved_entry (ids k) a now d # resolved_entries ids (Suc k) a now ds"

definition reconcile_execute ::
    "('w, 't, 'e) persistence_port \<Rightarrow> oracle_port option \<Rightarrow> engine_config \<Rightarrow> (nat \<Rightarrow> uuid) \<Rightarrow> reconcile_request
       \<Rightarrow> instant \<Rightarrow> 'w \<Rightarrow> ('e mem_error, reconcile_response) res \<times> 'w" where
  "reconcile_execute P oracle cfg ids req now w =
     (if rq_subject_lines req = [] then (Inr \<lparr>rr_outcomes = [], rr_oracle_escalations = 0\<rparr>, w)
      else case load_lines P w (rq_agent_id req) (rq_subject_lines req) of
        Inl e \<Rightarrow> (Inl e, w)
      | Inr lines \<Rightarrow>
        (case pp_load_ledger_for_claims P w (rq_agent_id req) (map cl_ref (concat lines)) None of
           Inl e \<Rightarrow> (Inl (Persistence e), w)
         | Inr ledger \<Rightarrow>
             let per_claim = concat (map (reconcile_line P w cfg (oracle \<noteq> None) (rq_agent_id req) now ledger) lines)
             in (case in_txn P (rq_agent_id req)
                        (tx_foreach (\<lambda>e. tx_map_err Persistence (pp_append_ledger_entry P e))
                           (resolved_entries ids 0 (rq_agent_id req) now per_claim)) w of
                   (Inl e, w1) \<Rightarrow> (Inl e, w1)
                 | (Inr _, w1) \<Rightarrow>
                     (Inr \<lparr>rr_outcomes = map (\<lambda>(r, d). (r, gd_disposition d)) per_claim,
                           rr_oracle_escalations =
                             of_nat (length (filter (\<lambda>(r, d). gd_route d = HeavyPath) per_claim))\<rparr>, w1))))"

end
