(* ===== verification/Validity_Facts.thy ===== *)
theory Validity_Facts
  imports Assert_Validity Reconcile_UC Store_Facts Sqlite_Store
begin

text \<open>What \<^verbatim>\<open>assert_validity\<close> and \<^verbatim>\<open>reconcile\<close> do to the store, for every adapter: the gates that
  leave it alone, the two rows of an effective bound or reopen, the idempotence of a repeated
  request, the ledger rows of a reconciliation.\<close>

section \<open>The rows of an assertion\<close>

definition asserted_db ::
    "(nat \<Rightarrow> uuid) \<Rightarrow> assert_validity_request \<Rightarrow> assertion_kind \<Rightarrow> disposition \<Rightarrow> json \<Rightarrow> instant \<Rightarrow> db \<Rightarrow> db" where
  "asserted_db ids req kind q rationale now d = d\<lparr>
     db_assertions := db_assertions d @ [host_assertion (ids 0) req kind now],
     db_ledger := db_ledger d @ [validity_entry (ids 1) (aq_agent_id req) (aq_target req) q rationale now]\<rparr>"

lemma host_assertion_simps [simp]:
  "va_asserted_at (host_assertion i req k now) = now" "va_kind (host_assertion i req k now) = k"
  "va_agent_id (host_assertion i req k now) = aq_agent_id req"
  "va_target_claim (host_assertion i req k now) = aq_target req"
  "va_assertion_ref (host_assertion i req k now) = i"
  by (simp_all add: host_assertion_def)

lemma validity_entry_simps [simp]:
  "le_recorded_at (validity_entry i a t q x now) = now" "le_agent_id (validity_entry i a t q x now) = a"
  "le_claim_ref (validity_entry i a t q x now) = t" "le_disposition (validity_entry i a t q x now) = q"
  by (simp_all add: validity_entry_def)

lemma asserted_db_latest:
  assumes "ledger_until now d"
  shows "latest_in (asserted_db ids req kind q x now d) (aq_agent_id req) (aq_target req) = Some q"
  using latest_in_append[OF assms, of "[validity_entry (ids 1) (aq_agent_id req) (aq_target req) q x now]"
      "asserted_db ids req kind q x now d"]
  by (simp add: asserted_db_def)

text \<open>No assertion on the claim is as late as \<^verbatim>\<open>now\<close>.\<close>

definition assertions_before :: "instant \<Rightarrow> db \<Rightarrow> agent_id \<Rightarrow> claim_ref \<Rightarrow> bool" where
  "assertions_before now d a r = (\<forall>x \<in> set (assertions_of d a r). va_asserted_at x < now)"

lemma assertions_of_asserted:
  assumes "assertions_before now d (aq_agent_id req) (aq_target req)"
  shows "assertions_of (asserted_db ids req kind q x now d) (aq_agent_id req) (aq_target req)
       = assertions_of d (aq_agent_id req) (aq_target req) @ [host_assertion (ids 0) req kind now]"
  using assms
  by (auto simp: assertions_of_def asserted_db_def assertions_before_def intro!: sort_key_snoc_max less_imp_le)

lemma active_bound_asserted:
  assumes "assertions_before now d (aq_agent_id req) (aq_target req)"
  shows "active_bound_at (assertions_of (asserted_db ids req kind q x now d) (aq_agent_id req) (aq_target req)) t
       = bound_step t (host_assertion (ids 0) req kind now)
           (active_bound_at (assertions_of d (aq_agent_id req) (aq_target req)) t)"
  unfolding assertions_of_asserted[OF assms]
  using assms by (intro active_bound_at_snoc assertion_key_le_time) (simp add: assertions_before_def)

section \<open>assert\_validity\<close>

context persistence
begin

lemma write_validity_ok:
  assumes "write_validity_and_ledger P assertion entry t = (Inr u, t')"
  shows "work t' = add_ledger entry (add_assertion assertion (work t))"
  using assms append_assertion_ok append_ledger_ok
  unfolding write_validity_and_ledger_def by (auto simp: tx_bind_Inr_iff)

lemma write_assertion_cases:
  assumes "write_assertion P ids req kind q x eff now w = (r, w')"
  obtains (Failed) e where "r = Inl e" "disk w' = disk w"
    | (Written) "r = Inr \<lparr>as_claim_ref = aq_target req, as_assertion_ref = Some (ids 0), as_kind = kind,
                as_effective_at = Some eff, as_disposition = q, as_no_op = False\<rparr>"
      "disk w' = asserted_db ids req kind q x now (disk w)"
proof -
  let ?body = "write_validity_and_ledger P (host_assertion (ids 0) req kind now)
                (validity_entry (ids 1) (aq_agent_id req) (aq_target req) q x now)"
  obtain r1 w1 where t: "in_txn P (aq_agent_id req) ?body w = (r1, w1)"
    by (cases "in_txn P (aq_agent_id req) ?body w")
  show ?thesis
  proof (cases r1)
    case (Inl e)
    then have "r = Inl e" "w' = w1" using assms t by (auto simp: write_assertion_def)
    then show ?thesis using in_txn_error t Inl by (intro Failed) auto
  next
    case (Inr u)
    then obtain t0 t1 where tt: "work t0 = disk w" "?body t0 = (Inr u, t1)" "disk w1 = work t1"
      using t by (metis in_txn_ok)
    have "r = Inr \<lparr>as_claim_ref = aq_target req, as_assertion_ref = Some (ids 0), as_kind = kind,
                as_effective_at = Some eff, as_disposition = q, as_no_op = False\<rparr>" "w' = w1"
      using assms t Inr by (auto simp: write_assertion_def)
    then show ?thesis
      using write_validity_ok[OF tt(2)] tt(1,3)
      by (intro Written) (auto simp: asserted_db_def add_ledger_def add_assertion_def)
  qed
qed

lemma write_assertion_grows: "grows now (disk w) (disk (snd (write_assertion P ids req kind q x eff now w)))"
proof -
  have "grows now (disk w) (disk (snd (in_txn P (aq_agent_id req)
      (write_validity_and_ledger P (host_assertion (ids 0) req kind now)
        (validity_entry (ids 1) (aq_agent_id req) (aq_target req) q x now)) w)))"
    unfolding write_validity_and_ledger_def by (intro in_txn_grows tx_grow) simp_all
  then show ?thesis by (auto simp: write_assertion_def split: prod.splits sum.splits)
qed

text \<open>A bound request reads the active bound, and writes only when there is none and the claim
  does not end earlier on its own.\<close>

lemma assert_bound_cases:
  assumes "assert_bound P ids req b g c active now w = (r, w')"
  obtains (Refused) e where "r = Inl e" "w' = w"
    | (NoOp) resp where "r = Inr resp" "w' = w" "as_no_op resp"
        "(\<exists>i g'. active = Some (b, i, g')) \<or> (\<exists>x. vt_end (cl_valid_time c) = Some x \<and> x \<le> b)"
    | (Write) "active = None" "\<forall>s. vt_start (cl_valid_time c) = Some s \<longrightarrow> s \<le> b"
        "\<forall>x. vt_end (cl_valid_time c) = Some x \<longrightarrow> b < x"
        "\<exists>ledger. pp_load_ledger_for_claims P w (aq_agent_id req) [aq_target req] None = Inr ledger
           \<and> build_latest_disposition_map ledger (aq_target req) \<noteq> Some QueuedForAdjudication
           \<and> aq_target req \<notin> build_denied_via_adjudication_set ledger"
        "write_assertion P ids req (Bound b g) Superseded (bound_rationale b) b now w = (r, w')"
proof (cases "pp_load_ledger_for_claims P w (aq_agent_id req) [aq_target req] None")
  case (Inl e)
  then show ?thesis using assms by (intro Refused) (auto simp: assert_bound_def)
next
  case (Inr ledger)
  show ?thesis
    using assms Inr Refused NoOp Write
    unfolding assert_bound_def
    by (auto simp: not_le not_less split: if_splits option.splits prod.splits)
qed

lemma assert_validity_cases:
  assumes "assert_validity_execute P ids req now w = (r, w')"
  obtains (Refused) e where "r = Inl e" "w' = w"
    | (Bounding) b g c where "aq_assertion req = AI_Bound b g" "is_cheap_path_eligible (aq_provenance req)"
        "claim_of (disk w) (aq_agent_id req) (aq_target req) = Some c"
        "assert_bound P ids req b g c
           (latest_active_bound (assertions_of (disk w) (aq_agent_id req) (aq_target req)) now) now w = (r, w')"
    | (Open_already) resp where "aq_assertion req = AI_Reopen" "r = Inr resp" "w' = w" "as_no_op resp"
        "active_bound_at (assertions_of (disk w) (aq_agent_id req) (aq_target req)) now = None"
    | (Reopening) c s where "aq_assertion req = AI_Reopen" "is_cheap_path_eligible (aq_provenance req)"
        "claim_of (disk w) (aq_agent_id req) (aq_target req) = Some c"
        "active_bound_at (assertions_of (disk w) (aq_agent_id req) (aq_target req)) now = Some s"
        "write_assertion P ids req (Reopen now) Reinstated (reopen_rationale now) now now w = (r, w')"
proof (cases "is_cheap_path_eligible (aq_provenance req)
    \<and> (\<exists>c vs. pp_load_claim P w (aq_agent_id req) (aq_target req) = Inr (Some c)
           \<and> pp_load_validity_assertions_for P w (aq_agent_id req) (aq_target req) = Inr vs)")
  case False
  then have "(\<exists>e. r = Inl e) \<and> w' = w"
    using assms by (auto simp: assert_validity_execute_def split: if_splits sum.splits option.splits)
  then show ?thesis by (auto intro: Refused)
next
  case True
  then obtain c vs where l: "pp_load_claim P w (aq_agent_id req) (aq_target req) = Inr (Some c)"
    "pp_load_validity_assertions_for P w (aq_agent_id req) (aq_target req) = Inr vs" by blast
  have c: "claim_of (disk w) (aq_agent_id req) (aq_target req) = Some c" using read_claim[OF l(1)] by simp
  have vs: "vs = assertions_of (disk w) (aq_agent_id req) (aq_target req)" using read_assertions[OF l(2)] .
  show ?thesis
  proof (cases "aq_assertion req")
    case (AI_Bound b g)
    then show ?thesis using assms True l c vs
      by (intro Bounding) (auto simp: assert_validity_execute_def Let_def)
  next
    case AI_Reopen
    show ?thesis
    proof (cases "active_bound_at vs now")
      case None
      then show ?thesis using assms True l AI_Reopen vs
        by (intro Open_already) (auto simp: assert_validity_execute_def Let_def latest_active_bound_def)
    next
      case (Some s)
      then show ?thesis using assms True l AI_Reopen c vs
        by (intro Reopening) (auto simp: assert_validity_execute_def Let_def latest_active_bound_def)
    qed
  qed
qed

lemma assert_validity_grows: "grows now (disk w) (disk (snd (assert_validity_execute P ids req now w)))"
proof -
  obtain r w' where e: "assert_validity_execute P ids req now w = (r, w')"
    by (cases "assert_validity_execute P ids req now w")
  from e have "grows now (disk w) (disk w')"
  proof (cases rule: assert_validity_cases)
    case (Bounding b g c)
    from Bounding(4) show ?thesis
      by (cases rule: assert_bound_cases) (simp_all, metis snd_conv write_assertion_grows)
  next
    case (Reopening c s)
    then show ?thesis by (metis snd_conv write_assertion_grows)
  qed simp_all
  then show ?thesis using e by simp
qed

section \<open>reconcile\<close>

lemma resolved_entries_mem:
  "e \<in> set (resolved_entries ids k a now ds) \<Longrightarrow>
     le_recorded_at e = now \<and> le_agent_id e = a \<and> le_event_kind e = AdjudicationResolved
     \<and> (\<exists>x \<in> set ds. le_claim_ref e = fst x \<and> le_disposition e = gd_disposition (snd x))"
  by (induction ids k a now ds rule: resolved_entries.induct) (auto simp: resolved_entry_def)

lemma reconcile_cases:
  assumes "reconcile_execute P oracle cfg ids req now w = (r, w')"
  obtains (Untouched) "disk w' = disk w"
      "\<And>resp. r = Inr resp \<Longrightarrow> rq_subject_lines req = [] \<and> rr_outcomes resp = []"
    | (Recorded) lines ledger resp where
      "load_lines P w (rq_agent_id req) (rq_subject_lines req) = Inr lines"
      "pp_load_ledger_for_claims P w (rq_agent_id req) (map cl_ref (concat lines)) None = Inr ledger"
      "r = Inr resp"
      "rr_outcomes resp = map (\<lambda>(r, d). (r, gd_disposition d))
         (concat (map (reconcile_line P w cfg (oracle \<noteq> None) (rq_agent_id req) now ledger) lines))"
      "disk w' = (disk w)\<lparr>db_ledger := db_ledger (disk w) @ resolved_entries ids 0 (rq_agent_id req) now
         (concat (map (reconcile_line P w cfg (oracle \<noteq> None) (rq_agent_id req) now ledger) lines))\<rparr>"
proof (cases "\<exists>lines ledger. rq_subject_lines req \<noteq> []
    \<and> load_lines P w (rq_agent_id req) (rq_subject_lines req) = Inr lines
    \<and> pp_load_ledger_for_claims P w (rq_agent_id req) (map cl_ref (concat lines)) None = Inr ledger")
  case False
  then have "w' = w \<and> (\<forall>resp. r = Inr resp \<longrightarrow> rq_subject_lines req = [] \<and> rr_outcomes resp = [])"
    using assms by (auto simp: reconcile_execute_def split: if_splits sum.splits)
  then show ?thesis by (intro Untouched) auto
next
  case True
  then obtain lines ledger where l: "rq_subject_lines req \<noteq> []"
    "load_lines P w (rq_agent_id req) (rq_subject_lines req) = Inr lines"
    "pp_load_ledger_for_claims P w (rq_agent_id req) (map cl_ref (concat lines)) None = Inr ledger" by blast
  define per where "per = concat (map (reconcile_line P w cfg (oracle \<noteq> None) (rq_agent_id req) now ledger) lines)"
  let ?body = "tx_foreach (\<lambda>e. tx_map_err Persistence (pp_append_ledger_entry P e))
                 (resolved_entries ids 0 (rq_agent_id req) now per)"
  obtain r1 w1 where t: "in_txn P (rq_agent_id req) ?body w = (r1, w1)"
    by (cases "in_txn P (rq_agent_id req) ?body w")
  have e: "(r, w') = (case in_txn P (rq_agent_id req) ?body w of
       (Inl x, w1) \<Rightarrow> (Inl x, w1)
     | (Inr _, w1) \<Rightarrow> (Inr \<lparr>rr_outcomes = map (\<lambda>(r, d). (r, gd_disposition d)) per,
          rr_oracle_escalations = of_nat (length (filter (\<lambda>(r, d). gd_route d = HeavyPath) per))\<rparr>, w1))"
    using assms l unfolding reconcile_execute_def per_def by (simp add: Let_def del: not_None_eq)
  show ?thesis
  proof (cases r1)
    case (Inl x)
    have "r = Inl x" "w' = w1" using e t Inl by simp_all
    moreover have "disk w1 = disk w" using t unfolding Inl by (rule in_txn_error)
    ultimately show ?thesis by (intro Untouched) simp_all
  next
    case (Inr u)
    then obtain t0 t1 where tt: "work t0 = disk w" "?body t0 = (Inr u, t1)" "disk w1 = work t1"
      using in_txn_ok[OF t[unfolded Inr]] by blast
    let ?resp = "\<lparr>rr_outcomes = map (\<lambda>(r, d). (r, gd_disposition d)) per,
          rr_oracle_escalations = of_nat (length (filter (\<lambda>(r, d). gd_route d = HeavyPath) per))\<rparr>"
    have r: "r = Inr ?resp" "w' = w1" using e t Inr by simp_all
    show ?thesis
    proof (rule Recorded[OF l(2,3) r(1)])
      show "disk w' = (disk w)\<lparr>db_ledger := db_ledger (disk w) @ resolved_entries ids 0 (rq_agent_id req) now
         (concat (map (reconcile_line P w cfg (oracle \<noteq> None) (rq_agent_id req) now ledger) lines))\<rparr>"
        using foreach_ledger[OF tt(2)] tt(1,3) r(2) by (simp add: per_def)
    qed (simp add: per_def)
  qed
qed

lemma reconcile_grows: "grows now (disk w) (disk (snd (reconcile_execute P oracle cfg ids req now w)))"
proof -
  obtain r w' where e: "reconcile_execute P oracle cfg ids req now w = (r, w')"
    by (cases "reconcile_execute P oracle cfg ids req now w")
  from e have "grows now (disk w) (disk w')"
    by (cases rule: reconcile_cases)
      (auto simp: grows_def appended_def db_wf_def dest: resolved_entries_mem)
  then show ?thesis using e by simp
qed

end

end
