(* ===== verification/Projection.thy ===== *)
theory Projection
  imports Truth_Facts
begin

text \<open>\<^verbatim>\<open>engine/projection.rs\<close>: currency decay against an injected \<^verbatim>\<open>now\<close>, staleness, markers and the
  belief projection of a fold result.

  The decay test \<^verbatim>\<open>num_seconds() as f64 / 86400.0 < days as f64\<close> is stated over the integers:
  \<^verbatim>\<open>num_seconds\<close> truncates the duration towards zero, and for a \<^verbatim>\<open>u32\<close> threshold the rounded
  quotient is below the threshold exactly when the seconds are below \<^verbatim>\<open>days * 86400\<close>, a number
  under \<^verbatim>\<open>2^53\<close> whose quotient is exact.\<close>

definition num_seconds :: "int \<Rightarrow> int" where
  "num_seconds ns = (if ns \<ge> 0 then ns div 1000000000 else - ((- ns) div 1000000000))"

definition compute_currency_state :: "instant \<Rightarrow> instant \<Rightarrow> engine_config \<Rightarrow> currency_state" where
  "compute_currency_state last_refreshed_at now cfg =
     (let secs = num_seconds (now - last_refreshed_at)
      in if secs < int (unat (ec_aging_unconfirmed_threshold_days cfg)) * 86400 then Fresh
         else if secs < int (unat (ec_decayed_threshold_days cfg)) * 86400 then AgingUnconfirmed
         else Decayed)"

definition build_currency_signal :: "belief \<Rightarrow> instant \<Rightarrow> engine_config \<Rightarrow> currency_signal" where
  "build_currency_signal b now cfg =
     \<lparr>cs_last_refreshed_at = be_transaction_time b,
      cs_state = compute_currency_state (be_transaction_time b) now cfg,
      cs_corroboration_count = cs_corroboration_count (be_currency_signal b)\<rparr>"

definition compute_staleness ::
    "belief option \<Rightarrow> fold_result \<Rightarrow> instant \<Rightarrow> engine_config \<Rightarrow> staleness_flag" where
  "compute_staleness primary fr now cfg =
     (if fr_live_claims fr = []
      then \<lparr>sf_is_stale = True, sf_reason = Some [Lit ''no live claim'']\<rparr>
      else case primary of
        None \<Rightarrow> fold_staleness fr
      | Some b \<Rightarrow>
          (case compute_currency_state (be_transaction_time b) now cfg of
             Decayed \<Rightarrow> \<lparr>sf_is_stale = True,
               sf_reason = Some [Lit ''currency decayed: last refreshed at '', Rfc3339 (be_transaction_time b)]\<rparr>
           | AgingUnconfirmed \<Rightarrow> \<lparr>sf_is_stale = False,
               sf_reason = Some [Lit ''aging unconfirmed: asserted long ago, not yet reconfirmed'']\<rparr>
           | Fresh \<Rightarrow> fold_staleness fr))"

definition pending_review_refs :: "ledger_entry list \<Rightarrow> claim_ref list" where
  "pending_review_refs entries =
     map le_claim_ref
       (filter (\<lambda>e. le_event_kind e = DependentFlaggedPendingReview \<and> le_disposition e = PendingReview) entries)"

definition is_pending_review :: "claim_ref \<Rightarrow> claim_ref list \<Rightarrow> bool" where
  "is_pending_review r refs = list_ex (\<lambda>x. x = r) refs"

definition build_markers ::
    "fold_result \<Rightarrow> claim_ref list \<Rightarrow> bool \<Rightarrow> engine_config \<Rightarrow> marker list" where
  "build_markers fr pending contested cfg =
     (if contested \<or> fr_has_conflict fr then [M_Contested] else [])
     @ (if list_ex (\<lambda>cs. is_pending_review (cl_ref (cw_claim cs)) pending) (fr_live_claims fr)
        then [M_PendingReview] else [])
     @ (if list_ex (\<lambda>cs. is_recall_reentry (cl_provenance (cw_claim cs))) (fr_live_claims fr)
        then [M_RecallTainted] else [])
     @ (if list_ex (\<lambda>cs. ea_derivation_depth (cl_external_anchor (cw_claim cs))
                           > ec_derivation_depth_cap_for_currency_boost cfg) (fr_live_claims fr)
        then [M_LowDerivationAnchor] else [])"

fun max_criticality :: "criticality list \<Rightarrow> criticality" where
  "max_criticality [] = Low"
| "max_criticality (c # cs) = (if cs = [] then c else max c (max_criticality cs))"

definition live_belief :: "instant \<Rightarrow> engine_config \<Rightarrow> claim_with_status \<Rightarrow> belief" where
  "live_belief now cfg cs =
     (let b = claim_to_belief cs in b\<lparr>be_currency_signal := build_currency_signal b now cfg\<rparr>)"

definition project ::
    "fold_result \<Rightarrow> ledger_entry list \<Rightarrow> instant \<Rightarrow> engine_config \<Rightarrow> bool \<Rightarrow> belief_projection" where
  "project fr ledger_entries now cfg contested =
     (let pending = pending_review_refs ledger_entries;
          live_beliefs = map (live_belief now cfg) (fr_live_claims fr);
          (primary, alternatives) =
            (if live_beliefs = [] then (None, [])
             else if length live_beliefs = 1 \<and> \<not> fr_has_conflict fr then (Some (hd live_beliefs), [])
             else (None, live_beliefs));
          primary_for_currency = (case primary of Some b \<Rightarrow> Some b
             | None \<Rightarrow> (case live_beliefs of [] \<Rightarrow> None | b # _ \<Rightarrow> Some b));
          currency = (case primary_for_currency of
             Some b \<Rightarrow> cs_state (build_currency_signal b now cfg) | None \<Rightarrow> Decayed);
          status =
            (if live_beliefs = [] then BS_NoBelief
             else if contested \<or> fr_has_conflict fr then BS_Contested
             else if length live_beliefs = 1
                  then (if vt_is_unknown (cl_valid_time (cw_claim (hd (fr_live_claims fr))))
                        then BS_TimingUncertain else BS_Resolved)
                  else BS_Resolved)
      in \<lparr>bp_status = status, bp_primary = primary, bp_alternatives = alternatives,
          bp_currency = currency,
          bp_criticality = max_criticality (map (\<lambda>cs. cl_criticality (cw_claim cs)) (fr_live_claims fr)),
          bp_staleness = compute_staleness primary fr now cfg,
          bp_markers = build_markers fr pending contested cfg\<rparr>)"

section \<open>Facts\<close>

lemma num_seconds_mono: "a \<le> b \<Longrightarrow> num_seconds a \<le> num_seconds b"
  by (auto simp: num_seconds_def zdiv_mono1 pos_imp_zdiv_nonneg_iff)
     (smt (verit) pos_imp_zdiv_nonneg_iff)

fun currency_rank :: "currency_state \<Rightarrow> nat" where
  "currency_rank Fresh = 0"
| "currency_rank AgingUnconfirmed = 1"
| "currency_rank Decayed = 2"

lemma currency_rank_mono:
  assumes "now \<le> later"
  shows "currency_rank (compute_currency_state r now cfg) \<le> currency_rank (compute_currency_state r later cfg)"
proof -
  have "num_seconds (now - r) \<le> num_seconds (later - r)"
    using assms by (intro num_seconds_mono) simp
  then show ?thesis by (simp add: compute_currency_state_def Let_def)
qed

lemma live_belief_simps [simp]:
  "be_claim_ref (live_belief now cfg cs) = cl_ref (cw_claim cs)"
  "be_fact (live_belief now cfg cs) = cl_fact (cw_claim cs)"
  "be_provenance (live_belief now cfg cs) = cl_provenance (cw_claim cs)"
  "be_valid_time (live_belief now cfg cs) = cl_valid_time (cw_claim cs)"
  "be_transaction_time (live_belief now cfg cs) = cl_transaction_time (cw_claim cs)"
  by (simp_all add: live_belief_def claim_to_belief_def claim_to_belief_raw_def Let_def)

lemma project_primary:
  "bp_primary (project fr le now cfg contested) = Some b \<longleftrightarrow>
     \<not> fr_has_conflict fr \<and> (\<exists>cs. fr_live_claims fr = [cs] \<and> b = live_belief now cfg cs)"
  by (cases "fr_live_claims fr") (auto simp: project_def Let_def length_Suc_conv split: prod.split)

lemma project_status:
  "bp_status (project fr le now cfg contested) =
     (if fr_live_claims fr = [] then BS_NoBelief
      else if contested \<or> fr_has_conflict fr then BS_Contested
      else if length (fr_live_claims fr) = 1
           then (if vt_is_unknown (cl_valid_time (cw_claim (hd (fr_live_claims fr))))
                 then BS_TimingUncertain else BS_Resolved)
           else BS_Resolved)"
  by (simp add: project_def Let_def split: prod.split)

lemma project_alternatives:
  "bp_alternatives (project fr le now cfg contested) =
     (if bp_primary (project fr le now cfg contested) = None
      then map (live_belief now cfg) (fr_live_claims fr) else [])"
  by (simp add: project_def Let_def split: prod.split)

lemma max_criticality_ge: "c \<in> set cs \<Longrightarrow> c \<le> max_criticality cs"
  by (induction cs) (auto simp: le_max_iff_disj)

lemma max_criticality_in: "cs \<noteq> [] \<Longrightarrow> max_criticality cs \<in> set cs"
  by (induction cs) (auto simp: max_def)

end
