(* ===== verification/Queries.thy ===== *)
theory Queries
  imports Projection Ledger_Maps Sqlite_Store "HOL-Library.List_Lexorder" "HOL-Library.Char_ord"
begin

text \<open>The read use cases: \<^verbatim>\<open>query_memory.rs\<close> (recall, with the two time axes), \<^verbatim>\<open>query_subject.rs\<close>,
  \<^verbatim>\<open>query_history.rs\<close>, \<^verbatim>\<open>audit.rs\<close> with \<^verbatim>\<open>engine/audit_ledger.rs\<close>. They take the world and return
  no new one: a read changes nothing.\<close>

section \<open>query\_memory\<close>

record query_memory_request =
  qm_agent_id :: agent_id
  qm_subject :: string
  qm_predicate :: string
  qm_as_of_tx_time :: "instant option"
  qm_valid_at :: "instant option"

definition query_memory_fold ::
    "engine_config \<Rightarrow> instant \<Rightarrow> instant option \<Rightarrow> claim list \<Rightarrow> (claim_ref \<Rightarrow> validity_assertion list)
       \<Rightarrow> ledger_entry list \<Rightarrow> fold_result" where
  "query_memory_fold cfg as_of valid_at claims assertions ledger =
     (let fr = fold_claims claims assertions as_of valid_at cfg (build_latest_disposition_map ledger)
      in case valid_at of
           Some t \<Rightarrow> narrow_live_claims_for_valid_at fr t (build_denied_via_adjudication_set ledger) cfg
         | None \<Rightarrow> fr)"

definition query_memory_project ::
    "engine_config \<Rightarrow> instant \<Rightarrow> claim list \<Rightarrow> ledger_entry list \<Rightarrow> fold_result \<Rightarrow> belief_projection" where
  "query_memory_project cfg now claims ledger fr =
     (let ledger_entries = concat (map (\<lambda>c. filter (\<lambda>e. le_claim_ref e = cl_ref c) ledger) claims);
          contested = list_ex (\<lambda>cs. cw_last_disposition cs = Some Contested) (fr_live_claims fr)
      in project fr ledger_entries now cfg contested)"

definition query_memory_execute ::
    "('w, 't, 'e) persistence_port \<Rightarrow> engine_config \<Rightarrow> query_memory_request \<Rightarrow> instant \<Rightarrow> 'w
       \<Rightarrow> ('e mem_error, belief_projection) res" where
  "query_memory_execute P cfg req now w =
     (let a = qm_agent_id req;
          as_of = (case qm_as_of_tx_time req of Some t \<Rightarrow> t | None \<Rightarrow> now) in
      and_then (map_err Persistence (pp_load_subject_line P w a (qm_subject req) (qm_predicate req) (Some as_of)))
       (\<lambda>claims.
      and_then (map_err Persistence (pp_load_ledger_for_claims P w a (map cl_ref claims) (Some as_of)))
       (\<lambda>ledger.
        Inr (query_memory_project cfg now claims ledger
              (query_memory_fold cfg as_of (qm_valid_at req) claims (assertions_for P w a) ledger)))))"

section \<open>query\_subject\<close>

text \<open>Texts that third-party code renders: a JSON value that is not a string, an instant in a
  chrono format.\<close>

datatype display = Plain string | JsonText json | DateYear instant | DateMonth instant | DateDay instant | UuidText uuid

definition format_valid_time_endpoint :: "instant option \<Rightarrow> date_granularity option \<Rightarrow> display option" where
  "format_valid_time_endpoint date gran =
     (case date of
        None \<Rightarrow> None
      | Some dt \<Rightarrow> Some (case gran of
            Some Year \<Rightarrow> DateYear dt
          | Some Month \<Rightarrow> DateMonth dt
          | Some Day \<Rightarrow> DateDay dt
          | Some Instant \<Rightarrow> DateDay dt
          | None \<Rightarrow> DateDay dt))"

fun value_display :: "json \<Rightarrow> display" where
  "value_display (JStr s) = Plain s"
| "value_display v = JsonText v"

fun provenance_label_to_str :: "provenance_label \<Rightarrow> string" where
  "provenance_label_to_str ModelDerived = ''ModelDerived''"
| "provenance_label_to_str RecallReEntry = ''RecallReEntry''"
| "provenance_label_to_str (External UserAsserted) = ''External/UserAsserted''"
| "provenance_label_to_str (External ExternalFirstHand) = ''External/ExternalFirstHand''"

fun belief_status_str :: "belief_status \<Rightarrow> string" where
  "belief_status_str BS_Resolved = ''Resolved''"
| "belief_status_str BS_Contested = ''Contested''"
| "belief_status_str BS_NoBelief = ''NoBelief''"
| "belief_status_str BS_TimingUncertain = ''TimingUncertain''"
| "belief_status_str BS_Conflict = ''Contested''"

record query_subject_request =
  qs_agent_id :: agent_id
  qs_subject :: string
  qs_valid_at :: "instant option"
  qs_as_of_tx_time :: "instant option"

record subject_fact_entry =
  se_predicate :: string
  se_value :: "display option"
  se_status :: string
  se_valid_from_display :: "display option"
  se_valid_until_display :: "display option"
  se_provenance :: string
  se_claim_ref :: "display option"
  se_conf :: "f32 option"

definition subject_entry :: "string \<Rightarrow> belief_projection \<Rightarrow> subject_fact_entry" where
  "subject_entry predicate b =
     (case bp_primary b of
        Some p \<Rightarrow> \<lparr>se_predicate = predicate, se_value = Some (value_display (fa_value (be_fact p))),
            se_status = belief_status_str (bp_status b),
            se_valid_from_display = format_valid_time_endpoint (vt_start (be_valid_time p)) (vt_start_granularity (be_valid_time p)),
            se_valid_until_display = format_valid_time_endpoint (vt_end (be_valid_time p)) (vt_end_granularity (be_valid_time p)),
            se_provenance = provenance_label_to_str (be_provenance p),
            se_claim_ref = Some (UuidText (be_claim_ref p)),
            se_conf = Some (cf_value_confidence (be_confidence p))\<rparr>
      | None \<Rightarrow>
          let alt = (case bp_alternatives b of [] \<Rightarrow> None | x # _ \<Rightarrow> Some x) in
          \<lparr>se_predicate = predicate, se_value = map_option (\<lambda>x. value_display (fa_value (be_fact x))) alt,
           se_status = belief_status_str (bp_status b),
           se_valid_from_display = None, se_valid_until_display = None,
           se_provenance = (case alt of Some x \<Rightarrow> provenance_label_to_str (be_provenance x) | None \<Rightarrow> ''none''),
           se_claim_ref = map_option (\<lambda>x. UuidText (be_claim_ref x)) alt,
           se_conf = map_option (\<lambda>x. cf_value_confidence (be_confidence x)) alt\<rparr>)"

definition query_subject_execute ::
    "('w, 't, 'e) persistence_port \<Rightarrow> engine_config \<Rightarrow> query_subject_request \<Rightarrow> instant \<Rightarrow> 'w
       \<Rightarrow> ('e mem_error, subject_fact_entry list) res" where
  "query_subject_execute P cfg req now w =
     and_then (map_err Persistence
        (pp_list_predicates_for_subject P w (qs_agent_id req) (qs_subject req) (qs_as_of_tx_time req))) (\<lambda>predicates.
     and_then (collect_res (\<lambda>p.
          and_then (query_memory_execute P cfg
             \<lparr>qm_agent_id = qs_agent_id req, qm_subject = qs_subject req, qm_predicate = p,
              qm_as_of_tx_time = qs_as_of_tx_time req, qm_valid_at = qs_valid_at req\<rparr> now w)
           (\<lambda>b. Inr (subject_entry p b))) predicates) (\<lambda>entries.
     Inr (sort_key se_predicate entries)))"

section \<open>query\_history\<close>

record query_history_request =
  qh_agent_id :: agent_id
  qh_subject :: string
  qh_predicate :: string

record history_entry =
  he_claim_ref :: claim_ref
  he_value :: json
  he_valid_from :: "instant option"
  he_valid_until :: "instant option"
  he_valid_from_granularity :: "date_granularity option"
  he_valid_until_granularity :: "date_granularity option"
  he_status :: history_entry_status
  he_provenance :: string
  he_value_confidence :: f32

text \<open>\<^verbatim>\<open>format_provenance\<close> is \<^verbatim>\<open>provenance_label_to_str\<close> with its arms in another order.\<close>

fun format_provenance :: "provenance_label \<Rightarrow> string" where
  "format_provenance (External UserAsserted) = ''External/UserAsserted''"
| "format_provenance (External ExternalFirstHand) = ''External/ExternalFirstHand''"
| "format_provenance RecallReEntry = ''RecallReEntry''"
| "format_provenance ModelDerived = ''ModelDerived''"

definition history_status :: "claim_ref set \<Rightarrow> claim_with_status \<Rightarrow> history_window \<Rightarrow> history_entry_status" where
  "history_status live_refs cs hw =
     (if \<not> cw_is_live cs then H_Superseded
      else if hw_contested hw then H_Contested
      else if cl_ref (cw_claim cs) \<in> live_refs \<and> hw_contains_now hw then H_Current
      else H_Ended)"

definition history_entry_of :: "claim_ref set \<Rightarrow> claim_with_status \<times> history_window \<Rightarrow> history_entry" where
  "history_entry_of live_refs = (\<lambda>(cs, hw).
     \<lparr>he_claim_ref = cl_ref (cw_claim cs), he_value = fa_value (cl_fact (cw_claim cs)),
      he_valid_from = vt_start (cl_valid_time (cw_claim cs)), he_valid_until = hw_valid_until hw,
      he_valid_from_granularity = vt_start_granularity (cl_valid_time (cw_claim cs)),
      he_valid_until_granularity = hw_valid_until_granularity hw,
      he_status = history_status live_refs cs hw,
      he_provenance = format_provenance (cl_provenance (cw_claim cs)),
      he_value_confidence = cf_value_confidence (cl_confidence (cw_claim cs))\<rparr>)"

definition history_entries :: "engine_config \<Rightarrow> instant \<Rightarrow> fold_result \<Rightarrow> history_entry list" where
  "history_entries cfg now fr =
     (let live_refs = set (map (\<lambda>cs. cl_ref (cw_claim cs)) (fr_live_claims fr))
      in map (history_entry_of live_refs)
           (zip (fr_all_claims fr)
                (compute_history_windows (fr_all_claims fr) (fr_has_conflict fr) now cfg)))"

definition query_history_execute ::
    "('w, 't, 'e) persistence_port \<Rightarrow> engine_config \<Rightarrow> query_history_request \<Rightarrow> instant \<Rightarrow> 'w
       \<Rightarrow> ('e mem_error, history_entry list) res" where
  "query_history_execute P cfg req now w =
     (let a = qh_agent_id req in
      and_then (map_err Persistence (pp_load_subject_line P w a (qh_subject req) (qh_predicate req) None)) (\<lambda>claims.
        if claims = [] then Inr []
        else and_then (map_err Persistence (pp_load_ledger_for_claims P w a (map cl_ref claims) None)) (\<lambda>ledger.
          Inr (history_entries cfg now
                (fold_claims claims (assertions_for P w a) now None cfg (build_latest_disposition_map ledger))))))"

definition history_current :: "history_entry list \<Rightarrow> history_entry option" where
  "history_current entries = find (\<lambda>e. he_status e = H_Current) entries"

section \<open>Audit\<close>

record audit_query =
  au_agent_id :: agent_id
  au_claim_ref :: "claim_ref option"
  au_from_tx_time :: "transaction_time option"
  au_limit :: nat

definition query_ledger ::
    "('w, 't, 'e) persistence_port \<Rightarrow> 'w \<Rightarrow> audit_query \<Rightarrow> ('e, ledger_entry list) res" where
  "query_ledger P w q =
     and_then (pp_load_ledger P w (au_agent_id q) (au_from_tx_time q) (au_limit q)) (\<lambda>raw.
       Inr (rev (case au_claim_ref q of
                   Some r \<Rightarrow> filter (\<lambda>e. le_claim_ref e = r) raw
                 | None \<Rightarrow> raw)))"

definition query_lineage ::
    "('w, 't, 'e) persistence_port \<Rightarrow> 'w \<Rightarrow> agent_id \<Rightarrow> claim_ref \<Rightarrow> ('e, claim_edge list) res" where
  "query_lineage P w a r = pp_load_lineage P w a r"

definition audit_execute ::
    "('w, 't, 'e) persistence_port \<Rightarrow> audit_query \<Rightarrow> 'w \<Rightarrow> ('e mem_error, ledger_entry list) res" where
  "audit_execute P q w = map_err Persistence (query_ledger P w q)"

end
