(* ===== verification/Query_Facts.thy ===== *)
theory Query_Facts
  imports Queries Store_Facts Assert_Validity
begin

text \<open>What recall computes, as a function of the logical store (\<^verbatim>\<open>recall_spec\<close>), the refinement of
  the use case to it for every adapter, and its stability: a recall at a transaction-time cutoff
  does not see rows stamped after the cutoff.\<close>

section \<open>Recall as a function of the store\<close>

definition recall_line :: "db \<Rightarrow> query_memory_request \<Rightarrow> instant \<Rightarrow> claim list" where
  "recall_line d req as_of = line_of d (qm_agent_id req) (qm_subject req) (qm_predicate req) (Some as_of)"

definition recall_fold :: "engine_config \<Rightarrow> db \<Rightarrow> query_memory_request \<Rightarrow> instant \<Rightarrow> fold_result" where
  "recall_fold cfg d req as_of =
     (let claims = recall_line d req as_of; a = qm_agent_id req
      in query_memory_fold cfg as_of (qm_valid_at req) claims (assertions_of d a)
           (ledger_slice d a (map cl_ref claims) (Some as_of)))"

definition recall_as_of :: "query_memory_request \<Rightarrow> instant \<Rightarrow> instant" where
  "recall_as_of req now = (case qm_as_of_tx_time req of Some t \<Rightarrow> t | None \<Rightarrow> now)"

definition recall_spec :: "engine_config \<Rightarrow> db \<Rightarrow> query_memory_request \<Rightarrow> instant \<Rightarrow> belief_projection" where
  "recall_spec cfg d req now =
     (let as_of = recall_as_of req now; claims = recall_line d req as_of
      in query_memory_project cfg now claims (ledger_slice d (qm_agent_id req) (map cl_ref claims) (Some as_of))
           (recall_fold cfg d req as_of))"

lemma query_memory_fold_cong:
  assumes "same_entries l l'" "inj_on cl_ref (set cs)"
    and "\<And>c. c \<in> set cs \<Longrightarrow> active_bound_at (af (cl_ref c)) t = active_bound_at (af' (cl_ref c)) t"
  shows "query_memory_fold cfg t va cs af l = query_memory_fold cfg t va cs af' l'"
proof -
  have "fold_claims cs af t va cfg (build_latest_disposition_map l)
      = fold_claims cs af' t va cfg (build_latest_disposition_map l')"
    using assms by (intro fold_claims_cong) (auto simp: same_entries_latest[OF assms(1)])
  then show ?thesis
    unfolding query_memory_fold_def same_entries_denied[OF assms(1)] by (rule arg_cong)
qed

lemma query_memory_project_cong:
  assumes "same_entries l l'"
  shows "query_memory_project cfg now cs l fr = query_memory_project cfg now cs l' fr"
  using assms by (simp add: query_memory_project_def same_entries_def)

section \<open>Stability under later writes\<close>

lemma distinct_inj_on_refs: "distinct (map cl_ref cs) \<Longrightarrow> inj_on cl_ref (set cs)"
  by (simp add: distinct_map)

lemma recall_fold_grows:
  assumes "grows now d d'" "T < now" "db_wf d"
  shows "recall_fold cfg d' req T = recall_fold cfg d req T"
proof -
  have line: "recall_line d' req T = recall_line d req T"
    by (simp add: recall_line_def line_of_grows[OF assms(1,2)])
  have "inj_on cl_ref (set (recall_line d req T))"
    using distinct_refs_line[OF assms(3)] by (simp add: recall_line_def distinct_inj_on_refs)
  then show ?thesis
    using active_bound_grows[OF assms(1,2)]
    by (simp add: recall_fold_def line Let_def ledger_slice_grows[OF assms(1,2)])
      (rule query_memory_fold_cong; simp)
qed

lemma recall_spec_grows:
  assumes "grows write_time d d'" "db_wf d" "qm_as_of_tx_time req = Some T" "T < write_time"
  shows "recall_spec cfg d' req now = recall_spec cfg d req now"
  using recall_fold_grows[OF assms(1,4,2)] line_of_grows[OF assms(1,4)] ledger_slice_grows[OF assms(1,4)]
  by (simp add: recall_spec_def recall_as_of_def assms(3) Let_def recall_line_def)

section \<open>The use case implements the specification\<close>

text \<open>Every read of an assertion list succeeds: the use case counts a failed one as empty.\<close>

definition assertions_readable :: "('w, 't, 'e) persistence_port \<Rightarrow> 'w \<Rightarrow> agent_id \<Rightarrow> bool" where
  "assertions_readable P w a = (\<forall>r. \<exists>vs. pp_load_validity_assertions_for P w a r = Inr vs)"

context persistence
begin

lemma assertions_for_readable:
  assumes "assertions_readable P w a"
  shows "assertions_for P w a = assertions_of (disk w) a"
proof
  fix r
  obtain vs where "pp_load_validity_assertions_for P w a r = Inr vs"
    using assms by (auto simp: assertions_readable_def)
  then show "assertions_for P w a r = assertions_of (disk w) a r"
    using read_assertions by (simp add: assertions_for_def)
qed

lemma query_memory_spec:
  assumes "query_memory_execute P cfg req now w = Inr b" "db_wf (disk w)"
    "assertions_readable P w (qm_agent_id req)"
  shows "b = recall_spec cfg (disk w) req now"
proof -
  let ?a = "qm_agent_id req" and ?t = "recall_as_of req now"
  let ?line = "recall_line (disk w) req ?t"
  obtain claims ledger where l:
    "pp_load_subject_line P w ?a (qm_subject req) (qm_predicate req) (Some ?t) = Inr claims"
    "pp_load_ledger_for_claims P w ?a (map cl_ref claims) (Some ?t) = Inr ledger"
    "b = query_memory_project cfg now claims ledger
           (query_memory_fold cfg ?t (qm_valid_at req) claims (assertions_for P w ?a) ledger)"
    using assms(1) unfolding query_memory_execute_def Let_def recall_as_of_def[symmetric]
    by (auto simp: and_then_Inr)
  have claims: "claims = ?line" using read_line[OF l(1)] by (simp add: recall_line_def)
  have dist: "distinct (map cl_ref claims)"
    using distinct_refs_line[OF assms(2)] claims by (simp add: recall_line_def)
  have same: "same_entries ledger (ledger_slice (disk w) ?a (map cl_ref claims) (Some ?t))"
    by (rule read_slice[OF l(2) dist])
  show ?thesis
    using query_memory_fold_cong[OF same distinct_inj_on_refs[OF dist]] query_memory_project_cong[OF same]
    by (simp add: l(3) assertions_for_readable[OF assms(3)] recall_spec_def recall_fold_def Let_def claims)
qed

lemma resolve_live_spec:
  assumes "resolve_live_claim_for_line P cfg a s p now w = Inr res" "db_wf (disk w)"
    "assertions_readable P w a"
  defines "live \<equiv> fr_live_claims (recall_fold cfg (disk w)
      \<lparr>qm_agent_id = a, qm_subject = s, qm_predicate = p, qm_as_of_tx_time = None, qm_valid_at = None\<rparr> now)"
  shows "res = (case live of [] \<Rightarrow> LR_Empty | [cs] \<Rightarrow> LR_Single (cl_ref (cw_claim cs))
                | css \<Rightarrow> LR_Ambiguous (length css))"
proof -
  obtain claims ledger where l:
    "pp_load_subject_line P w a s p (Some now) = Inr claims"
    "pp_load_ledger_for_claims P w a (map cl_ref claims) (Some now) = Inr ledger"
    "res = (case fr_live_claims (query_memory_fold cfg now None claims (assertions_for P w a) ledger) of
        [] \<Rightarrow> LR_Empty | [cs] \<Rightarrow> LR_Single (cl_ref (cw_claim cs)) | css \<Rightarrow> LR_Ambiguous (length css))"
    using assms(1) unfolding resolve_live_claim_for_line_def Let_def query_memory_fold_def
    by (auto simp: and_then_Inr)
  have claims: "claims = line_of (disk w) a s p (Some now)" using read_line[OF l(1)] .
  have dist: "distinct (map cl_ref claims)"
    using distinct_refs_line[OF assms(2)] claims by simp
  have same: "same_entries ledger (ledger_slice (disk w) a (map cl_ref claims) (Some now))"
    by (rule read_slice[OF l(2) dist])
  show ?thesis
    using query_memory_fold_cong[OF same distinct_inj_on_refs[OF dist]]
    by (simp add: l(3) assertions_for_readable[OF assms(3)] live_def recall_fold_def recall_line_def Let_def claims)
qed

end

end
