(* ===== verification/Engine_Steps.thy ===== *)
theory Engine_Steps
  imports Ingest_Facts Adjudication_Facts Validity_Facts Query_Facts
begin

text \<open>The engine over an adapter as a transition system: a step is one complete write call
  of \<^verbatim>\<open>EngineHandle\<close> (the agent lock makes them sequential), one iteration of a sweep, or a change of the environment
  (another schedule of failures, a lost or reopened connection). A run is a sequence of steps whose
  clock does not go back. The invariants: the tables only grow, keys stay unique, no ledger entry is
  later than the clock.\<close>

section \<open>Steps and runs\<close>

inductive port_step :: "('w, 't, 'e) persistence_port \<Rightarrow> ('w, 'e) pending_port \<Rightarrow> ('w \<Rightarrow> 'w \<Rightarrow> bool) \<Rightarrow> engine_config
    \<Rightarrow> instant \<Rightarrow> 'w \<Rightarrow> 'w \<Rightarrow> bool"
  for P Q env cfg now w where
  step_ingest: "Qo \<in> {None, Some Q} \<Longrightarrow>
     port_step P Q env cfg now w (snd (ingest_execute P Qo ask cfg ids req now w))"
| step_assert: "port_step P Q env cfg now w (snd (assert_validity_execute P ids vreq now w))"
| step_reconcile: "port_step P Q env cfg now w (snd (reconcile_execute P ask cfg ids rreq now w))"
| step_submit: "port_step P Q env cfg now w (snd (submit_execute P Q cfg ids handle resp now w))"
| step_sweep: "Qo \<in> {None, Some Q} \<Longrightarrow>
     port_step P Q env cfg now w (snd (sweep_expired_adjudications P Qo ids now w))"
| step_revert_row: "port_step P Q env cfg now w (snd (revert_expired_row P Q i row now w))"
| step_revert_orphan: "port_step P Q env cfg now w (snd (revert_orphan P i orph now w))"
| step_environment: "env w w' \<Longrightarrow> port_step P Q env cfg now w w'"

text \<open>\<^verbatim>\<open>port_run P Q env cfg t w t' w'\<close>: from \<^verbatim>\<open>w\<close> at time \<^verbatim>\<open>t\<close> to \<^verbatim>\<open>w'\<close> at time \<^verbatim>\<open>t'\<close>.\<close>

inductive port_run :: "('w, 't, 'e) persistence_port \<Rightarrow> ('w, 'e) pending_port \<Rightarrow> ('w \<Rightarrow> 'w \<Rightarrow> bool) \<Rightarrow> engine_config
    \<Rightarrow> instant \<Rightarrow> 'w \<Rightarrow> instant \<Rightarrow> 'w \<Rightarrow> bool"
  for P Q env cfg t w where
  run_refl: "port_run P Q env cfg t w t w"
| run_step: "port_run P Q env cfg t w t1 w1 \<Longrightarrow> t1 \<le> now \<Longrightarrow> port_step P Q env cfg now w1 w2 \<Longrightarrow>
     port_run P Q env cfg t w now w2"

inductive_cases port_step_cases: "port_step P Q env cfg now w w'"

text \<open>What a run may do to the store: append, with the clock after the start.\<close>

definition extends :: "instant \<Rightarrow> db \<Rightarrow> db \<Rightarrow> bool" where
  "extends t d d' =
     ((\<exists>cs. db_claims d' = db_claims d @ cs \<and> (\<forall>c \<in> set cs. t \<le> cl_transaction_time c))
      \<and> (\<exists>as. db_assertions d' = db_assertions d @ as \<and> (\<forall>a \<in> set as. t \<le> va_asserted_at a))
      \<and> (\<exists>es. db_ledger d' = db_ledger d @ es \<and> (\<forall>e \<in> set es. t \<le> le_recorded_at e))
      \<and> (\<exists>es. db_edges d' = db_edges d @ es \<and> (\<forall>e \<in> set es. t \<le> ed_created_at e))
      \<and> (\<exists>rs. map unstatus (db_pending d') = map unstatus (db_pending d) @ rs))"

lemma appended_extends: "appended now d d' \<Longrightarrow> t \<le> now \<Longrightarrow> extends t d d'"
  unfolding appended_def extends_def by (elim conjE, intro conjI) auto

lemma extends_trans: "extends t d d' \<Longrightarrow> extends t d' d'' \<Longrightarrow> extends t d d''"
  unfolding extends_def by (elim conjE exE, intro conjI) (auto intro: exI)

lemma port_run_times: "port_run P Q env cfg t w t' w' \<Longrightarrow> t \<le> t'"
  by (induction rule: port_run.induct) auto

section \<open>Invariants of runs\<close>

text \<open>An environment that leaves the content of the store alone.\<close>

locale engine_runs = engine_store P Q disk work stored
  for P :: "('w, 't, 'e) persistence_port" and Q :: "('w, 'e) pending_port"
    and disk :: "'w \<Rightarrow> db" and work :: "'t \<Rightarrow> db" and stored :: "pending_row \<Rightarrow> pending_row" +
  fixes env :: "'w \<Rightarrow> 'w \<Rightarrow> bool"
  assumes env_disk: "env w w' \<Longrightarrow> disk w' = disk w"
begin

lemma step_grows: "port_step P Q env cfg now w w' \<Longrightarrow> grows now (disk w) (disk w')"
proof (induction rule: port_step.induct)
  case (step_environment w')
  then show ?case by (simp add: env_disk)
qed (rule ingest_grows assert_validity_grows reconcile_grows submit_grows sweep_grows
    revert_expired_row_grows revert_orphan_grows, assumption?)+

lemma run_wf:
  assumes "port_run P Q env cfg t w t' w'" "db_wf (disk w)"
  shows "db_wf (disk w')"
  using assms
  by (induction rule: port_run.induct) (auto dest: step_grows simp: grows_def)

lemma run_until:
  assumes "port_run P Q env cfg t w t' w'" "ledger_until t (disk w)"
  shows "ledger_until t' (disk w')"
  using assms
proof (induction rule: port_run.induct)
  case (run_step t1 w1 now w2)
  then have "ledger_until now (disk w1)" using ledger_until_mono by blast
  then show ?case
    using step_grows[OF run_step(3)] ledger_until_appended by (auto simp: grows_def)
qed

lemma run_extends: "port_run P Q env cfg t w t' w' \<Longrightarrow> extends t (disk w) (disk w')"
proof (induction rule: port_run.induct)
  case run_refl
  show ?case by (simp add: extends_def)
next
  case (run_step t1 w1 now w2)
  have "appended now (disk w1) (disk w2)"
    using step_grows[OF run_step(3)] by (simp add: grows_def)
  moreover have "t \<le> now" using port_run_times[OF run_step(1)] run_step(2) by simp
  ultimately show ?case using run_step.IH appended_extends extends_trans by blast
qed

text \<open>Recall at a cutoff before the start of a run is the same after it.\<close>

lemma run_recall:
  assumes "port_run P Q env cfg t w t' w'" "db_wf (disk w)" "qm_as_of_tx_time req = Some T" "T < t"
  shows "recall_spec cfg' (disk w') req now = recall_spec cfg' (disk w) req now"
  using assms(1,2)
proof (induction rule: port_run.induct)
  case (run_step t1 w1 now' w2)
  have "T < now'" using port_run_times[OF run_step(1)] run_step(2) assms(4) by simp
  then have "recall_spec cfg' (disk w2) req now = recall_spec cfg' (disk w1) req now"
    using recall_spec_grows[OF step_grows[OF run_step(3)] run_wf[OF run_step(1,5)] assms(3)] by simp
  then show ?case using run_step by simp
qed simp

end

section \<open>The engine over SQLite\<close>

definition same_store :: "sqlite_world \<Rightarrow> sqlite_world \<Rightarrow> bool" where
  "same_store w w' = (sw_db w' = sw_db w)"

abbreviation engine_step :: "engine_config \<Rightarrow> instant \<Rightarrow> sqlite_world \<Rightarrow> sqlite_world \<Rightarrow> bool" where
  "engine_step \<equiv> port_step sqlite_port sqlite_queue same_store"

abbreviation engine_run :: "engine_config \<Rightarrow> instant \<Rightarrow> sqlite_world \<Rightarrow> instant \<Rightarrow> sqlite_world \<Rightarrow> bool" where
  "engine_run \<equiv> port_run sqlite_port sqlite_queue same_store"

interpretation sqlite_runs: engine_runs sqlite_port sqlite_queue sqlite_disk sqlite_work "\<lambda>row. row" same_store
  by unfold_locales (simp add: same_store_def sqlite_disk_def)

lemmas engine_step_grows = sqlite_runs.step_grows
lemmas engine_run_wf = sqlite_runs.run_wf
lemmas engine_run_until = sqlite_runs.run_until
lemmas engine_run_extends = sqlite_runs.run_extends
lemmas engine_run_recall = sqlite_runs.run_recall

definition fresh_world :: sqlite_world where
  "fresh_world = \<lparr>sw_db = empty_sql_db, sw_conn = True, sw_faults = [], sw_read_fails = (\<lambda>_. False)\<rparr>"

lemma fresh_world_wf [simp]: "db_wf (sqlite_disk fresh_world)" "ledger_until t (sqlite_disk fresh_world)"
  by (simp_all add: db_wf_def sqlite_disk_def fresh_world_def abs_db_def empty_sql_db_def ledger_until_def)

end
