(* ===== verification/Samples.thy ===== *)
theory Samples
  imports Engine_Steps
begin

text \<open>Concrete inputs shared by the instances of the properties: times, identifiers, claims, requests
  and a store after a few writes.\<close>

definition sample_ids :: "nat \<Rightarrow> nat \<Rightarrow> uuid" where
  "sample_ids base k = base + k"

definition sample_window :: "instant \<Rightarrow> instant option \<Rightarrow> valid_time" where
  "sample_window s e = \<lparr>vt_start = Some s, vt_end = e, vt_confidence = F32 1,
     vt_start_granularity = Some Day, vt_end_granularity = None\<rparr>"

definition sample_request :: "string \<Rightarrow> valid_time option \<Rightarrow> ingest_request" where
  "sample_request v vt = \<lparr>iq_agent_id = ''a'', iq_subject = ''s'', iq_predicate = ''p'', iq_value = JStr v,
     iq_provenance = External UserAsserted, iq_cardinality = Functional, iq_valid_time = vt,
     iq_confidence = \<lparr>cf_value_confidence = F32 1, cf_valid_time_confidence = F32 1\<rparr>,
     iq_criticality = Medium, iq_derived_from = []\<rparr>"

text \<open>An oracle that gives the handle 90, and a configuration with a time to live of 5.\<close>

definition sample_oracle :: oracle_port where
  "sample_oracle a req = Inr 90"

definition sample_config :: engine_config where
  "sample_config = default_config\<lparr>ec_default_adjudication_ttl := Some 5\<rparr>"

definition world1 :: sqlite_world where
  "world1 = snd (ingest_execute sqlite_port (Some sqlite_queue) (Some sample_oracle) sample_config (sample_ids 1)
     (sample_request ''x'' None) 10 fresh_world)"

definition world2 :: sqlite_world where
  "world2 = snd (ingest_execute sqlite_port (Some sqlite_queue) (Some sample_oracle) sample_config (sample_ids 11)
     (sample_request ''y'' None) 20 world1)"

definition sample_query :: "instant option \<Rightarrow> instant option \<Rightarrow> query_memory_request" where
  "sample_query as_of valid_at = \<lparr>qm_agent_id = ''a'', qm_subject = ''s'', qm_predicate = ''p'',
     qm_as_of_tx_time = as_of, qm_valid_at = valid_at\<rparr>"

section \<open>Sample runs\<close>

lemma sample_readable: "assertions_readable sqlite_port world1 a" "assertions_readable sqlite_port world2 a"
proof -
  have 1: "sw_conn world1" "\<And>x. \<not> sw_read_fails world1 x" "q_assertions (sw_db world1) = []" by code_simp+
  have 2: "sw_conn world2" "\<And>x. \<not> sw_read_fails world2 x" "q_assertions (sw_db world2) = []" by code_simp+
  show "assertions_readable sqlite_port world1 a" "assertions_readable sqlite_port world2 a"
    using 1 2 by (simp_all add: assertions_readable_def sqlite_port_ops load_validity_assertions_for_def with_conn_def)
qed

lemma sample_run: "engine_run sample_config 20 world1 20 world2"
  unfolding world2_def by (rule run_step[OF run_refl _ step_ingest]) simp_all

lemma sample_wf: "db_wf (sqlite_disk world1)" "db_wf (sqlite_disk world2)"
proof -
  have "engine_run sample_config 10 fresh_world 10 world1"
    unfolding world1_def by (rule run_step[OF run_refl _ step_ingest]) simp_all
  then show w1: "db_wf (sqlite_disk world1)" by (rule engine_run_wf) simp
  from sample_run w1 show "db_wf (sqlite_disk world2)" by (rule engine_run_wf)
qed

definition sample_recall :: "instant option \<Rightarrow> sqlite_world \<Rightarrow> belief_projection" where
  "sample_recall as_of w = projr (query_memory_execute sqlite_port sample_config (sample_query as_of None) 30 w)"

lemma sample_recalls:
  "query_memory_execute sqlite_port sample_config (sample_query (Some 15) None) 30 world1 = Inr (sample_recall (Some 15) world1)"
  "query_memory_execute sqlite_port sample_config (sample_query (Some 15) None) 30 world2 = Inr (sample_recall (Some 15) world2)"
  "query_memory_execute sqlite_port sample_config (sample_query None None) 30 world2 = Inr (sample_recall None world2)"
proof -
  have 1: "\<not> isl (query_memory_execute sqlite_port sample_config (sample_query (Some 15) None) 30 world1)" by code_simp
  have 2: "\<not> isl (query_memory_execute sqlite_port sample_config (sample_query (Some 15) None) 30 world2)" by code_simp
  have 3: "\<not> isl (query_memory_execute sqlite_port sample_config (sample_query None None) 30 world2)" by code_simp
  from 1 2 3 show
    "query_memory_execute sqlite_port sample_config (sample_query (Some 15) None) 30 world1 = Inr (sample_recall (Some 15) world1)"
    "query_memory_execute sqlite_port sample_config (sample_query (Some 15) None) 30 world2 = Inr (sample_recall (Some 15) world2)"
    "query_memory_execute sqlite_port sample_config (sample_query None None) 30 world2 = Inr (sample_recall None world2)"
    by (simp_all add: sample_recall_def)
qed

end
