(* ===== verification/Truth_Properties.thy ===== *)
theory Truth_Properties
  imports Samples
begin

text \<open>Properties of the truth engine: windows and successions, the bound/reopen walk, the fold, the
  \<^verbatim>\<open>valid_at\<close> re-derivation, the history windows and the projection.\<close>

definition sample_claim :: "claim_ref \<Rightarrow> string \<Rightarrow> valid_time option \<Rightarrow> claim" where
  "sample_claim r v vt = request_claim (sample_request v vt) 10 r"

definition sample_bound :: "uuid \<Rightarrow> instant \<Rightarrow> instant \<Rightarrow> validity_assertion" where
  "sample_bound i b now = supersession_assertion i ''a'' 1 b None now"

section \<open>Windows and successions\<close>

text \<open>The overlap test of \<^verbatim>\<open>windows_non_overlapping_bounds\<close> is exact: for non-empty half-open
  windows it holds precisely when no instant lies in both.\<close>

theorem overlap_test_exact:
  assumes "window_nonempty s1 e1" "window_nonempty s2 e2"
  shows "windows_non_overlapping_bounds s1 e1 s2 e2 \<longleftrightarrow> window_set s1 e1 \<inter> window_set s2 e2 = {}"
  using non_overlapping_disjoint disjoint_non_overlapping[OF assms] by blast

theorem overlap_test_exact_witness:
  "windows_non_overlapping_bounds 1 (Some 5) 5 None \<longleftrightarrow> window_set 1 (Some 5) \<inter> window_set 5 None = {}"
  by (rule overlap_test_exact) (simp_all add: window_nonempty_def)

text \<open>No \<^verbatim>\<open>unwrap()\<close> of the succession code panics: the succession test never does, and after a
  positive test the selection does not either.\<close>

theorem succession_code_never_panics:
  "is_trusted_succession_run cs th = Some (is_trusted_succession cs th)
   \<and> (is_trusted_succession_run cs th = Some True \<longrightarrow>
        select_by_valid_time_instant_run cs t = Some (select_by_valid_time_instant cs t))"
  by (auto simp: is_trusted_succession_run_total is_trusted_succession_def intro: select_run_trusted)

theorem succession_code_never_panics_witness:
  "select_by_valid_time_instant_run [sample_claim 1 ''x'' (Some (sample_window 1 None))] 3
     = Some (select_by_valid_time_instant [sample_claim 1 ''x'' (Some (sample_window 1 None))] 3)"
proof -
  have "is_trusted_succession_run [sample_claim 1 ''x'' (Some (sample_window 1 None))] (F32 0) = Some True"
    by code_simp
  then show ?thesis using succession_code_never_panics by blast
qed

text \<open>In a trusted succession the selection by instant returns exactly the claim whose window
  contains the instant, whatever the order of the list.\<close>

theorem succession_selection_exact:
  assumes "is_trusted_succession cs th" "mset ds = mset cs"
  shows "select_by_valid_time_instant ds t = Some c \<longleftrightarrow> c \<in> set cs \<and> claim_window_contains c t"
proof -
  have "pairwise_non_overlapping ds"
    using assms is_trusted_succession_mset[OF assms(2), of th] by (simp add: is_trusted_succession_def)
  then show ?thesis
    using mset_eq_setD[OF assms(2)] select_unique select_Some by blast
qed

theorem succession_selection_exact_witness:
  "select_by_valid_time_instant
     [sample_claim 2 ''y'' (Some (sample_window 5 None)), sample_claim 1 ''x'' (Some (sample_window 1 (Some 5)))] 6
     = Some (sample_claim 2 ''y'' (Some (sample_window 5 None)))"
proof -
  let ?x = "sample_claim 1 ''x'' (Some (sample_window 1 (Some 5)))"
  let ?y = "sample_claim 2 ''y'' (Some (sample_window 5 None))"
  have "is_trusted_succession [?x, ?y] (F32 0)" by code_simp
  moreover have "claim_window_contains ?y 6" by code_simp
  ultimately show ?thesis
    using succession_selection_exact[of "[?x, ?y]" "F32 0" "[?y, ?x]" 6 ?y] by simp
qed

section \<open>The bound/reopen walk\<close>

text \<open>The active bound of a claim at a time is the effect of the latest assertion, in the order
  (asserted_at, reference), among those recorded by then and in force by then; there is none when
  that assertion is a reopen or no assertion is in force. So the arrival order is irrelevant.\<close>

theorem active_bound_is_latest_in_force:
  assumes "inj_on va_assertion_ref (set as)"
  shows "active_bound_at as t = Some s \<longleftrightarrow>
    (\<exists>a \<in> set as. effective_at t a \<and> assertion_effect a = Some s
       \<and> (\<forall>b \<in> set as. effective_at t b \<longrightarrow> assertion_key b \<le> assertion_key a))"
proof -
  let ?eff = "{a \<in> set as. effective_at t a}"
  have inj: "inj_on assertion_key ?eff"
    by (rule inj_on_subset[OF inj_assertion_key[OF assms]]) auto
  show ?thesis
  proof (cases "?eff = {}")
    case True
    then show ?thesis using active_bound_at_none_effective[of as t] by auto
  next
    case False
    then have "Max (assertion_key ` ?eff) \<in> assertion_key ` ?eff" by (intro Max_in) simp_all
    then obtain a where m: "Max (assertion_key ` ?eff) = assertion_key a" and a: "a \<in> ?eff" by (rule imageE)
    have max: "assertion_key b \<le> assertion_key a" if "b \<in> ?eff" for b
      unfolding m[symmetric] using that by (intro Max_ge) simp_all
    have strict: "assertion_key b < assertion_key a" if "b \<in> ?eff" "b \<noteq> a" for b
      using max[OF that(1)] inj_onD[OF inj _ that(1) a] that(2) by fastforce
    have "active_bound_at as t = assertion_effect a"
      using a strict by (intro active_bound_at_latest) simp_all
    then show ?thesis
    proof (intro iffI)
      assume "active_bound_at as t = Some s"
      then show "\<exists>a \<in> set as. effective_at t a \<and> assertion_effect a = Some s
         \<and> (\<forall>b \<in> set as. effective_at t b \<longrightarrow> assertion_key b \<le> assertion_key a)"
        using \<open>active_bound_at as t = assertion_effect a\<close> a max by (intro bexI[of _ a]) auto
    next
      assume "\<exists>a \<in> set as. effective_at t a \<and> assertion_effect a = Some s
         \<and> (\<forall>b \<in> set as. effective_at t b \<longrightarrow> assertion_key b \<le> assertion_key a)"
      then obtain b where b: "b \<in> ?eff" "assertion_effect b = Some s" "assertion_key a \<le> assertion_key b"
        using a by blast
      then have "b = a" using strict[OF b(1)] leD by blast
      then show "active_bound_at as t = Some s" using b(2) \<open>active_bound_at as t = assertion_effect a\<close> by simp
    qed
  qed
qed

theorem active_bound_is_latest_in_force_witness:
  "active_bound_at [sample_bound 2 7 9, sample_bound 1 4 8] 10
     = Some \<lparr>bs_bound_at = 7, bs_assertion_ref = 2, bs_bound_at_granularity = None\<rparr>"
  by (subst active_bound_is_latest_in_force) (simp_all add: sample_bound_def supersession_assertion_def
      effective_at_def assertion_instant_def assertion_effect_def assertion_key_def)

section \<open>The fold\<close>

text \<open>The fold does not depend on the order the store returns claims and assertions in.\<close>

theorem fold_order_independent:
  assumes "mset cs = mset ds" "inj_on cl_ref (set cs)"
    and "\<forall>r. mset (af r) = mset (af' r) \<and> inj_on va_assertion_ref (set (af r))"
  shows "fold_claims cs af t va cfg ld = fold_claims ds af' t va cfg ld"
  using assms by (intro fold_claims_cong) (simp_all add: active_bound_at_mset)

theorem fold_order_independent_witness:
  "fold_claims [sample_claim 1 ''x'' None, sample_claim 2 ''y'' None]
     (\<lambda>_. [sample_bound 2 7 9, sample_bound 1 4 8]) 8 None default_config (\<lambda>_. None)
   = fold_claims [sample_claim 2 ''y'' None, sample_claim 1 ''x'' None]
     (\<lambda>_. [sample_bound 1 4 8, sample_bound 2 7 9]) 8 None default_config (\<lambda>_. None)"
  by (rule fold_order_independent)
    (auto simp: sample_claim_def sample_bound_def supersession_assertion_def inj_on_def)



text \<open>Conflict. The conflict flag of the fold is set exactly when several claims are served and
  one of them is not set-valued; then the projection reports Contested, has no primary, and lists
  every served claim as an alternative.\<close>

theorem conflict_is_contested:
  "(fr_has_conflict (fold_claims claims af t va cfg ld) \<longleftrightarrow>
      length (fr_live_claims (fold_claims claims af t va cfg ld)) > 1
      \<and> (\<exists>cs \<in> set (fr_live_claims (fold_claims claims af t va cfg ld)).
             cl_cardinality (cw_claim cs) \<noteq> SetValued))
   \<and> (fr_has_conflict (fold_claims claims af t va cfg ld) \<longrightarrow>
      (let b = project (fold_claims claims af t va cfg ld) entries now cfg contested
       in bp_status b = BS_Contested \<and> bp_primary b = None
          \<and> map be_claim_ref (bp_alternatives b)
              = map (\<lambda>cs. cl_ref (cw_claim cs)) (fr_live_claims (fold_claims claims af t va cfg ld))))"
proof -
  let ?fr = "fold_claims claims af t va cfg ld"
  let ?b = "project ?fr entries now cfg contested"
  have iff: "fr_has_conflict ?fr \<longleftrightarrow> length (fr_live_claims ?fr) > 1
      \<and> (\<exists>cs \<in> set (fr_live_claims ?fr). cl_cardinality (cw_claim cs) \<noteq> SetValued)"
    unfolding fold_claims_conflict by (rule structural_conflict_iff)
  have "bp_primary ?b = None" if "fr_has_conflict ?fr"
    using that project_primary[of ?fr entries now cfg contested] by (cases "bp_primary ?b") auto
  then show ?thesis
    using iff by (auto simp: Let_def project_status project_alternatives)
qed

theorem conflict_is_contested_witness:
  "bp_status (project (fold_claims [sample_claim 1 ''x'' None, sample_claim 2 ''y'' None] (\<lambda>_. []) 20 None
     default_config (\<lambda>_. None)) [] 20 default_config False) = BS_Contested"
proof -
  have "fr_has_conflict (fold_claims [sample_claim 1 ''x'' None, sample_claim 2 ''y'' None] (\<lambda>_. []) 20 None
     default_config (\<lambda>_. None))" by code_simp
  then show ?thesis using conflict_is_contested by (metis (no_types, lifting))
qed

section \<open>The \<^verbatim>\<open>valid_at\<close> re-derivation\<close>

text \<open>C9. A recall at a valid-time instant over a succession of effective windows serves exactly the
  admissible claim (live, or closed by a bound and not denied) that the instant falls in: not before
  its start, before its own end and before its active bound.\<close>

theorem valid_at_serves_the_containing_claim:
  assumes "is_trusted_succession (map claim_with_effective_window
             (filter (valid_at_candidate denied) (fr_all_claims fr))) (ec_valid_time_confidence_threshold cfg)"
    and "distinct (map (\<lambda>cs. cl_ref (cw_claim cs)) (fr_all_claims fr))"
  shows "cs \<in> set (fr_live_claims (narrow_live_claims_for_valid_at fr v denied cfg)) \<longleftrightarrow>
     cs \<in> set (fr_all_claims fr) \<and> valid_at_candidate denied cs
     \<and> the (vt_start (cl_valid_time (cw_claim cs))) \<le> v
     \<and> (\<forall>e. vt_end (cl_valid_time (cw_claim cs)) = Some e \<longrightarrow> v < e)
     \<and> (\<forall>b. cw_bound_at cs = Some b \<longrightarrow> v < b)"
proof -
  have "claim_window_contains (claim_with_effective_window cs) v \<longleftrightarrow>
     the (vt_start (cl_valid_time (cw_claim cs))) \<le> v
     \<and> (\<forall>e. vt_end (cl_valid_time (cw_claim cs)) = Some e \<longrightarrow> v < e)
     \<and> (\<forall>b. cw_bound_at cs = Some b \<longrightarrow> v < b)"
    by (auto simp: claim_window_contains_def window_contains_def claim_with_effective_window_end split: option.splits)
  then show ?thesis using valid_at_selected_window[OF assms] by simp
qed

definition sample_closed :: fold_result where
  "sample_closed = fold_claims
     [sample_claim 1 ''x'' (Some (sample_window 1 None)), sample_claim 2 ''y'' (Some (sample_window 5 None))]
     (\<lambda>r. if r = 1 then [sample_bound 3 5 8] else []) 20 None default_config
     (\<lambda>r. if r = 1 then Some Superseded else None)"

theorem valid_at_serves_the_containing_claim_witness:
  "hd (fr_all_claims sample_closed)
     \<in> set (fr_live_claims (narrow_live_claims_for_valid_at sample_closed 3 {} default_config))"
proof -
  have "is_trusted_succession (map claim_with_effective_window
             (filter (valid_at_candidate {}) (fr_all_claims sample_closed)))
          (ec_valid_time_confidence_threshold default_config)" by code_simp
  moreover have "distinct (map (\<lambda>cs. cl_ref (cw_claim cs)) (fr_all_claims sample_closed))" by code_simp
  moreover have "hd (fr_all_claims sample_closed) \<in> set (fr_all_claims sample_closed)"
    "valid_at_candidate {} (hd (fr_all_claims sample_closed))"
    "vt_start (cl_valid_time (cw_claim (hd (fr_all_claims sample_closed)))) = Some 1"
    "vt_end (cl_valid_time (cw_claim (hd (fr_all_claims sample_closed)))) = None"
    "cw_bound_at (hd (fr_all_claims sample_closed)) = Some 5"
    by code_simp+
  ultimately show ?thesis
    using valid_at_serves_the_containing_claim[of "{}" sample_closed default_config "hd (fr_all_claims sample_closed)" 3]
    by simp
qed

text \<open>On a line with no bounded or superseded claim the re-derivation agrees with the fold run
  directly with that \<^verbatim>\<open>valid_at\<close>, so the two code paths of a recall give one answer.\<close>

theorem valid_at_agrees_with_fold:
  assumes "\<forall>c \<in> set claims. active_bound_at (af (cl_ref c)) t = None \<and> ld (cl_ref c) \<noteq> Some Superseded"
    and "fr_succession_selected (fold_claims claims af t None cfg ld)" "distinct (map cl_ref claims)"
  shows "narrow_live_claims_for_valid_at (fold_claims claims af t None cfg ld) v denied cfg
       = fold_claims claims af t (Some v) cfg ld"
  using assms by (intro narrow_agrees_with_fold_core) auto

theorem valid_at_agrees_with_fold_witness:
  "narrow_live_claims_for_valid_at (fold_claims
      [sample_claim 1 ''x'' (Some (sample_window 1 (Some 5))), sample_claim 2 ''y'' (Some (sample_window 5 None))]
      (\<lambda>_. []) 20 None default_config (\<lambda>_. None)) 3 {} default_config
   = fold_claims
      [sample_claim 1 ''x'' (Some (sample_window 1 (Some 5))), sample_claim 2 ''y'' (Some (sample_window 5 None))]
      (\<lambda>_. []) 20 (Some 3) default_config (\<lambda>_. None)"
proof (rule valid_at_agrees_with_fold)
  let ?cs = "[sample_claim 1 ''x'' (Some (sample_window 1 (Some 5))), sample_claim 2 ''y'' (Some (sample_window 5 None))]"
  show "fr_succession_selected (fold_claims ?cs (\<lambda>_. []) 20 None default_config (\<lambda>_. None))" by code_simp
  show "distinct (map cl_ref ?cs)" by code_simp
qed simp

text \<open>A denied claim's latest disposition is \<^verbatim>\<open>Superseded\<close>.\<close>

lemma denied_latest:
  assumes "r \<in> build_denied_via_adjudication_set ledger"
    and "inj_on le_recorded_at (set (filter (\<lambda>e. le_claim_ref e = r) ledger))"
  shows "build_latest_disposition_map ledger r = Some Superseded"
proof -
  let ?es = "filter (\<lambda>e. le_claim_ref e = r) ledger"
  let ?l = "last (sort_key le_recorded_at ?es)"
  have h: "is_denied_history ?es" using assms(1) by (simp add: build_denied_mem)
  have ne: "sort_key le_recorded_at ?es \<noteq> []" and sup: "le_disposition ?l = Superseded"
    using h by (auto simp: is_denied_history_def Let_def split: if_splits)
  have "max_by_time (sort_key le_recorded_at ?es) = Some ?l"
    using ne by (intro max_by_time_sorted) simp_all
  then have l: "?l \<in> set ?es" "\<forall>x \<in> set ?es. le_recorded_at x \<le> le_recorded_at ?l"
    by (auto dest: max_by_time_Some)
  then have "?l \<in> set ledger" "le_claim_ref ?l = r" by simp_all
  then have "r \<in> le_claim_ref ` set ledger" by (metis imageI)
  then obtain q where q: "build_latest_disposition_map ledger r = Some q"
    using latest_map_None[of ledger r] by (cases "build_latest_disposition_map ledger r") simp_all
  then obtain e where e: "e \<in> set ?es" "le_disposition e = q" "\<forall>x \<in> set ?es. le_recorded_at x \<le> le_recorded_at e"
    using latest_disposition_map_sound[OF q] by auto
  then have "e = ?l" using l inj_onD[OF assms(2), of e ?l] by (simp add: order_antisym)
  then show ?thesis using q e(2) sup by simp
qed

text \<open>C10. A claim an oracle denied is never served by a recall, at no valid-time instant, although
  it is closed by a bound like a succeeded claim is (its ledger entries have distinct times).\<close>

theorem denied_claims_never_resurface:
  assumes "r \<in> build_denied_via_adjudication_set ledger"
    and "inj_on le_recorded_at (set (filter (\<lambda>e. le_claim_ref e = r) ledger))"
  shows "r \<notin> cl_ref ` cw_claim ` set (fr_live_claims (query_memory_fold cfg t valid_at claims af ledger))"
proof
  let ?ld = "build_latest_disposition_map ledger" and ?denied = "build_denied_via_adjudication_set ledger"
  let ?fr = "fold_claims claims af t valid_at cfg ?ld"
  assume "r \<in> cl_ref ` cw_claim ` set (fr_live_claims (query_memory_fold cfg t valid_at claims af ledger))"
  then obtain cs where cs: "cs \<in> set (fr_live_claims (query_memory_fold cfg t valid_at claims af ledger))"
    "cl_ref (cw_claim cs) = r" by auto
  have dead: "\<not> cw_is_live x" if "x \<in> set (fr_all_claims ?fr)" "cl_ref (cw_claim x) = r" for x
    using that denied_latest[OF assms] by (auto simp: fold_claims_all with_status_live)
  show False
  proof (cases valid_at)
    case None
    then have "cs \<in> set (fr_live_claims ?fr)" using cs(1) by (simp add: query_memory_fold_def Let_def)
    then show ?thesis using fold_live_subset dead cs(2) by blast
  next
    case (Some v)
    then have m: "cs \<in> set (fr_live_claims (narrow_live_claims_for_valid_at ?fr v ?denied cfg))"
      using cs(1) by (simp add: query_memory_fold_def Let_def)
    have sub: "cw_is_live x \<and> x \<in> set (fr_all_claims ?fr)" if "x \<in> set (fr_live_claims ?fr)" for x
      using fold_live_subset[OF that] by blast
    have hard: "\<not> is_hard_excluded x" if "x \<in> set (fr_all_claims ?fr)" "cw_is_live x" for x
      using that by (auto simp: fold_claims_all with_status_live is_hard_excluded_def
          dest: hard_excluded_non_live split: option.splits)
    have "valid_at_candidate ?denied cs" "cs \<in> set (fr_all_claims ?fr)"
      using valid_at_live_candidate[OF m sub hard] by blast+
    then show ?thesis
      using dead cs(2) assms(1) by (auto simp: valid_at_candidate_def split: if_splits)
  qed
qed

definition sample_denied_ledger :: "ledger_entry list" where
  "sample_denied_ledger = [oracle_supersession_entry 7 ''a'' 2 1 9 ''deny'' 9]"

theorem denied_claims_never_resurface_witness:
  "2 \<notin> cl_ref ` cw_claim ` set (fr_live_claims (query_memory_fold default_config 20 (Some 6)
      [sample_claim 1 ''x'' (Some (sample_window 1 None)), sample_claim 2 ''y'' (Some (sample_window 5 None))]
      (\<lambda>r. if r = 2 then [sample_bound 3 9 9] else []) sample_denied_ledger))"
proof (rule denied_claims_never_resurface)
  show "2 \<in> build_denied_via_adjudication_set sample_denied_ledger" by code_simp
  show "inj_on le_recorded_at (set (filter (\<lambda>e. le_claim_ref e = 2) sample_denied_ledger))"
    by (simp add: sample_denied_ledger_def)
qed

section \<open>History windows and statuses\<close>

lemma sorted_primary_keys:
  "sorted (map (\<lambda>cs. primary_key (cw_claim cs) cfg) (fr_all_claims (fold_claims claims af t va cfg ld)))"
proof -
  let ?xs = "sort_key (\<lambda>c. ordering_key c cfg) claims"
  have "sorted_wrt (\<lambda>x y. ordering_key x cfg \<le> ordering_key y cfg) ?xs"
    using sorted_sort_key[of "\<lambda>c. ordering_key c cfg" claims] by (simp only: sorted_map)
  then have "sorted_wrt (\<lambda>x y. fst (ordering_key x cfg) \<le> fst (ordering_key y cfg)) ?xs"
    by (rule sorted_wrt_mono_rel[rotated]) (auto simp: less_eq_prod_def)
  then show ?thesis
    by (simp add: fold_claims_all comp_def primary_key_ordering sorted_map)
qed



text \<open>C34. History and recall agree on the present. A history entry with status Current belongs to a
  claim the fold serves on an uncontested line; when the fold serves one claim, it is the primary
  belief of the projection.\<close>

theorem history_current_is_recalled:
  assumes "e \<in> set (history_entries cfg now fr)" "he_status e = H_Current"
    and "fr = fold_claims claims af now None cfg ld" "distinct (map cl_ref claims)"
  shows "\<not> fr_has_conflict fr
    \<and> he_claim_ref e \<in> cl_ref ` cw_claim ` set (fr_live_claims fr)
    \<and> (length (fr_live_claims fr) = 1 \<longrightarrow>
         map_option be_claim_ref (bp_primary (project fr entries now cfg contested)) = Some (he_claim_ref e))"
proof -
  let ?hws = "compute_history_windows (fr_all_claims fr) (fr_has_conflict fr) now cfg"
  let ?refs = "set (map (\<lambda>cs. cl_ref (cw_claim cs)) (fr_live_claims fr))"
  obtain i where i: "i < length (fr_all_claims fr)"
    "e = history_entry_of ?refs (fr_all_claims fr ! i, ?hws ! i)"
    using assms(1) by (auto simp: history_entries_def Let_def in_set_conv_nth)
  have st: "cw_is_live (fr_all_claims fr ! i)" "\<not> hw_contested (?hws ! i)"
    "cl_ref (cw_claim (fr_all_claims fr ! i)) \<in> ?refs"
    using assms(2) by (auto simp: i(2) history_entry_of_def history_status_def split: if_splits)
  have "\<not> fr_has_conflict fr"
    using st(1,2) i(1)
    by (auto simp: compute_history_windows_nth history_window_of_def Let_def split: option.splits prod.splits)
  moreover have ref: "he_claim_ref e \<in> cl_ref ` cw_claim ` set (fr_live_claims fr)"
    using st(3) by (auto simp: i(2) history_entry_of_def)
  moreover have "map_option be_claim_ref (bp_primary (project fr entries now cfg contested)) = Some (he_claim_ref e)"
    if "length (fr_live_claims fr) = 1"
  proof -
    obtain cs where cs: "fr_live_claims fr = [cs]" using \<open>length (fr_live_claims fr) = 1\<close> by (auto simp: length_Suc_conv)
    then have "bp_primary (project fr entries now cfg contested) = Some (live_belief now cfg cs)"
      using \<open>\<not> fr_has_conflict fr\<close> project_primary by blast
    then show ?thesis using ref cs by simp
  qed
  ultimately show ?thesis by blast
qed

theorem history_current_is_recalled_witness:
  "\<exists>e \<in> set (history_entries default_config 20 sample_closed). he_status e = H_Current
     \<and> map_option be_claim_ref (bp_primary (project sample_closed [] 20 default_config False)) = Some (he_claim_ref e)"
proof -
  let ?cs = "[sample_claim 1 ''x'' (Some (sample_window 1 None)), sample_claim 2 ''y'' (Some (sample_window 5 None))]"
  have "list_ex (\<lambda>e. he_status e = H_Current) (history_entries default_config 20 sample_closed)" by code_simp
  then obtain e where e: "e \<in> set (history_entries default_config 20 sample_closed)" "he_status e = H_Current"
    by (auto simp: list_ex_iff)
  have d: "distinct (map cl_ref ?cs)" by code_simp
  have "length (fr_live_claims sample_closed) = 1" by code_simp
  then have "map_option be_claim_ref (bp_primary (project sample_closed [] 20 default_config False)) = Some (he_claim_ref e)"
    using history_current_is_recalled[OF e sample_closed_def d] by blast
  then show ?thesis using e by blast
qed

section \<open>Projection\<close>

text \<open>What a projection reports: a primary belief exactly when one claim is served without
  conflict; NoBelief exactly when none is served; a primary under the status Resolved has a known
  valid time; the internal status Conflict never leaves the projection.\<close>

theorem projection_contract:
  "let b = project fr entries now cfg contested in
     (bp_primary b \<noteq> None \<longleftrightarrow> length (fr_live_claims fr) = 1 \<and> \<not> fr_has_conflict fr)
     \<and> (bp_status b = BS_NoBelief \<longleftrightarrow> fr_live_claims fr = [])
     \<and> bp_status b \<noteq> BS_Conflict
     \<and> (\<forall>p. bp_primary b = Some p \<and> bp_status b = BS_Resolved \<longrightarrow> \<not> vt_is_unknown (be_valid_time p))"
proof -
  let ?b = "project fr entries now cfg contested"
  have 1: "bp_primary ?b \<noteq> None \<longleftrightarrow> length (fr_live_claims fr) = 1 \<and> \<not> fr_has_conflict fr"
  proof
    assume "bp_primary ?b \<noteq> None"
    then show "length (fr_live_claims fr) = 1 \<and> \<not> fr_has_conflict fr"
      using project_primary[of fr entries now cfg contested] by auto
  next
    assume "length (fr_live_claims fr) = 1 \<and> \<not> fr_has_conflict fr"
    then show "bp_primary ?b \<noteq> None"
      using project_primary[of fr entries now cfg contested] by (auto simp: length_Suc_conv)
  qed
  have 2: "bp_status ?b = BS_NoBelief \<longleftrightarrow> fr_live_claims fr = []" "bp_status ?b \<noteq> BS_Conflict"
    by (simp_all add: project_status)
  have 3: "\<not> vt_is_unknown (be_valid_time p)" if "bp_primary ?b = Some p" "bp_status ?b = BS_Resolved" for p
    using that by (auto simp: project_primary project_status split: if_splits)
  show ?thesis using 1 2 3 by (simp add: Let_def)
qed

theorem projection_contract_witness:
  "\<not> vt_is_unknown (be_valid_time (the (bp_primary (project sample_closed [] 20 default_config False))))"
proof -
  have "bp_status (project sample_closed [] 20 default_config False) = BS_Resolved"
    "bp_primary (project sample_closed [] 20 default_config False) \<noteq> None" by code_simp+
  then show ?thesis
    using projection_contract[of sample_closed "[]" 20 default_config False] by (auto simp: Let_def)
qed

text \<open>Currency only decays: as the time of the query advances, the currency state of a belief
  moves from Fresh to AgingUnconfirmed to Decayed and never back.\<close>

theorem currency_never_recovers:
  assumes "now \<le> later"
  shows "currency_rank (compute_currency_state refreshed now cfg)
       \<le> currency_rank (compute_currency_state refreshed later cfg)"
  using assms by (rule currency_rank_mono)

theorem currency_never_recovers_witness:
  "currency_rank (compute_currency_state 0 1 default_config)
     \<le> currency_rank (compute_currency_state 0 9000000000000000 default_config)"
  by (rule currency_never_recovers) simp

end
