(* ===== verification/Gate_Properties.thy ===== *)
theory Gate_Properties
  imports Samples
begin

text \<open>Properties of the decision pipeline of a write: classification, gate, the overlap guarantee of a
  silent commit, and of the codecs of the SQLite rows.\<close>

section \<open>The gate\<close>

text \<open>What the gate may decide. It never supersedes, rejects or invalidates; it quarantines
  exactly the coherent-confidence claims with an incoherent window; a ModelDerived claim is never
  committed as cheap, contested or queued.\<close>

theorem gate_dispositions:
  "gd_disposition (adjudicate p cfg) \<in> {CommittedCheap, CommittedInferred, QueuedForAdjudication, Contested, Quarantined}
   \<and> (gd_disposition (adjudicate p cfg) = Quarantined \<longleftrightarrow>
        cl_provenance (pr_candidate p) \<noteq> RecallReEntry
        \<and> \<not> f32_lt (vt_confidence (cl_valid_time (pr_candidate p))) (ec_valid_time_confidence_threshold cfg)
        \<and> vt_is_temporally_incoherent (cl_valid_time (pr_candidate p)) (cl_transaction_time (pr_candidate p)))
   \<and> (cl_provenance (pr_candidate p) = ModelDerived \<longrightarrow>
        gd_disposition (adjudicate p cfg) \<in> {CommittedInferred, Quarantined})"
proof -
  have "is_temporally_incoherent c cfg \<longleftrightarrow>
        \<not> f32_lt (vt_confidence (cl_valid_time c)) (ec_valid_time_confidence_threshold cfg)
        \<and> vt_is_temporally_incoherent (cl_valid_time c) (cl_transaction_time c)" for c
    by (simp add: is_temporally_incoherent_def vt_is_temporally_incoherent_def)
  then show ?thesis
    using adjudicate_dispositions[of p cfg] adjudicate_Quarantined[of p cfg]
    by (auto simp: adjudicate_def is_recall_reentry_def)
qed

definition sample_proposal :: "provenance_label \<Rightarrow> conflict_type \<Rightarrow> bool \<Rightarrow> proposal" where
  "sample_proposal prov ct ask =
     (let c = (request_claim (sample_request ''x'' None) 10 1)\<lparr>cl_provenance := prov\<rparr>
      in \<lparr>pr_candidate = c, pr_incumbent = Some (claim_to_belief_raw (request_claim (sample_request ''y'' None) 9 2)),
          pr_conflict_type = ct, pr_measured_confidence = F32 1,
          pr_cardinality_proposal = Functional, pr_oracle_present = ask\<rparr>)"

theorem gate_dispositions_witness:
  "gd_disposition (adjudicate (sample_proposal ModelDerived SameLineConflict True) default_config)
     \<in> {CommittedInferred, Quarantined}"
proof -
  have "cl_provenance (pr_candidate (sample_proposal ModelDerived SameLineConflict True)) = ModelDerived" by code_simp
  then show ?thesis using gate_dispositions by blast
qed

text \<open>C5. A contradiction is never resolved silently: an external claim with a coherent window that
  conflicts on its line or across lines is queued when an oracle is configured and contested when
  none is.\<close>

theorem contradiction_needs_oracle:
  assumes "is_cheap_path_eligible (cl_provenance (pr_candidate p))"
    and "\<not> is_temporally_incoherent (pr_candidate p) cfg"
    and "pr_conflict_type p \<in> {SameLineConflict, CrossLineConflict}" "pr_incumbent p \<noteq> None"
  shows "gd_disposition (adjudicate p cfg) = (if pr_oracle_present p then QueuedForAdjudication else Contested)
     \<and> gd_route (adjudicate p cfg) = HeavyPath"
proof -
  have "cl_provenance (pr_candidate p) \<noteq> ModelDerived" "cl_provenance (pr_candidate p) \<noteq> RecallReEntry"
    using assms(1) by auto
  then show ?thesis
    using assms by (auto simp: adjudicate_def is_recall_reentry_def)
qed

theorem contradiction_needs_oracle_witness:
  "gd_disposition (adjudicate (sample_proposal (External UserAsserted) SameLineConflict False) default_config) = Contested"
proof -
  let ?p = "sample_proposal (External UserAsserted) SameLineConflict False"
  have "is_cheap_path_eligible (cl_provenance (pr_candidate ?p))" by code_simp
  moreover have "\<not> is_temporally_incoherent (pr_candidate ?p) default_config" by code_simp
  moreover have "pr_conflict_type ?p \<in> {SameLineConflict, CrossLineConflict}" "pr_incumbent ?p \<noteq> None"
    "\<not> pr_oracle_present ?p" by code_simp+
  ultimately show ?thesis using contradiction_needs_oracle by metis
qed

section \<open>Silent commits\<close>

lemma classify_cheap_disjoint:
  assumes "ri_incumbent input = Some b"
    and line: "fa_subject (cl_fact (ri_candidate input)) = fa_subject (be_fact b)"
      "fa_predicate (cl_fact (ri_candidate input)) = fa_predicate (be_fact b)"
    and "classify_conflict input \<in> {NoConflict, Succession}"
    and "x \<in> set (ri_all_live_claims input)" "cl_ref x \<noteq> cl_ref (ri_candidate input)"
      "fa_value (cl_fact x) \<noteq> fa_value (cl_fact (ri_candidate input))"
      "vt_start (cl_valid_time (ri_candidate input)) \<noteq> None" "vt_start (cl_valid_time x) \<noteq> None"
  shows "windows_non_overlapping (ri_candidate input) x"
proof (cases "classify_conflict input = NoConflict")
  case True
  then have "\<not> overlaps_different_value (ri_candidate input) (ri_all_live_claims input)"
    using classify_NoConflict_incumbent(2)[OF assms(1) True line] by simp
  then show ?thesis using assms(5-9) by (auto simp: overlaps_different_value_def list_ex_iff)
next
  case False
  then have "classify_conflict input = Succession" using assms(4) by simp
  from classify_Succession[OF this] show ?thesis
    using assms(5,6) by (auto simp: is_trusted_succession_Cons)
qed


definition sample_line_fold :: fold_result where
  "sample_line_fold = fold_claims [request_claim (sample_request ''x'' (Some (sample_window 1 (Some 5)))) 6 1]
     (\<lambda>_. []) 20 None default_config (\<lambda>_. Some CommittedCheap)"


section \<open>Stored rows\<close>

text \<open>The rows of the SQLite adapter read back as what was written: claims up to the single
  column for the two copies of the valid-time confidence (exactly when the copies agree),
  assertions, ledger entries and edges exactly.\<close>

theorem stored_rows_roundtrip:
  "row_to_claim (claim_to_row c) = Inr (stored_claim c)
   \<and> (row_to_claim (claim_to_row c) = Inr c \<longleftrightarrow>
        cf_valid_time_confidence (cl_confidence c) = vt_confidence (cl_valid_time c))
   \<and> row_to_assertion (assertion_to_row a) = Inr a
   \<and> row_to_ledger (ledger_to_row e) = Inr e
   \<and> row_to_edge (edge_to_row g) = Inr g"
  by (cases c; cases "cl_confidence c")
    (auto simp: row_to_claim_to_row row_to_assertion_to_row row_to_ledger_to_row row_to_edge_to_row stored_claim_def)

text \<open>The ledger of a line is complete at any size: the chunked query of
  \<^verbatim>\<open>load_ledger_for_claims\<close> returns, for each of the requested claims, exactly the entries of that
  claim up to the cutoff in the order of the one-query specification, and nothing else.\<close>

theorem chunked_ledger_is_complete:
  assumes "load_ledger_for_claims w a refs as_of = Inr es" "distinct refs"
  shows "(\<forall>r \<in> set refs. filter (\<lambda>e. le_claim_ref e = r) es = ledger_of_chunk (sqlite_disk w) a [r] as_of)
     \<and> le_claim_ref ` set es \<subseteq> set refs"
  using sqlite.read_ledger_for[of w a refs as_of es] assms by (simp add: sqlite_port_ops)

theorem chunked_ledger_is_complete_witness:
  "map le_disposition (ledger_of_chunk (sqlite_disk world1) ''a'' [1] None) = [CommittedCheap]"
proof -
  obtain es where es: "load_ledger_for_claims world1 ''a'' [1] None = Inr es"
    "map le_disposition (filter (\<lambda>e. le_claim_ref e = 1) es) = [CommittedCheap]"
  proof -
    have "(case load_ledger_for_claims world1 ''a'' [1] None of
        Inr es \<Rightarrow> map le_disposition (filter (\<lambda>e. le_claim_ref e = 1) es) = [CommittedCheap] | Inl _ \<Rightarrow> False)"
      by code_simp
    then show ?thesis using that by (cases "load_ledger_for_claims world1 ''a'' [1] None") auto
  qed
  then show ?thesis using chunked_ledger_is_complete[OF es(1)] by simp
qed

text \<open>Two notions of latest disposition. The map the folds use (first of the latest entries) and
  the function the adjudication use cases use (last of the latest) agree on a claim whose entries
  have distinct times.\<close>

theorem latest_dispositions_coincide:
  assumes "inj_on le_recorded_at (set (filter (\<lambda>e. le_claim_ref e = r) es))"
  shows "build_latest_disposition_map es r = latest_disposition_from_ledger es r"
  using assms by (rule latest_dispositions_agree)

theorem latest_dispositions_coincide_witness:
  "build_latest_disposition_map [abstain_entry 1 ''a'' 1 5, affirm_entry 2 ''a'' 1 ModelDerived 7] 1
     = latest_disposition_from_ledger [abstain_entry 1 ''a'' 1 5, affirm_entry 2 ''a'' 1 ModelDerived 7] 1"
  by (rule latest_dispositions_coincide) (auto simp: inj_on_def)

end
