(* ===== verification/Write_Facts.thy ===== *)
theory Write_Facts
  imports Engine_Steps
begin

text \<open>Facts that join the write use cases with the reads: the claim, disposition and pending row after
  an ingest, the liveness of incumbent and challenger after a verdict, the active bound after a
  host assertion.\<close>

section \<open>After an ingest\<close>

lemma find_append: "find Q (xs @ ys) = (case find Q xs of None \<Rightarrow> find Q ys | Some x \<Rightarrow> Some x)"
  by (induction xs) auto

lemma lineage_edges_mem:
  "e \<in> set (lineage_edges ids k a r now ps) \<Longrightarrow>
     ed_agent_id e = a \<and> ed_from_claim e = r \<and> ed_kind e = DerivedFrom \<and> ed_to_claim e \<in> set ps"
  by (induction ids k a r now ps rule: lineage_edges.induct) auto

lemma lineage_edges_targets: "map ed_to_claim (lineage_edges ids k a r now ps) = ps"
  by (induction ids k a r now ps rule: lineage_edges.induct) auto

lemma committed_entry_simps [simp]:
  "le_agent_id (committed_entry i a r d now) = a" "le_claim_ref (committed_entry i a r d now) = r"
  "le_disposition (committed_entry i a r d now) = gd_disposition d" "le_recorded_at (committed_entry i a r d now) = now"
  by (simp_all add: committed_entry_def)

lemma committed_db_tables:
  "db_claims (committed_db ids c dec a now d) = db_claims d @ [stored_claim c]"
  "db_ledger (committed_db ids c dec a now d) = db_ledger d @ [committed_entry (ids 1) a (cl_ref c) dec now]"
  "db_edges (committed_db ids c dec a now d) = db_edges d @ lineage_edges ids 2 a (cl_ref c) now (cl_derived_from c)"
  "db_assertions (committed_db ids c dec a now d) = db_assertions d"
  "db_pending (committed_db ids c dec a now d) = db_pending d"
  by (simp_all add: committed_db_def)

lemma committed_db_claim:
  assumes "cl_ref c \<notin> cl_ref ` set (db_claims d)" "cl_agent_id c = a"
  shows "claim_of (committed_db ids c dec a now d) a (cl_ref c) = Some (stored_claim c)"
proof -
  have "find (\<lambda>x. cl_agent_id x = a \<and> cl_ref x = cl_ref c) (db_claims d) = None"
    using assms(1) unfolding find_None_iff by (metis imageI)
  then show ?thesis using assms(2) by (simp add: claim_of_def committed_db_tables find_append)
qed

lemma committed_db_latest:
  assumes "ledger_until now d"
  shows "latest_in (committed_db ids c dec a now d) a (cl_ref c) = Some (gd_disposition dec)"
  using latest_in_append[OF assms, of "[committed_entry (ids 1) a (cl_ref c) dec now]"] committed_db_tables(2)
  by simp

text \<open>A queued decision has an incumbent.\<close>

lemma queued_has_incumbent:
  assumes "gd_disposition (snd (ingest_decide cfg ask req c fr ledger)) = QueuedForAdjudication"
  shows "\<exists>b. fst (ingest_decide cfg ask req c fr ledger) = Some b"
  using assms by (auto simp: ingest_decide_def Let_def adjudicate_def reconcile_claim_def split: if_splits)

context engine_store
begin

lemma enqueue_cases:
  assumes "Qo \<in> {None, Some Q}"
    and "enqueue_adjudication Qo oracle cfg req incumbent c resp now w = (r, w')"
  obtains (Nothing) "disk w' = disk w" "r = Inr resp"
      "ir_disposition resp \<noteq> QueuedForAdjudication \<or> oracle = None \<or> Qo = None \<or> incumbent = None"
    | (Failed) e where "disk w' = disk w" "r = Inl e" "ir_disposition resp = QueuedForAdjudication"
    | (Enqueued) b h where "incumbent = Some b" "r = Inr resp" "ir_disposition resp = QueuedForAdjudication"
        "disk w' = add_pending (stored (pending_row_of cfg req b c (ir_claim_ref resp) h now)) (disk w)"
proof (cases "ir_disposition resp = QueuedForAdjudication \<and> oracle \<noteq> None \<and> Qo \<noteq> None \<and> incumbent \<noteq> None")
  case False
  then show ?thesis using assms(2)
    by (intro Nothing) (auto simp: enqueue_adjudication_def split: option.splits if_splits)
next
  case True
  then obtain ask b where o: "oracle = Some ask" "Qo = Some Q" "incumbent = Some b"
    "ir_disposition resp = QueuedForAdjudication" using assms(1) by auto
  show ?thesis
  proof (cases "ask (iq_agent_id req) (adjudication_request_of req b c)")
    case (Inl e)
    then show ?thesis using assms(2) o by (intro Failed) (auto simp: enqueue_adjudication_def)
  next
    case (Inr h)
    let ?row = "pending_row_of cfg req b c (ir_claim_ref resp) h now"
    obtain r1 w1 where i: "pq_insert_pending Q ?row w = (r1, w1)" by (cases "pq_insert_pending Q ?row w")
    show ?thesis
    proof (cases r1)
      case (Inl e)
      then show ?thesis using assms(2) o Inr i insert_err[of ?row w e w1]
        by (intro Failed) (auto simp: enqueue_adjudication_def)
    next
      case r1: (Inr u)
      then show ?thesis using assms(2) o Inr i insert_ok[of ?row w u w1]
        by (intro Enqueued[of b h]) (auto simp: enqueue_adjudication_def)
    qed
  qed
qed

text \<open>The two outcomes of an ingest: nothing, or the rows of one claim and at most one pending row.\<close>

lemma ingest_outcomes:
  assumes "Qo \<in> {None, Some Q}" "ingest_execute P Qo oracle cfg ids req now w = (r, w')"
  defines "a \<equiv> iq_agent_id req" and "c \<equiv> request_claim req now (ids 0)"
  obtains (Nothing) "disk w' = disk w"
      "\<And>resp. r = Inr resp \<Longrightarrow> iq_provenance req = RecallReEntry \<or> ec_quarantine_burst_threshold cfg = 0"
    | (Committed) claims ledger inc dec rows where
      "pp_load_subject_line P w a (iq_subject req) (iq_predicate req) None = Inr claims"
      "pp_load_ledger_for_claims P w a (map cl_ref claims) None = Inr ledger"
      "(inc, dec) = ingest_decide cfg (oracle \<noteq> None) req c
         (fold_claims claims (assertions_for P w a) now None cfg (build_latest_disposition_map ledger)) ledger"
      "ids 0 \<notin> cl_ref ` set (db_claims (disk w))"
      "disk w' = (committed_db ids c dec a now (disk w))\<lparr>db_pending := db_pending (disk w) @ rows\<rparr>"
      "\<And>e. r = Inl e \<Longrightarrow> gd_disposition dec = QueuedForAdjudication \<and> rows = []"
      "rows = [] \<or> (\<exists>b h. inc = Some b \<and> rows = [stored (pending_row_of cfg req b c (ids 0) h now)])"
      "\<And>resp. r = Inr resp \<Longrightarrow> ir_claim_ref resp = ids 0 \<and> ir_disposition resp = gd_disposition dec
         \<and> (gd_disposition dec = QueuedForAdjudication \<longrightarrow> oracle \<noteq> None \<longrightarrow> Qo \<noteq> None \<longrightarrow> rows \<noteq> [])"
proof -
  note nothing = Nothing and committed = Committed
  from assms(2) show ?thesis
  proof (cases rule: ingest_execute_cases)
    case Untouched
    have ok: "iq_provenance req = RecallReEntry \<or> ec_quarantine_burst_threshold cfg = 0" if "r = Inr resp" for resp
      using Untouched(2)[OF that] firewall_corroborates firewall_quarantine[of cfg c _ 0]
      by (fastforce simp: c_def word_le_0_iff)
    show ?thesis by (rule nothing) (use Untouched(1) ok in \<open>auto\<close>)
  next
    case (Classified claims ledger)
    let ?fr = "fold_claims claims (assertions_for P w a) now None cfg (build_latest_disposition_map ledger)"
    obtain inc dec where d: "ingest_decide cfg (oracle \<noteq> None) req c ?fr ledger = (inc, dec)"
      by (cases "ingest_decide cfg (oracle \<noteq> None) req c ?fr ledger")
    have queued: "\<exists>b. inc = Some b" if "gd_disposition dec = QueuedForAdjudication"
      using queued_has_incumbent[of cfg "oracle \<noteq> None" req c ?fr ledger] that d by simp
    note reads = Classified(1,2)[folded a_def]
    from assms(1) Classified(3) show ?thesis
    proof (cases rule: ingest_classified_cases)
      case (Failed e)
      show ?thesis by (rule nothing) (use Failed in \<open>auto\<close>)
    next
      case (Committed resp w1)
      have w1: "disk w1 = committed_db ids c dec a now (disk w)"
        "ids 0 \<notin> cl_ref ` set (db_claims (disk w))" "ir_claim_ref resp = ids 0"
        "ir_disposition resp = gd_disposition dec"
        "enqueue_adjudication Qo oracle cfg req inc c resp now w1 = (r, w')"
        using Committed d by (simp_all add: a_def c_def)
      note decided = d[symmetric]
      from assms(1) w1(5) show ?thesis
      proof (cases rule: enqueue_cases)
        case Nothing
        show ?thesis
          by (rule committed[OF reads decided w1(2), of "[]"])
            (use Nothing w1 queued in \<open>auto simp: committed_db_tables\<close>)
      next
        case (Failed e)
        show ?thesis
          by (rule committed[OF reads decided w1(2), of "[]"])
            (use Failed w1 in \<open>auto simp: committed_db_tables\<close>)
      next
        case (Enqueued b h)
        show ?thesis
          by (rule committed[OF reads decided w1(2), of "[stored (pending_row_of cfg req b c (ids 0) h now)]"])
            (use Enqueued w1 in \<open>auto simp: add_pending_def committed_db_tables\<close>)
      qed
    qed
  qed
qed

end

section \<open>After a verdict\<close>

lemma active_bound_one_more:
  assumes "db_assertions d' = db_assertions d @ [x]" "assertions_before now d a r"
    and "va_agent_id x = a" "va_target_claim x = r" "va_asserted_at x = now"
  shows "active_bound_at (assertions_of d' a r) t = bound_step t x (active_bound_at (assertions_of d a r) t)"
proof -
  have "assertions_of d' a r = assertions_of d a r @ [x]"
    using assms by (auto simp: assertions_of_def assertions_before_def intro!: sort_key_snoc_max less_imp_le)
  then show ?thesis
    using assms(2,5) by (auto simp: assertions_before_def intro!: active_bound_at_snoc assertion_key_le_time)
qed

lemma supersession_assertion_simps [simp]:
  "va_agent_id (supersession_assertion i a r b g now) = a"
  "va_target_claim (supersession_assertion i a r b g now) = r"
  "va_asserted_at (supersession_assertion i a r b g now) = now"
  "va_kind (supersession_assertion i a r b g now) = Bound b g"
  "va_assertion_ref (supersession_assertion i a r b g now) = i"
  by (simp_all add: supersession_assertion_def)

lemma verdict_db_assertions:
  "db_assertions (verdict_db cfg ids row handle resp c now d) = db_assertions d @
     verdict_assertions ids (ap_verdict resp) (pa_agent_id row) (pa_challenger row) (pa_incumbent row) now
       (fst (affirm_bound cfg c now)) (snd (affirm_bound cfg c now))"
  by (simp add: verdict_db_def set_pending_status_def Let_def split: prod.split)

text \<open>Affirm: the incumbent is bounded at \<^verbatim>\<open>affirm_bound\<close>, the challenger committed.\<close>

lemma affirm_bounds_incumbent:
  assumes "ap_verdict resp = Affirm" "assertions_before now d (pa_agent_id row) (pa_incumbent row)"
    and "now \<le> t" "fst (affirm_bound cfg c now) \<le> t"
  shows "active_bound_at (assertions_of (verdict_db cfg ids row handle resp c now d) (pa_agent_id row) (pa_incumbent row)) t
    = Some \<lparr>bs_bound_at = fst (affirm_bound cfg c now), bs_assertion_ref = ids 0,
            bs_bound_at_granularity = snd (affirm_bound cfg c now)\<rparr>"
proof -
  let ?x = "supersession_assertion (ids 0) (pa_agent_id row) (pa_incumbent row) (fst (affirm_bound cfg c now))
      (snd (affirm_bound cfg c now)) now"
  have "db_assertions (verdict_db cfg ids row handle resp c now d) = db_assertions d @ [?x]"
    by (simp add: verdict_db_assertions verdict_assertions_def assms(1))
  from active_bound_one_more[OF this assms(2)] show ?thesis
    using assms(3,4) by (simp add: bound_step_def)
qed

lemma affirm_commits_challenger:
  assumes "ap_verdict resp = Affirm" "ledger_until now d"
  shows "latest_in (verdict_db cfg ids row handle resp c now d) (pa_agent_id row) (pa_challenger row) = Some CommittedCheap"
  using latest_in_append[OF assms(2) _ verdict_db_ledger] verdict_ledger_now
  by (simp add: verdict_ledger_def assms(1) Let_def)

text \<open>Deny: the challenger is bounded now and marked denied.\<close>

lemma deny_bounds_challenger:
  assumes "ap_verdict resp = Deny" "assertions_before now d (pa_agent_id row) (pa_challenger row)" "now \<le> t"
  shows "active_bound_at (assertions_of (verdict_db cfg ids row handle resp c now d) (pa_agent_id row) (pa_challenger row)) t
    = Some \<lparr>bs_bound_at = now, bs_assertion_ref = ids 0, bs_bound_at_granularity = None\<rparr>"
proof -
  let ?x = "supersession_assertion (ids 0) (pa_agent_id row) (pa_challenger row) now None now"
  have "db_assertions (verdict_db cfg ids row handle resp c now d) = db_assertions d @ [?x]"
    by (simp add: verdict_db_assertions verdict_assertions_def assms(1))
  from active_bound_one_more[OF this assms(2)] show ?thesis
    using assms(3) by (simp add: bound_step_def)
qed

lemma dependent_flags_other:
  "r \<notin> set xs \<Longrightarrow> filter (\<lambda>e. le_agent_id e = a' \<and> le_claim_ref e = r) (dependent_flags ids k a p ov now xs) = []"
  by (induction ids k a p ov now xs rule: dependent_flags.induct) (auto simp: dependent_flag_def)

lemma verdict_field_deny: "verdict_field (oracle_supersession_entry i a r ov b ''deny'' now) = Some [Lit ''deny'']"
  by (simp add: verdict_field_def oracle_supersession_entry_def)

lemma deny_marks_challenger:
  fixes d d' :: db
  assumes "ap_verdict resp = Deny" "ledger_until now d"
    and "pa_challenger row \<notin> set (dependents_of (pa_challenger row) (edges_of d (pa_agent_id row) (pa_challenger row)))"
    and d': "d' = verdict_db cfg ids row handle resp c now d"
  shows "latest_in d' (pa_agent_id row) (pa_challenger row) = Some Superseded"
    "pa_challenger row \<in> build_denied_via_adjudication_set (ledger_slice d' (pa_agent_id row) [pa_challenger row] None)"
proof -
  let ?a = "pa_agent_id row" and ?r = "pa_challenger row"
  let ?x = "oracle_supersession_entry (ids 1) ?a ?r (pa_incumbent row) now ''deny'' now"
  let ?es = "verdict_ledger ids Deny (ap_evidence_provenance resp) ?a ?r (pa_incumbent row) now
      (fst (affirm_bound cfg c now)) (edges_of d ?a (pa_incumbent row)) (edges_of d ?a ?r)"
  have mine: "filter (\<lambda>e. le_agent_id e = ?a \<and> le_claim_ref e = ?r) ?es = [?x]"
    by (simp add: verdict_ledger_def bound_rows_def dependent_flags_other[OF assms(3)])
  have led: "db_ledger d' = db_ledger d @ ?es" unfolding d' verdict_db_ledger assms(1) by (rule refl)
  show "latest_in d' ?a ?r = Some Superseded"
    using latest_in_append[OF assms(2) _ led, of ?a ?r] verdict_ledger_now by (simp add: mine)
  have "claim_entries d' ?a ?r = claim_entries d ?a ?r @ [?x]"
    using mine by (simp add: claim_entries_def led)
  then have chunk: "ledger_of_chunk d' ?a [?r] None = ledger_of_chunk d ?a [?r] None @ [?x]"
    using assms(2) by (auto simp: ledger_of_chunk_single claim_entries_def ledger_until_def intro!: sort_key_snoc_max)
  have same: "sort_key le_recorded_at (ledger_of_chunk d' ?a [?r] None) = ledger_of_chunk d' ?a [?r] None"
    by (intro sort_key_id_if_sorted) (simp add: ledger_of_chunk_def)
  have "is_denied_history (ledger_of_chunk d' ?a [?r] None)"
    using same unfolding is_denied_history_def chunk Let_def by (simp add: verdict_field_deny del: One_nat_def)
  then show "?r \<in> build_denied_via_adjudication_set (ledger_slice d' ?a [?r] None)"
    by (simp add: build_denied_mem ledger_slice_def)
qed

end
