(* ===== verification/Write_Properties.thy ===== *)
theory Write_Properties
  imports Write_Facts Samples
begin

text \<open>Properties of the write use cases over the SQLite adapter, under every schedule of failures.\<close>

lemma pair_Inr: "\<not> isl (fst p) \<Longrightarrow> p = (Inr (projr (fst p)), snd p)"
  by (cases p) (auto simp: isl_def split: sum.splits)

section \<open>ingest\_claim\<close>

text \<open>Recall re-entry is not amplified: a claim re-ingested from recall is answered with the
  claim it derives from, and nothing is written.\<close>

theorem recall_reentry_writes_nothing:
  assumes "iq_provenance req = RecallReEntry" "iq_derived_from req = origin # others"
    and "0 < ec_quarantine_burst_threshold cfg"
    and "pp_load_injected_claims sqlite_port w (iq_agent_id req) = Inr injected"
  shows "ingest_execute sqlite_port Qo oracle cfg ids req now w =
     (Inr \<lparr>ir_claim_ref = origin, ir_disposition = CommittedCheap, ir_contested_with = []\<rparr>, w)"
proof -
  have "firewall_check cfg (request_claim req now (ids 0)) injected 0 = CorroborateByIdentity origin False"
    using assms(1-3) by (simp add: firewall_corroborates)
  then show ?thesis using assms(4) by (simp add: ingest_execute_def)
qed

definition sample_reentry :: ingest_request where
  "sample_reentry = (sample_request ''x'' None)\<lparr>iq_provenance := RecallReEntry, iq_derived_from := [1]\<rparr>"

theorem recall_reentry_writes_nothing_witness:
  "snd (ingest_execute sqlite_port None None default_config (sample_ids 50) sample_reentry 30 world1) = world1"
proof -
  have "pp_load_injected_claims sqlite_port world1 (iq_agent_id sample_reentry) = Inr []" by code_simp
  moreover have "(0 :: 32 word) < ec_quarantine_burst_threshold default_config" by (simp add: default_config_def)
  ultimately show ?thesis
    using recall_reentry_writes_nothing[of sample_reentry 1 "[]" default_config world1]
    by (simp add: sample_reentry_def)
qed

text \<open>C3. Ingest is all or nothing. Whatever fails, either the store is as before, or it holds the
  rows of exactly one claim decided by the classification and the gate (claim, one ledger entry, one
  edge per parent) and at most one pending row. An error after the commit only happens for a queued
  claim, and then leaves it without a pending row.\<close>

theorem ingest_all_or_nothing:
  assumes "Qo \<in> {None, Some sqlite_queue}"
    and "ingest_execute sqlite_port Qo oracle cfg ids req now w = (r, w')"
  shows "sqlite_disk w' = sqlite_disk w
    \<or> (\<exists>claims ledger inc dec rows.
         pp_load_subject_line sqlite_port w (iq_agent_id req) (iq_subject req) (iq_predicate req) None = Inr claims
         \<and> pp_load_ledger_for_claims sqlite_port w (iq_agent_id req) (map cl_ref claims) None = Inr ledger
         \<and> (inc, dec) = ingest_decide cfg (oracle \<noteq> None) req (request_claim req now (ids 0))
              (fold_claims claims (assertions_for sqlite_port w (iq_agent_id req)) now None cfg
                 (build_latest_disposition_map ledger)) ledger
         \<and> sqlite_disk w' = (committed_db ids (request_claim req now (ids 0)) dec (iq_agent_id req) now
              (sqlite_disk w))\<lparr>db_pending := db_pending (sqlite_disk w) @ rows\<rparr>
         \<and> (rows = [] \<or> (\<exists>b h. inc = Some b
              \<and> rows = [pending_row_of cfg req b (request_claim req now (ids 0)) (ids 0) h now]))
         \<and> (isl r \<longrightarrow> gd_disposition dec = QueuedForAdjudication \<and> rows = []))"
  using assms
proof (cases rule: sqlite_engine.ingest_outcomes)
  case (Committed claims ledger inc dec rows)
  have "isl r \<longrightarrow> gd_disposition dec = QueuedForAdjudication \<and> rows = []"
    using Committed(6) by (cases r) auto
  then show ?thesis
    using Committed(1-3,5,7) by blast
qed simp

theorem ingest_all_or_nothing_witness:
  "sqlite_disk (snd (ingest_execute sqlite_port None None default_config (sample_ids 50)
     (sample_request ''z'' None) 30 (world1\<lparr>sw_faults := [False, False, True]\<rparr>))) = sqlite_disk world1"
proof -
  let ?w = "world1\<lparr>sw_faults := [False, False, True]\<rparr>"
  let ?run = "ingest_execute sqlite_port None None default_config (sample_ids 50) (sample_request ''z'' None) 30 ?w"
  have "length (db_claims (sqlite_disk (snd ?run))) = 1" "length (db_claims (sqlite_disk ?w)) = 1" by code_simp+
  then show ?thesis
    using ingest_all_or_nothing[of None None default_config "sample_ids 50" "sample_request ''z'' None" 30 ?w
        "fst ?run" "snd ?run"]
    by (auto simp: committed_db_tables sqlite_disk_def)
qed



text \<open>A queued claim can be adjudicated: when an oracle and a queue are configured and the ingest
  succeeds with QueuedForAdjudication, the last pending row is its request: it names the challenger,
  is pending, and expires after the configured time to live.\<close>

theorem queued_claim_has_pending_row:
  assumes "ingest_execute sqlite_port (Some sqlite_queue) (Some ask) cfg ids req now w = (Inr resp, w')"
    and "ir_disposition resp = QueuedForAdjudication"
    and "iq_provenance req \<noteq> RecallReEntry" "ec_quarantine_burst_threshold cfg \<noteq> 0"
  shows "\<exists>row. db_pending (sqlite_disk w') = db_pending (sqlite_disk w) @ [row]
     \<and> pa_challenger row = ir_claim_ref resp \<and> pa_agent_id row = iq_agent_id req
     \<and> pa_status row = ''pending'' \<and> pa_queued_at row = now
     \<and> pa_expires_at row = map_option (\<lambda>ttl. now + chrono_from_std ttl) (ec_default_adjudication_ttl cfg)"
proof -
  have "Some sqlite_queue \<in> {None, Some sqlite_queue}" by simp
  from this assms(1) show ?thesis
  proof (cases rule: sqlite_engine.ingest_outcomes)
    case Nothing
    then show ?thesis using assms(3,4) by auto
  next
    case (Committed claims ledger inc dec rows)
    then have "rows \<noteq> []" "ir_claim_ref resp = ids 0" using assms(2) by auto
    then show ?thesis using Committed(5,7) by (auto simp: pending_row_of_def)
  qed
qed

theorem queued_claim_has_pending_row_witness:
  "\<exists>row. db_pending (sqlite_disk world2) = db_pending (sqlite_disk world1) @ [row] \<and> pa_expires_at row = Some 25"
proof -
  let ?run = "ingest_execute sqlite_port (Some sqlite_queue) (Some sample_oracle) sample_config (sample_ids 11)
     (sample_request ''y'' None) 20 world1"
  have "\<not> isl (fst ?run)" "ir_disposition (projr (fst ?run)) = QueuedForAdjudication" by code_simp+
  moreover have "ec_quarantine_burst_threshold sample_config \<noteq> 0" by (simp add: sample_config_def default_config_def)
  moreover have "iq_provenance (sample_request ''y'' None) \<noteq> RecallReEntry" by code_simp
  moreover have "map_option (\<lambda>ttl. 20 + chrono_from_std ttl) (ec_default_adjudication_ttl sample_config) = Some 25" by code_simp
  ultimately show ?thesis
    using queued_claim_has_pending_row[of sample_oracle sample_config "sample_ids 11" "sample_request ''y'' None"
        20 world1 "projr (fst ?run)" "snd ?run"] pair_Inr[of ?run]
    unfolding world2_def by metis
qed

end
