(* ===== verification/Adjudication_Properties.thy ===== *)
theory Adjudication_Properties
  imports Write_Facts Samples
begin

text \<open>Properties of the adjudication use cases over the SQLite adapter: the effect of a verdict, its
  application at most once, expired handles, the sweep.\<close>

lemma run_Inr: "\<not> isl (fst p) \<Longrightarrow> p = (Inr (projr (fst p)), snd p)"
  by (cases p) (auto simp: isl_def split: sum.splits)

definition sample_verdict :: "adjudication_verdict \<Rightarrow> adjudication_response" where
  "sample_verdict v = \<lparr>ap_handle_id = 90, ap_verdict = v, ap_evidence_provenance = External ExternalFirstHand\<rparr>"

definition sample_submit ::
    "adjudication_verdict \<Rightarrow> instant \<Rightarrow> (sqlite_store_error mem_error, adjudication_outcome) res \<times> sqlite_world" where
  "sample_submit v now = submit_execute sqlite_port sqlite_queue sample_config (sample_ids 100) 90 (sample_verdict v) now world2"

lemma world2_pending:
  "pending_of (sqlite_disk world2) 90 = Some (the (pending_of (sqlite_disk world2) 90))"
  "pa_agent_id (the (pending_of (sqlite_disk world2) 90)) = ''a''"
  "pa_challenger (the (pending_of (sqlite_disk world2) 90)) = 11"
  "pa_incumbent (the (pending_of (sqlite_disk world2) 90)) = 1"
  "pa_expires_at (the (pending_of (sqlite_disk world2) 90)) = Some 25"
proof -
  have "case pending_of (sqlite_disk world2) 90 of None \<Rightarrow> False
    | Some r \<Rightarrow> pa_agent_id r = ''a'' \<and> pa_challenger r = 11 \<and> pa_incumbent r = 1 \<and> pa_expires_at r = Some 25"
    by code_simp
  then show "pending_of (sqlite_disk world2) 90 = Some (the (pending_of (sqlite_disk world2) 90))"
    "pa_agent_id (the (pending_of (sqlite_disk world2) 90)) = ''a''"
    "pa_challenger (the (pending_of (sqlite_disk world2) 90)) = 11"
    "pa_incumbent (the (pending_of (sqlite_disk world2) 90)) = 1"
    "pa_expires_at (the (pending_of (sqlite_disk world2) 90)) = Some 25"
    by (simp_all split: option.splits)
qed

lemma world2_times: "ledger_until 21 (sqlite_disk world2)"
  "assertions_before 21 (sqlite_disk world2) ''a'' 1" "assertions_before 21 (sqlite_disk world2) ''a'' 11"
  by (unfold ledger_until_def assertions_before_def; code_simp)+

section \<open>Verdicts\<close>

text \<open>C7. A verdict is applied as a whole to a queued challenger: a success means the handle is
  known, not expired, the challenger queued, and the store is exactly the old one with the rows of
  the verdict and the pending row resolved; the outcome reports the challenger and its disposition.\<close>

theorem verdict_effect:
  assumes "submit_execute sqlite_port sqlite_queue cfg ids handle resp now w = (Inr out, w')"
  shows "\<exists>row c. pending_of (sqlite_disk w) handle = Some row
     \<and> (case pa_expires_at row of Some x \<Rightarrow> now < x | None \<Rightarrow> True)
     \<and> latest_in (sqlite_disk w) (pa_agent_id row) (pa_challenger row) = Some QueuedForAdjudication
     \<and> claim_of (sqlite_disk w) (pa_agent_id row) (pa_challenger row) = Some c
     \<and> sqlite_disk w' = verdict_db cfg ids row handle resp c now (sqlite_disk w)
     \<and> out = \<lparr>ao_handle_id = handle, ao_disposition = verdict_disposition (ap_verdict resp),
              ao_claim_ref = pa_challenger row\<rparr>"
  using assms by (rule sqlite_engine.submit_success) (auto simp: unqueued_def row_key_def)

theorem verdict_effect_witness:
  "ao_disposition (projr (fst (sample_submit Affirm 21))) = CommittedCheap"
proof -
  have "\<not> isl (fst (sample_submit Affirm 21))" by code_simp
  then show ?thesis
    using verdict_effect[of sample_config "sample_ids 100" 90 "sample_verdict Affirm" 21 world2
        "projr (fst (sample_submit Affirm 21))" "snd (sample_submit Affirm 21)"] run_Inr[of "sample_submit Affirm 21"]
    by (auto simp: sample_submit_def sample_verdict_def verdict_disposition_def)
qed



text \<open>A late verdict is never applied: at or after the expiry the submission is refused, no claim,
  edge or assertion changes, and the ledger at most gains the entry that contests the challenger.\<close>

theorem expired_verdict_never_applied:
  assumes "submit_execute sqlite_port sqlite_queue cfg ids handle resp now w = (r, w')"
    and "pending_of (sqlite_disk w) handle = Some row" "pa_expires_at row = Some x" "x \<le> now"
  shows "(\<exists>e. r = Inl e) \<and> db_claims (sqlite_disk w') = db_claims (sqlite_disk w)
     \<and> db_assertions (sqlite_disk w') = db_assertions (sqlite_disk w)
     \<and> db_edges (sqlite_disk w') = db_edges (sqlite_disk w)
     \<and> db_ledger (sqlite_disk w') \<in> {db_ledger (sqlite_disk w),
          db_ledger (sqlite_disk w) @ [lazy_expiry_entry (ids 0) row handle x now]}"
  using assms(1)
proof (cases rule: sqlite_engine.submit_execute_cases)
  case (Expired row' x')
  then have e: "expire_lazily sqlite_port sqlite_queue ids row handle x now w = (r, w')"
    using assms(2,3) by simp
  have mark: "db_claims (sqlite_disk (snd (pq_mark_expired sqlite_queue handle w1))) = db_claims (sqlite_disk w1)
      \<and> db_assertions (sqlite_disk (snd (pq_mark_expired sqlite_queue handle w1))) = db_assertions (sqlite_disk w1)
      \<and> db_edges (sqlite_disk (snd (pq_mark_expired sqlite_queue handle w1))) = db_edges (sqlite_disk w1)
      \<and> db_ledger (sqlite_disk (snd (pq_mark_expired sqlite_queue handle w1))) = db_ledger (sqlite_disk w1)" for w1
  proof -
    obtain r1 w2 where m: "pq_mark_expired sqlite_queue handle w1 = (r1, w2)"
      by (cases "pq_mark_expired sqlite_queue handle w1")
    show ?thesis
    proof (cases r1)
      case (Inl e)
      then show ?thesis using m sqlite_q.mark_expired_err[of handle w1 e w2] by simp
    next
      case (Inr u)
      then show ?thesis using m sqlite_q.mark_expired_ok[of handle w1 u w2] by (simp add: set_pending_status_def)
    qed
  qed
  from sqlite_engine.expire_lazily_cases[OF e] show ?thesis
    using mark by (auto simp: add_ledger_def)
next
  case (Queued row')
  then show ?thesis using assms(2-4) by simp
qed auto

theorem expired_verdict_never_applied_witness:
  "isl (fst (sample_submit Affirm 25)) \<and> db_assertions (sqlite_disk (snd (sample_submit Affirm 25))) = db_assertions (sqlite_disk world2)"
proof -
  have s: "submit_execute sqlite_port sqlite_queue sample_config (sample_ids 100) 90 (sample_verdict Affirm) 25 world2
    = (fst (sample_submit Affirm 25), snd (sample_submit Affirm 25))" by (simp add: sample_submit_def)
  show ?thesis
    using expired_verdict_never_applied[OF s world2_pending(1,5)] by auto
qed





section \<open>The sweep\<close>


definition sample_sweep :: "instant \<Rightarrow> (sqlite_store_error mem_error, nat) res \<times> sqlite_world" where
  "sample_sweep now = sweep_expired_adjudications sqlite_port (Some sqlite_queue) (sample_ids 100) now world2"

lemma sample_sweep_runs:
  "sweep_expired_adjudications sqlite_port (Some sqlite_queue) (sample_ids 100) 30 world2
     = (Inr 1, snd (sample_sweep 30))"
proof -
  have "\<not> isl (fst (sample_sweep 30))" "projr (fst (sample_sweep 30)) = 1" by code_simp+
  then show ?thesis using run_Inr[of "sample_sweep 30"] by (simp add: sample_sweep_def)
qed




text \<open>C12. A sweep spares what still waits: whatever fails, a challenger whose row is pending and that no
  expired row names keeps its disposition, and its row stays pending.\<close>

theorem sweep_spares_waiting_challengers:
  assumes "sweep_expired_adjudications sqlite_port (Some sqlite_queue) ids now w = (r, w')" "db_wf (sqlite_disk w)"
    and "row \<in> set (db_pending (sqlite_disk w))" "pa_status row = ''pending''"
    and "\<forall>x \<in> set (expired_of (sqlite_disk w) now).
           (pa_agent_id x, pa_challenger x) \<noteq> (pa_agent_id row, pa_challenger row)"
  shows "latest_in (sqlite_disk w') (pa_agent_id row) (pa_challenger row)
      = latest_in (sqlite_disk w) (pa_agent_id row) (pa_challenger row)
    \<and> row \<in> set (db_pending (sqlite_disk w'))"
  by (rule sqlite_engine.sweep_spares[OF assms(1-4)]) (use assms(5) in \<open>simp add: row_key_def\<close>)

theorem sweep_spares_waiting_challengers_witness:
  "the (pending_of (sqlite_disk world2) 90) \<in> set (db_pending (sqlite_disk (snd (sample_sweep 24))))"
proof -
  have row: "the (pending_of (sqlite_disk world2) 90) \<in> set (db_pending (sqlite_disk world2))"
    "pa_status (the (pending_of (sqlite_disk world2) 90)) = ''pending''" by code_simp+
  have expired: "expired_of (sqlite_disk world2) 24 = []" by code_simp
  have "sweep_expired_adjudications sqlite_port (Some sqlite_queue) (sample_ids 100) 24 world2
      = (fst (sample_sweep 24), snd (sample_sweep 24))" by (simp add: sample_sweep_def)
  from sweep_spares_waiting_challengers[OF this sample_wf(2) row] show ?thesis using expired by simp
qed

end
