(* ===== verification/Validity_Properties.thy ===== *)
theory Validity_Properties
  imports Write_Facts Samples
begin

text \<open>Properties of \<^verbatim>\<open>assert_validity\<close> and \<^verbatim>\<open>reconcile\<close> over the SQLite adapter.\<close>

definition sample_validity :: "validity_assertion_input \<Rightarrow> assert_validity_request" where
  "sample_validity i = \<lparr>aq_agent_id = ''a'', aq_target = 1, aq_assertion = i, aq_provenance = External UserAsserted,
     aq_confidence = full_confidence\<rparr>"

definition sample_bounded :: "(sqlite_store_error mem_error, assert_validity_response) res \<times> sqlite_world" where
  "sample_bounded = assert_validity_execute sqlite_port (sample_ids 300) (sample_validity (AI_Bound 20 None)) 20 world1"

definition sample_reopened :: "(sqlite_store_error mem_error, assert_validity_response) res \<times> sqlite_world" where
  "sample_reopened = assert_validity_execute sqlite_port (sample_ids 400) (sample_validity AI_Reopen) 30 (snd sample_bounded)"

lemma sample_bounded_runs:
  "assert_validity_execute sqlite_port (sample_ids 300) (sample_validity (AI_Bound 20 None)) 20 world1
     = (Inr (projr (fst sample_bounded)), snd sample_bounded)"
  "\<not> as_no_op (projr (fst sample_bounded))"
proof -
  have "\<not> isl (fst sample_bounded)" by code_simp
  then show "assert_validity_execute sqlite_port (sample_ids 300) (sample_validity (AI_Bound 20 None)) 20 world1
     = (Inr (projr (fst sample_bounded)), snd sample_bounded)"
    by (cases sample_bounded) (auto simp: sample_bounded_def isl_def split: sum.splits)
  show "\<not> as_no_op (projr (fst sample_bounded))" by code_simp
qed

lemma world1_times: "ledger_until 20 (sqlite_disk world1)" "assertions_before 20 (sqlite_disk world1) ''a'' 1"
  by (unfold ledger_until_def assertions_before_def; code_simp)+

section \<open>assert\_validity\<close>

text \<open>C28. The outcomes of \<^verbatim>\<open>assert_validity\<close>. An error or a no-op leaves the store alone. Otherwise
  the provenance is external, the target exists, and exactly two rows are added: the assertion and
  its ledger entry, Superseded for a bound and Reinstated for a reopen; the response describes them.\<close>

theorem assert_validity_outcomes:
  assumes "assert_validity_execute sqlite_port ids req now w = (r, w')"
  shows "(case r of
       Inl e \<Rightarrow> sqlite_disk w' = sqlite_disk w
     | Inr resp \<Rightarrow>
         if as_no_op resp then sqlite_disk w' = sqlite_disk w
         else is_cheap_path_eligible (aq_provenance req)
           \<and> claim_of (sqlite_disk w) (aq_agent_id req) (aq_target req) \<noteq> None
           \<and> as_assertion_ref resp = Some (ids 0) \<and> as_claim_ref resp = aq_target req
           \<and> as_disposition resp = (case as_kind resp of Bound _ _ \<Rightarrow> Superseded | Reopen _ \<Rightarrow> Reinstated)
           \<and> (\<exists>rationale. sqlite_disk w' =
                asserted_db ids req (as_kind resp) (as_disposition resp) rationale now (sqlite_disk w)))"
  using assms
proof (cases rule: sqlite.assert_validity_cases)
  case (Bounding b g c)
  from Bounding(4) show ?thesis
  proof (cases rule: sqlite.assert_bound_cases)
    case Write
    from Write(5) show ?thesis
      using Bounding(2,3) by (cases rule: sqlite.write_assertion_cases) auto
  qed auto
next
  case (Reopening c s)
  from Reopening(5) show ?thesis
    using Reopening(2,3) by (cases rule: sqlite.write_assertion_cases) auto
qed auto

theorem assert_validity_outcomes_witness:
  "as_disposition (projr (fst sample_bounded)) = Superseded \<and> as_assertion_ref (projr (fst sample_bounded)) = Some 300"
proof -
  have "as_kind (projr (fst sample_bounded)) = Bound 20 None" by code_simp
  then show ?thesis
    using assert_validity_outcomes[OF sample_bounded_runs(1)] sample_bounded_runs(2) by (simp add: sample_ids_def)
qed

lemma effective_bound:
  assumes "assert_validity_execute sqlite_port ids req now w = (Inr resp, w1)" "\<not> as_no_op resp"
    and "aq_assertion req = AI_Bound b g"
  shows "\<exists>c x. claim_of (sqlite_disk w) (aq_agent_id req) (aq_target req) = Some c
     \<and> sqlite_disk w1 = asserted_db ids req (Bound b g) Superseded x now (sqlite_disk w)"
  using assms(1)
proof (cases rule: sqlite.assert_validity_cases)
  case (Bounding b' g' c)
  from Bounding(4) show ?thesis
  proof (cases rule: sqlite.assert_bound_cases)
    case Write
    from Write(5) show ?thesis
      using Bounding(1,3) assms(3) by (cases rule: sqlite.write_assertion_cases) auto
  qed (use assms(2) in auto)
qed (use assms in auto)

lemma bound_active_after:
  assumes "sqlite_disk w1 = asserted_db ids req (Bound b g) Superseded x now (sqlite_disk w)"
    and "assertions_before now (sqlite_disk w) (aq_agent_id req) (aq_target req)" "b \<le> now" "now \<le> t"
  shows "active_bound_at (assertions_of (sqlite_disk w1) (aq_agent_id req) (aq_target req)) t
     = Some \<lparr>bs_bound_at = b, bs_assertion_ref = ids 0, bs_bound_at_granularity = g\<rparr>"
  unfolding assms(1) active_bound_asserted[OF assms(2)] using assms(3,4) by (simp add: bound_step_def)

text \<open>C29. A bound is idempotent: after an effective bound at an instant that is not in the future, the
  same request writes nothing at any later time; it is answered as a no-op or refused.\<close>

theorem bound_is_idempotent:
  assumes "assert_validity_execute sqlite_port ids req now w = (Inr resp, w1)" "\<not> as_no_op resp"
    and "aq_assertion req = AI_Bound b g" "b \<le> now"
    and "assertions_before now (sqlite_disk w) (aq_agent_id req) (aq_target req)"
    and "now \<le> later" "assert_validity_execute sqlite_port ids' req later w1 = (r, w2)"
  shows "sqlite_disk w2 = sqlite_disk w1 \<and> (\<forall>resp'. r = Inr resp' \<longrightarrow> as_no_op resp')"
proof -
  obtain x where d: "sqlite_disk w1 = asserted_db ids req (Bound b g) Superseded x now (sqlite_disk w)"
    using effective_bound[OF assms(1-3)] by blast
  have active: "active_bound_at (assertions_of (sqlite_disk w1) (aq_agent_id req) (aq_target req)) later \<noteq> None"
    using bound_active_after[OF d assms(5,4,6)] by simp
  from assms(7) show ?thesis
  proof (cases rule: sqlite.assert_validity_cases)
    case (Bounding b' g' c)
    from Bounding(4) show ?thesis
    proof (cases rule: sqlite.assert_bound_cases)
      case Write
      then show ?thesis using active by (auto simp: latest_active_bound_def)
    qed auto
  qed (use assms(3) in auto)
qed

theorem bound_is_idempotent_witness:
  "sqlite_disk (snd (assert_validity_execute sqlite_port (sample_ids 500) (sample_validity (AI_Bound 20 None)) 40
     (snd sample_bounded))) = sqlite_disk (snd sample_bounded)"
proof -
  let ?again = "assert_validity_execute sqlite_port (sample_ids 500) (sample_validity (AI_Bound 20 None)) 40 (snd sample_bounded)"
  have "aq_assertion (sample_validity (AI_Bound 20 None)) = AI_Bound 20 None"
    "assertions_before 20 (sqlite_disk world1) (aq_agent_id (sample_validity (AI_Bound 20 None)))
        (aq_target (sample_validity (AI_Bound 20 None)))"
    using world1_times by (simp_all add: sample_validity_def)
  then show ?thesis
    using bound_is_idempotent[OF sample_bounded_runs, of 20 None 40 "sample_ids 500" "fst ?again" "snd ?again"] by simp
qed



section \<open>reconcile\<close>

lemma reconcile_candidate_disposition:
  "gd_disposition (reconcile_candidate cfg ask live all c) \<noteq> Superseded"
proof -
  have "gd_disposition (adjudicate p cfg) \<noteq> Superseded" for p
    using adjudicate_dispositions[of p cfg] by auto
  then show ?thesis by (simp add: reconcile_candidate_def)
qed


definition sample_reconcile :: "(sqlite_store_error mem_error, reconcile_response) res \<times> sqlite_world" where
  "sample_reconcile = reconcile_execute sqlite_port None default_config (sample_ids 600)
     \<lparr>rq_agent_id = ''a'', rq_subject_lines = [(''s'', ''p'')]\<rparr> 30 world2"


end
