(* ===== verification/Sqlite_Open.thy ===== *)
theory Sqlite_Open
  imports Sqlite_Codecs
begin

text \<open>Opening a database file of the SQLite adapter: the path of an agent's file, the PRAGMAs, the
  bounded retry on a busy file (\<^verbatim>\<open>mempill-sqlite/src/connection.rs\<close>) and the schema migrations in one
  immediate transaction (\<^verbatim>\<open>mempill-sqlite/src/migrations.rs\<close>, \<^verbatim>\<open>schema/*.sql\<close>).

  A file is its schema version, its tables with their columns, its indexes and the rows, each a
  partial map from columns to values (an absent column reads as NULL). Every statement may fail:
  the world carries a schedule of the failures to come.\<close>

section \<open>A database file and the statements that change it\<close>

record 'v db_file =
  df_user_version :: nat
  df_tables :: "(string \<times> string list) list"
  df_indexes :: "string list"
  df_rows :: "string \<Rightarrow> (string \<Rightarrow> 'v option) list"

datatype ddl =
    CreateTable string "string list"
  | CreateIndex string string
  | AddColumn string string
  | SetUserVersion nat

definition new_file :: "'v db_file" where
  "new_file = \<lparr>df_user_version = 0, df_tables = [], df_indexes = [], df_rows = (\<lambda>_. [])\<rparr>"

text \<open>\<^verbatim>\<open>CREATE ... IF NOT EXISTS\<close> leaves an existing table or index alone; \<^verbatim>\<open>ALTER TABLE ... ADD COLUMN\<close>
  refuses a column that exists.\<close>

fun exec_ddl :: "ddl \<Rightarrow> 'v db_file \<Rightarrow> (sqlite_failure, 'v db_file) res" where
  "exec_ddl (CreateTable t cols) f =
     (if map_of (df_tables f) t \<noteq> None then Inr f
      else Inr (f\<lparr>df_tables := df_tables f @ [(t, cols)], df_rows := (df_rows f)(t := [])\<rparr>))"
| "exec_ddl (CreateIndex i t) f =
     (if i \<in> set (df_indexes f) then Inr f
      else if map_of (df_tables f) t = None then Inl OtherFailure
      else Inr (f\<lparr>df_indexes := df_indexes f @ [i]\<rparr>))"
| "exec_ddl (AddColumn t c) f =
     (case map_of (df_tables f) t of
        None \<Rightarrow> Inl OtherFailure
      | Some cols \<Rightarrow>
          if c \<in> set cols then Inl OtherFailure
          else Inr (f\<lparr>df_tables := map (\<lambda>(x, cs). if x = t then (x, cs @ [c]) else (x, cs)) (df_tables f)\<rparr>))"
| "exec_ddl (SetUserVersion v) f = Inr (f\<lparr>df_user_version := v\<rparr>)"

text \<open>The connection inside a migration transaction: the working copy and the failures to come.\<close>

record 'v mig_txn =
  mt_file :: "'v db_file"
  mt_faults :: "sqlite_failure option list"

definition next_failure :: "sqlite_failure option list \<Rightarrow> sqlite_failure option" where
  "next_failure fs = (case fs of [] \<Rightarrow> None | x # _ \<Rightarrow> x)"

definition exec_stmt :: "ddl \<Rightarrow> ('v mig_txn, migration_error, unit) tx_step" where
  "exec_stmt d t =
     (let t' = t\<lparr>mt_faults := tl (mt_faults t)\<rparr> in
      case next_failure (mt_faults t) of
        Some e \<Rightarrow> (Inl (ME_Sqlite e), t')
      | None \<Rightarrow> (case exec_ddl d (mt_file t) of
                   Inl e \<Rightarrow> (Inl (ME_Sqlite e), t')
                 | Inr f \<Rightarrow> (Inr (), t'\<lparr>mt_file := f\<rparr>)))"

definition execute_batch :: "ddl list \<Rightarrow> ('v mig_txn, migration_error, unit) tx_step" where
  "execute_batch ds = tx_foreach exec_stmt ds"

section \<open>Migrations\<close>

definition CURRENT_SCHEMA_VERSION :: nat where
  "CURRENT_SCHEMA_VERSION = 4"

definition V1_INITIAL_SQL :: "ddl list" where
  "V1_INITIAL_SQL =
     [CreateTable ''claims'' [''claim_id'', ''agent_id'', ''subject'', ''predicate'', ''value'', ''cardinality'',
        ''provenance_label'', ''nearest_external_anchor_id'', ''derivation_depth'', ''tx_time'',
        ''valid_time_start'', ''valid_time_end'', ''valid_time_confidence'', ''value_confidence'',
        ''criticality'', ''derived_from'', ''metadata'', ''snapshot_schema_version'', ''embedding_model_id''],
      CreateTable ''validity_assertions'' [''assertion_id'', ''agent_id'', ''target_claim_id'', ''assertion_kind'',
        ''bound_at'', ''reopen_at'', ''provenance_label'', ''value_confidence'', ''valid_time_confidence'',
        ''asserted_at''],
      CreateTable ''ledger_entries'' [''entry_id'', ''agent_id'', ''claim_id'', ''event_kind'', ''disposition'',
        ''rationale'', ''recorded_at''],
      CreateTable ''claim_edges'' [''edge_id'', ''agent_id'', ''from_claim_id'', ''to_claim_id'', ''edge_kind'',
        ''created_at'']]"

definition INDEXES_SQL :: "ddl list" where
  "INDEXES_SQL =
     [CreateIndex ''idx_claims_subject_line'' ''claims'',
      CreateIndex ''idx_validity_assertions_target'' ''validity_assertions'',
      CreateIndex ''idx_ledger_agent_time'' ''ledger_entries'',
      CreateIndex ''idx_edges_from'' ''claim_edges'',
      CreateIndex ''idx_edges_to'' ''claim_edges'',
      CreateIndex ''idx_claims_provenance'' ''claims'']"

definition V2_PENDING_ADJUDICATIONS_SQL :: "ddl list" where
  "V2_PENDING_ADJUDICATIONS_SQL =
     [CreateTable ''pending_adjudications'' [''handle_id'', ''agent_id'', ''subject'', ''predicate'',
        ''challenger_claim_ref'', ''incumbent_claim_ref'', ''request_payload'', ''queued_at'', ''expires_at'',
        ''status''],
      CreateIndex ''idx_pending_adj_agent_id'' ''pending_adjudications'',
      CreateIndex ''idx_pending_adj_expires_at'' ''pending_adjudications'']"

definition V3_DATE_GRANULARITY_SQL :: "ddl list" where
  "V3_DATE_GRANULARITY_SQL =
     [AddColumn ''claims'' ''valid_time_start_granularity'', AddColumn ''claims'' ''valid_time_end_granularity'']"

definition V4_BOUND_GRANULARITY_SQL :: "ddl list" where
  "V4_BOUND_GRANULARITY_SQL = [AddColumn ''validity_assertions'' ''bound_at_granularity'']"

definition set_user_version :: "nat \<Rightarrow> ('v mig_txn, migration_error, unit) tx_step" where
  "set_user_version v = execute_batch [SetUserVersion v]"

definition apply_v1 :: "('v mig_txn, migration_error, unit) tx_step" where
  "apply_v1 = tx_bind (execute_batch V1_INITIAL_SQL) (\<lambda>_.
              tx_bind (execute_batch INDEXES_SQL) (\<lambda>_. set_user_version 1))"

definition apply_v2 :: "('v mig_txn, migration_error, unit) tx_step" where
  "apply_v2 = tx_bind (execute_batch V2_PENDING_ADJUDICATIONS_SQL) (\<lambda>_. set_user_version 2)"

definition apply_v3 :: "('v mig_txn, migration_error, unit) tx_step" where
  "apply_v3 = tx_bind (execute_batch V3_DATE_GRANULARITY_SQL) (\<lambda>_. set_user_version 3)"

definition apply_v4 :: "('v mig_txn, migration_error, unit) tx_step" where
  "apply_v4 = tx_bind (execute_batch V4_BOUND_GRANULARITY_SQL) (\<lambda>_. set_user_version 4)"

definition user_version :: "('v mig_txn, migration_error, nat) tx_step" where
  "user_version t =
     (let t' = t\<lparr>mt_faults := tl (mt_faults t)\<rparr> in
      case next_failure (mt_faults t) of
        Some e \<Rightarrow> (Inl (ME_Sqlite e), t')
      | None \<Rightarrow> (Inr (df_user_version (mt_file t)), t'))"

definition when_pending :: "nat \<Rightarrow> nat \<Rightarrow> ('v mig_txn, migration_error, unit) tx_step \<Rightarrow> ('v mig_txn, migration_error, unit) tx_step" where
  "when_pending current v step = (if current < v then step else tx_return ())"

definition pending_migrations :: "('v mig_txn, migration_error, unit) tx_step" where
  "pending_migrations =
     tx_bind user_version (\<lambda>current.
     tx_bind (when_pending current 1 apply_v1) (\<lambda>_.
     tx_bind (when_pending current 2 apply_v2) (\<lambda>_.
     tx_bind (when_pending current 3 apply_v3) (\<lambda>_.
     when_pending current 4 apply_v4))))"

text \<open>\<^verbatim>\<open>BEGIN IMMEDIATE\<close>, the pending steps, \<^verbatim>\<open>COMMIT\<close>; an early return drops the transaction, which
  rolls it back. The file on disk changes by the commit only.\<close>

definition apply_migrations :: "'v mig_txn \<Rightarrow> (migration_error, unit) res \<times> 'v mig_txn" where
  "apply_migrations c =
     (case next_failure (mt_faults c) of
        Some e \<Rightarrow> (Inl (ME_Sqlite e), c\<lparr>mt_faults := tl (mt_faults c)\<rparr>)
      | None \<Rightarrow>
          (case pending_migrations (c\<lparr>mt_faults := tl (mt_faults c)\<rparr>) of
             (Inl e, t) \<Rightarrow> (Inl e, c\<lparr>mt_faults := mt_faults t\<rparr>)
           | (Inr _, t) \<Rightarrow>
               (case next_failure (mt_faults t) of
                  Some e \<Rightarrow> (Inl (ME_Sqlite e), c\<lparr>mt_faults := tl (mt_faults t)\<rparr>)
                | None \<Rightarrow> (Inr (), t\<lparr>mt_faults := tl (mt_faults t)\<rparr>))))"

section \<open>Opening a connection\<close>

text \<open>The file system holds a file per path (a path never opened holds a new file). A connection is
  its path and the PRAGMAs in force; \<^verbatim>\<open>ow_slept\<close> records the pauses of the retry loop in
  milliseconds.\<close>

record 'v open_world =
  ow_files :: "string \<Rightarrow> 'v db_file"
  ow_faults :: "sqlite_failure option list"
  ow_slept :: "nat list"

record connection =
  cn_path :: string
  cn_synchronous_full :: bool
  cn_foreign_keys :: bool
  cn_busy_timeout_ms :: nat

definition OPEN_MAX_ATTEMPTS :: nat where
  "OPEN_MAX_ATTEMPTS = 10"

definition statement_result :: "'v open_world \<Rightarrow> (sqlite_store_error, unit) res \<times> 'v open_world" where
  "statement_result w =
     (case next_failure (ow_faults w) of
        Some e \<Rightarrow> (Inl (Sqlite e), w\<lparr>ow_faults := tl (ow_faults w)\<rparr>)
      | None \<Rightarrow> (Inr (), w\<lparr>ow_faults := tl (ow_faults w)\<rparr>))"

definition apply_pragmas :: "connection \<Rightarrow> 'v open_world \<Rightarrow> (sqlite_store_error, connection) res \<times> 'v open_world" where
  "apply_pragmas c w =
     (case statement_result w of
        (Inl e, w1) \<Rightarrow> (Inl e, w1)
      | (Inr _, w1) \<Rightarrow>
          (case statement_result w1 of
             (Inl e, w2) \<Rightarrow> (Inl e, w2)
           | (Inr _, w2) \<Rightarrow>
               (Inr (c\<lparr>cn_synchronous_full := True, cn_foreign_keys := True, cn_busy_timeout_ms := 5000\<rparr>), w2)))"

definition migrate_at :: "string \<Rightarrow> 'v open_world \<Rightarrow> (sqlite_store_error, unit) res \<times> 'v open_world" where
  "migrate_at path w =
     (case apply_migrations \<lparr>mt_file = ow_files w path, mt_faults = ow_faults w\<rparr> of
        (r, t) \<Rightarrow> (map_err Migration r, w\<lparr>ow_files := (ow_files w)(path := mt_file t), ow_faults := mt_faults t\<rparr>))"

definition open_once :: "string \<Rightarrow> 'v open_world \<Rightarrow> (sqlite_store_error, connection) res \<times> 'v open_world" where
  "open_once path w =
     (case statement_result w of
        (Inl e, w1) \<Rightarrow> (Inl e, w1)
      | (Inr _, w1) \<Rightarrow>
          (case apply_pragmas \<lparr>cn_path = path, cn_synchronous_full = False, cn_foreign_keys = False,
                               cn_busy_timeout_ms = 5000\<rparr> w1 of
             (Inl e, w2) \<Rightarrow> (Inl e, w2)
           | (Inr c, w2) \<Rightarrow>
               (case migrate_at path w2 of
                  (Inl e, w3) \<Rightarrow> (Inl e, w3)
                | (Inr _, w3) \<Rightarrow> (Inr c, w3))))"

fun is_sqlite_busy :: "sqlite_store_error \<Rightarrow> bool" where
  "is_sqlite_busy (Sqlite e) = (e = DatabaseBusy)"
| "is_sqlite_busy (Migration (ME_Sqlite e)) = (e = DatabaseBusy)"
| "is_sqlite_busy _ = False"

definition sleep_ms :: "nat \<Rightarrow> 'v open_world \<Rightarrow> 'v open_world" where
  "sleep_ms n w = w\<lparr>ow_slept := ow_slept w @ [n]\<rparr>"

text \<open>The loop of \<^verbatim>\<open>open\<close>, with the attempts made so far.\<close>

function open_loop :: "nat \<Rightarrow> string \<Rightarrow> 'v open_world \<Rightarrow> (sqlite_store_error, connection) res \<times> 'v open_world" where
  "open_loop attempts path w =
     (let attempt = attempts + 1 in
      case open_once path w of
        (Inr c, w1) \<Rightarrow> (Inr c, w1)
      | (Inl e, w1) \<Rightarrow>
          if attempt < OPEN_MAX_ATTEMPTS \<and> is_sqlite_busy e
          then open_loop attempt path (sleep_ms (5 * attempt) w1)
          else (Inl e, w1))"
  by pat_completeness auto
termination
  by (relation "measure (\<lambda>(attempts, _, _). OPEN_MAX_ATTEMPTS - attempts)") (auto simp: OPEN_MAX_ATTEMPTS_def)

declare open_loop.simps [simp del]

definition open_connection :: "string \<Rightarrow> 'v open_world \<Rightarrow> (sqlite_store_error, connection) res \<times> 'v open_world" where
  "open_connection path w = open_loop 0 path w"

section \<open>The file of an agent\<close>

definition is_ascii_alphanumeric :: "char \<Rightarrow> bool" where
  "is_ascii_alphanumeric c =
     (let n = of_char c :: nat in
      (48 \<le> n \<and> n \<le> 57) \<or> (65 \<le> n \<and> n \<le> 90) \<or> (97 \<le> n \<and> n \<le> 122))"

text \<open>\<^verbatim>\<open>Path::join\<close> of a relative name.\<close>

definition path_join :: "string \<Rightarrow> string \<Rightarrow> string" where
  "path_join dir name =
     (if dir = [] \<or> last dir = CHR ''/'' then dir @ name else dir @ CHR ''/'' # name)"

definition derive_agent_db_path :: "string \<Rightarrow> agent_id \<Rightarrow> (sqlite_store_error, string) res" where
  "derive_agent_db_path base_dir a =
     (if a = [] then Inl (InvalidAgentId [Lit ''agent_id must not be empty''])
      else if \<not> list_all (\<lambda>c. is_ascii_alphanumeric c \<or> c = CHR ''-'' \<or> c = CHR ''_'') a
      then Inl (InvalidAgentId [Lit ''agent_id '', DebugStr a,
             Lit '' contains characters outside [A-Za-z0-9_-]; this restriction guarantees two distinct agent_ids can never normalize to the same database filename''])
      else Inr (path_join base_dir (''agent_'' @ a @ ''.db'')))"

text \<open>A path of characters is valid UTF-8, so \<^verbatim>\<open>to_str\<close> succeeds.\<close>

definition open_for_agent ::
    "string \<Rightarrow> agent_id \<Rightarrow> 'v open_world \<Rightarrow> (sqlite_store_error, connection) res \<times> 'v open_world" where
  "open_for_agent base_dir a w =
     (case derive_agent_db_path base_dir a of
        Inl e \<Rightarrow> (Inl e, w)
      | Inr path \<Rightarrow> open_connection path w)"

section \<open>Facts\<close>

lemma derive_ok_iff:
  "(\<exists>p. derive_agent_db_path base a = Inr p) \<longleftrightarrow>
     a \<noteq> [] \<and> list_all (\<lambda>c. is_ascii_alphanumeric c \<or> c = CHR ''-'' \<or> c = CHR ''_'') a"
  by (simp add: derive_agent_db_path_def)

lemma path_join_inj: "path_join d x = path_join d y \<longleftrightarrow> x = y"
  by (simp add: path_join_def)

lemma derive_inj:
  assumes "derive_agent_db_path base a = Inr p" "derive_agent_db_path base b = Inr p"
  shows "a = b"
  using assms by (auto simp: derive_agent_db_path_def path_join_inj split: if_splits)

end
