(* ===== verification/Open_Properties.thy ===== *)
theory Open_Properties
  imports Sqlite_Open
begin

text \<open>Properties of opening a database file: the upgrade of any older file, the bounded retry, the
  files of different agents.\<close>

section \<open>What a file of a schema version is\<close>

fun run_ddl :: "ddl list \<Rightarrow> 'v db_file \<Rightarrow> (sqlite_failure, 'v db_file) res" where
  "run_ddl [] f = Inr f"
| "run_ddl (d # ds) f = and_then (exec_ddl d f) (run_ddl ds)"

fun version_script :: "nat \<Rightarrow> ddl list" where
  "version_script 0 = []"
| "version_script (Suc 0) = V1_INITIAL_SQL @ INDEXES_SQL @ [SetUserVersion 1]"
| "version_script (Suc (Suc 0)) = V2_PENDING_ADJUDICATIONS_SQL @ [SetUserVersion 2]"
| "version_script (Suc (Suc (Suc 0))) = V3_DATE_GRANULARITY_SQL @ [SetUserVersion 3]"
| "version_script n = V4_BOUND_GRANULARITY_SQL @ [SetUserVersion 4]"

definition schema_script :: "nat \<Rightarrow> ddl list" where
  "schema_script k = concat (map version_script [1..<Suc k])"

definition schema_file :: "nat \<Rightarrow> unit db_file" where
  "schema_file k = projr (run_ddl (schema_script k) new_file)"

text \<open>The schema of version \<^verbatim>\<open>k\<close>, any rows in its tables.\<close>

definition at_version :: "nat \<Rightarrow> 'v db_file \<Rightarrow> bool" where
  "at_version k f = (df_user_version f = k \<and> df_tables f = df_tables (schema_file k)
     \<and> df_indexes f = df_indexes (schema_file k)
     \<and> (\<forall>t. map_of (df_tables f) t = None \<longrightarrow> df_rows f t = []))"

lemma run_ddl_append: "run_ddl (ds @ es) f = and_then (run_ddl ds f) (run_ddl es)"
  by (induction ds arbitrary: f) (auto simp: and_then_def split: sum.splits)

lemma execute_batch_run:
  "execute_batch ds t = (Inr u, t') \<Longrightarrow> run_ddl ds (mt_file t) = Inr (mt_file t')"
proof (induction ds arbitrary: t)
  case (Cons d ds)
  from Cons.prems obtain t1 where 1: "exec_stmt d t = (Inr (), t1)" and 2: "execute_batch ds t1 = (Inr u, t')"
    by (auto simp: execute_batch_def elim!: tx_bind_cases)
  have "exec_ddl d (mt_file t) = Inr (mt_file t1)"
    using 1 by (auto simp: exec_stmt_def Let_def split: option.splits sum.splits)
  then show ?case using Cons.IH[OF 2] by simp
qed (simp add: execute_batch_def)

lemma execute_batch_ok:
  "mt_faults t = [] \<Longrightarrow> run_ddl ds (mt_file t) = Inr g
     \<Longrightarrow> \<exists>t'. execute_batch ds t = (Inr (), t') \<and> mt_file t' = g \<and> mt_faults t' = []"
proof (induction ds arbitrary: t)
  case (Cons d ds)
  from Cons.prems(2) obtain f1 where f1: "exec_ddl d (mt_file t) = Inr f1" "run_ddl ds f1 = Inr g"
    by (auto simp: and_then_Inr)
  have "exec_stmt d t = (Inr (), t\<lparr>mt_faults := [], mt_file := f1\<rparr>)"
    using Cons.prems(1) f1(1) by (simp add: exec_stmt_def next_failure_def)
  moreover obtain t' where "execute_batch ds (t\<lparr>mt_faults := [], mt_file := f1\<rparr>) = (Inr (), t')"
    "mt_file t' = g" "mt_faults t' = []"
    using Cons.IH[of "t\<lparr>mt_faults := [], mt_file := f1\<rparr>"] f1(2) by auto
  ultimately show ?case by (simp add: execute_batch_def tx_bind_run)
qed (simp add: execute_batch_def)

definition remaining_script :: "nat \<Rightarrow> ddl list" where
  "remaining_script k = concat (map version_script [Suc k..<5])"

definition version_step :: "nat \<Rightarrow> ('v mig_txn, migration_error, unit) tx_step" where
  "version_step v = (if v = 1 then apply_v1 else if v = 2 then apply_v2 else if v = 3 then apply_v3 else apply_v4)"

lemma execute_batch_append:
  "execute_batch (ds @ es) = tx_bind (execute_batch ds) (\<lambda>_. execute_batch es)"
  unfolding execute_batch_def
  by (induction ds) (auto simp: fun_eq_iff tx_bind_run split: prod.splits sum.splits)

lemma apply_scripts:
  "apply_v1 = execute_batch (version_script 1)" "apply_v2 = execute_batch (version_script 2)"
  "apply_v3 = execute_batch (version_script 3)" "apply_v4 = execute_batch (version_script 4)"
  by (simp_all add: apply_v1_def apply_v2_def apply_v3_def apply_v4_def set_user_version_def
        execute_batch_append numeral_2_eq_2 numeral_3_eq_3 numeral_eq_Suc)

lemma tx_bind_return_unit: "tx_bind m (\<lambda>_. tx_return ()) = (m :: ('t, 'e, unit) tx_step)"
  by (auto simp: fun_eq_iff tx_bind_run split: prod.splits sum.splits)

lemma tx_bind_return_left: "tx_bind (tx_return a) f = f a"
  by (simp add: fun_eq_iff tx_bind_run)

lemma version_lists:
  "[Suc 0..<5] = [1, 2, 3, 4::nat]" "[Suc 1..<5] = [2, 3, 4::nat]" "[Suc 2..<5] = [3, 4::nat]"
  "[Suc 3..<5] = [4::nat]" "[Suc 4..<5] = ([] :: nat list)"
  by (simp_all add: upt_rec)

lemma le4_cases: "(k::nat) \<le> 4 \<Longrightarrow> k = 0 \<or> k = 1 \<or> k = 2 \<or> k = 3 \<or> k = 4"
  by auto

text \<open>The four guarded steps run exactly the scripts after the version of the file.\<close>

lemma remaining_scripts:
  "remaining_script 0 = version_script 1 @ version_script 2 @ version_script 3 @ version_script 4"
  "remaining_script 1 = version_script 2 @ version_script 3 @ version_script 4"
  "remaining_script 2 = version_script 3 @ version_script 4"
  "remaining_script 3 = version_script 4" "remaining_script 4 = []"
  unfolding remaining_script_def version_lists by (simp_all del: One_nat_def version_script.simps)

definition guarded_steps :: "nat \<Rightarrow> ('v mig_txn, migration_error, unit) tx_step" where
  "guarded_steps k = tx_bind (when_pending k 1 apply_v1) (\<lambda>_. tx_bind (when_pending k 2 apply_v2) (\<lambda>_.
     tx_bind (when_pending k 3 apply_v3) (\<lambda>_. when_pending k 4 apply_v4)))"

lemma guarded_steps_run:
  assumes "k \<le> 4"
  shows "guarded_steps k = execute_batch (remaining_script k)"
  using le4_cases[OF assms] unfolding guarded_steps_def when_pending_def apply_scripts
  by (elim disjE)
    (simp_all only: remaining_scripts execute_batch_append, auto simp: tx_bind_return_left tx_bind_return_unit execute_batch_def)

lemma pending_migrations_guarded: "pending_migrations = tx_bind user_version guarded_steps"
  by (simp add: pending_migrations_def guarded_steps_def[abs_def])

lemma pending_migrations_cases:
  assumes "pending_migrations t = (r, t')" "df_user_version (mt_file t) \<le> 4"
  shows "(\<exists>e. r = Inl e) \<or> run_ddl (remaining_script (df_user_version (mt_file t))) (mt_file t) = Inr (mt_file t')"
proof -
  have "tx_bind user_version guarded_steps t = (r, t')"
    using assms(1) by (simp add: pending_migrations_guarded)
  then show ?thesis
  proof (cases rule: tx_bind_cases)
    case (Ok k t1)
    then have k: "k = df_user_version (mt_file t)" "mt_file t1 = mt_file t"
      by (auto simp: user_version_def Let_def split: option.splits)
    have "k \<le> 4" using assms(2) k(1) by simp
    then have "execute_batch (remaining_script k) t1 = (r, t')"
      using Ok(2) by (simp only: guarded_steps_run)
    then show ?thesis using execute_batch_run k by (cases r) fastforce+
  qed blast
qed

lemma pending_migrations_ok:
  assumes "mt_faults t = []" "df_user_version (mt_file t) \<le> 4"
    and "run_ddl (remaining_script (df_user_version (mt_file t))) (mt_file t) = Inr g"
  shows "\<exists>t'. pending_migrations t = (Inr (), t') \<and> mt_file t' = g \<and> mt_faults t' = []"
proof -
  have "user_version t = (Inr (df_user_version (mt_file t)), t)"
    using assms(1) by (simp add: user_version_def next_failure_def)
  then have "pending_migrations t = execute_batch (remaining_script (df_user_version (mt_file t))) t"
    by (simp add: pending_migrations_guarded tx_bind_run guarded_steps_run[OF assms(2)])
  then show ?thesis using execute_batch_ok[OF assms(1,3)] by simp
qed

section \<open>The schemas\<close>

text \<open>A file runs a script like the schema of its version does, and no statement touches the rows of
  an existing table.\<close>

definition same_schema :: "'v db_file \<Rightarrow> 'w db_file \<Rightarrow> bool" where
  "same_schema f g = (df_user_version f = df_user_version g \<and> df_tables f = df_tables g \<and> df_indexes f = df_indexes g)"

definition no_stray_rows :: "'v db_file \<Rightarrow> bool" where
  "no_stray_rows f = (\<forall>t. map_of (df_tables f) t = None \<longrightarrow> df_rows f t = [])"

lemma map_of_add_column:
  "map_of (map (\<lambda>(x, cs). if x = t then (x, cs @ [c]) else (x, cs)) ts) y
     = map_option (\<lambda>cs. if y = t then cs @ [c] else cs) (map_of ts y)"
  by (induction ts) auto

lemma exec_ddl_schema:
  assumes "same_schema f g" "exec_ddl d g = Inr g'" "no_stray_rows f"
  shows "\<exists>f'. exec_ddl d f = Inr f' \<and> same_schema f' g' \<and> no_stray_rows f' \<and> df_rows f' = df_rows f"
proof (cases d)
  case (CreateTable t cols)
  then show ?thesis using assms by (auto simp: same_schema_def no_stray_rows_def map_add_def split: if_splits option.splits)
next
  case (CreateIndex i t)
  then show ?thesis using assms by (auto simp: same_schema_def no_stray_rows_def split: if_splits)
next
  case (AddColumn t c)
  then show ?thesis using assms
    by (auto simp: same_schema_def no_stray_rows_def map_of_add_column split: option.splits if_splits)
next
  case (SetUserVersion v)
  then show ?thesis using assms by (auto simp: same_schema_def no_stray_rows_def)
qed

lemma run_ddl_schema:
  "same_schema f g \<Longrightarrow> run_ddl ds g = Inr g' \<Longrightarrow> no_stray_rows f
     \<Longrightarrow> \<exists>f'. run_ddl ds f = Inr f' \<and> same_schema f' g' \<and> no_stray_rows f' \<and> df_rows f' = df_rows f"
proof (induction ds arbitrary: f g)
  case (Cons d ds)
  from Cons.prems(2) obtain g1 where g1: "exec_ddl d g = Inr g1" "run_ddl ds g1 = Inr g'"
    by (auto simp: and_then_Inr)
  obtain f1 where f1: "exec_ddl d f = Inr f1" "same_schema f1 g1" "no_stray_rows f1" "df_rows f1 = df_rows f"
    using exec_ddl_schema[OF Cons.prems(1) g1(1) Cons.prems(3)] by blast
  show ?case using Cons.IH[OF f1(2) g1(2) f1(3)] f1 by auto
qed simp

lemma schema_script_split: "k \<le> 4 \<Longrightarrow> schema_script 4 = schema_script k @ remaining_script k"
proof -
  assume "k \<le> 4"
  then have "[1..<Suc 4] = [1..<Suc k] @ [Suc k..<5]"
    by (metis Suc_le_mono add.commute eval_nat_numeral(3) le_add_diff_inverse le_add1 numeral_code(2) plus_1_eq_Suc upt_add_eq_append)
  then show ?thesis by (simp add: schema_script_def remaining_script_def)
qed

lemma schema_4: "run_ddl (schema_script 4) new_file = Inr (schema_file 4)"
proof -
  have "\<not> isl (run_ddl (schema_script 4) (new_file :: unit db_file))" by code_simp
  then show ?thesis by (cases "run_ddl (schema_script 4) (new_file :: unit db_file)") (simp_all add: schema_file_def)
qed

lemma remaining_schema: "k \<le> 4 \<Longrightarrow> run_ddl (remaining_script k) (schema_file k) = Inr (schema_file 4)"
proof -
  assume k: "k \<le> 4"
  obtain g where g: "run_ddl (schema_script k) new_file = Inr g" "run_ddl (remaining_script k) g = Inr (schema_file 4)"
    using schema_4 by (auto simp: schema_script_split[OF k] run_ddl_append and_then_Inr)
  then show ?thesis by (simp add: schema_file_def)
qed

lemma schema_version: "k \<le> 4 \<Longrightarrow> df_user_version (schema_file k) = k"
proof -
  have "df_user_version (schema_file 0) = 0" "df_user_version (schema_file 1) = 1"
    "df_user_version (schema_file 2) = 2" "df_user_version (schema_file 3) = 3" "df_user_version (schema_file 4) = 4"
    by code_simp+
  then show "k \<le> 4 \<Longrightarrow> df_user_version (schema_file k) = k" using le4_cases[of k] by auto
qed

lemma remaining_upgrade:
  assumes "at_version k f" "k \<le> 4"
  shows "\<exists>g. run_ddl (remaining_script k) f = Inr g \<and> at_version 4 g \<and> df_rows g = df_rows f"
proof -
  have "same_schema f (schema_file k)" "no_stray_rows f"
    using assms by (auto simp: at_version_def same_schema_def no_stray_rows_def schema_version)
  from run_ddl_schema[OF this(1) remaining_schema[OF assms(2)] this(2)]
  obtain g where "run_ddl (remaining_script k) f = Inr g" "same_schema g (schema_file 4)" "no_stray_rows g"
    "df_rows g = df_rows f" by blast
  then show ?thesis by (auto simp: at_version_def same_schema_def no_stray_rows_def schema_version)
qed

section \<open>Upgrade\<close>

text \<open>C32. A database file of any older schema version is upgraded as a whole or not at all: whatever
  statement fails, the file stays as it was; on success it has the current schema and the same rows;
  without failures it succeeds; and a file at the current version is left alone, so of two processes
  that race for the first open the second does nothing.\<close>

theorem migrations_are_atomic:
  assumes "at_version k f" "k \<le> CURRENT_SCHEMA_VERSION"
    and "apply_migrations \<lparr>mt_file = f, mt_faults = faults\<rparr> = (r, t)"
  shows "(isl r \<longrightarrow> mt_file t = f)
    \<and> (r = Inr () \<longrightarrow> at_version CURRENT_SCHEMA_VERSION (mt_file t) \<and> df_rows (mt_file t) = df_rows f)
    \<and> (faults = [] \<longrightarrow> r = Inr ())
    \<and> (k = CURRENT_SCHEMA_VERSION \<longrightarrow> mt_file t = f)"
proof -
  have k4: "k \<le> 4" using assms(2) by (simp add: CURRENT_SCHEMA_VERSION_def)
  obtain g where g: "run_ddl (remaining_script k) f = Inr g" "at_version 4 g" "df_rows g = df_rows f"
    using remaining_upgrade[OF assms(1) k4] by blast
  have v: "df_user_version f = k" using assms(1) by (simp add: at_version_def)
  have four: "k = 4 \<Longrightarrow> g = f" using g(1) by (simp add: remaining_scripts)
  show ?thesis
  proof (cases "next_failure faults")
    case (Some e)
    then show ?thesis using assms(3) by (auto simp: apply_migrations_def next_failure_def split: list.splits)
  next
    case None
    obtain p t1 where p: "pending_migrations \<lparr>mt_file = f, mt_faults = tl faults\<rparr> = (p, t1)" by force
    have "(\<exists>e. p = Inl e) \<or> g = mt_file t1"
      using pending_migrations_cases[OF p] v k4 g(1) by simp
    moreover have "p = Inr () \<and> mt_faults t1 = []" if "faults = []"
      using pending_migrations_ok[of "\<lparr>mt_file = f, mt_faults = tl faults\<rparr>" g] v k4 g(1) p that by auto
    ultimately show ?thesis
      using assms(3) None p g(2,3) four
      by (cases p) (auto simp: apply_migrations_def CURRENT_SCHEMA_VERSION_def next_failure_def split: option.splits list.splits)
  qed
qed

definition sample_rows :: "string \<Rightarrow> (string \<Rightarrow> nat option) list" where
  "sample_rows t = (if t = ''claims'' then [[''claim_id'' \<mapsto> 1]] else [])"

definition sample_v2_file :: "nat db_file" where
  "sample_v2_file = \<lparr>df_user_version = 2, df_tables = df_tables (schema_file 2), df_indexes = df_indexes (schema_file 2),
     df_rows = sample_rows\<rparr>"

lemma sample_v2: "at_version 2 sample_v2_file"
proof -
  have "map_of (df_tables (schema_file 2)) ''claims'' \<noteq> None" by code_simp
  then show ?thesis by (auto simp: at_version_def sample_v2_file_def sample_rows_def)
qed

theorem migrations_are_atomic_witness:
  "\<exists>t. apply_migrations \<lparr>mt_file = sample_v2_file, mt_faults = []\<rparr> = (Inr (), t)
     \<and> at_version 4 (mt_file t) \<and> df_rows (mt_file t) ''claims'' = [[''claim_id'' \<mapsto> 1]]"
proof -
  obtain r t where r: "apply_migrations \<lparr>mt_file = sample_v2_file, mt_faults = []\<rparr> = (r, t)" by force
  show ?thesis using migrations_are_atomic[OF sample_v2 _ r] r
    by (auto simp: CURRENT_SCHEMA_VERSION_def sample_v2_file_def sample_rows_def)
qed

section \<open>The retry loop\<close>

definition upgraded :: "'v db_file \<Rightarrow> 'v db_file \<Rightarrow> bool" where
  "upgraded f f' = ((f' = f \<or> at_version 4 f') \<and> df_rows f' = df_rows f)"

lemma upgraded_trans: "upgraded f g \<Longrightarrow> upgraded g h \<Longrightarrow> upgraded f h"
  by (auto simp: upgraded_def)

lemma upgraded_version: "at_version k f \<Longrightarrow> k \<le> 4 \<Longrightarrow> upgraded f g \<Longrightarrow> \<exists>j \<le> 4. at_version j g"
  by (auto simp: upgraded_def)

lemma migrations_step:
  assumes "at_version k f" "k \<le> 4" "apply_migrations \<lparr>mt_file = f, mt_faults = faults\<rparr> = (r, t)"
  shows "upgraded f (mt_file t) \<and> (r = Inr () \<longrightarrow> at_version 4 (mt_file t))"
proof -
  obtain g where g: "run_ddl (remaining_script k) f = Inr g" "at_version 4 g" "df_rows g = df_rows f"
    using remaining_upgrade[OF assms(1,2)] by blast
  have v: "df_user_version f = k" using assms(1) by (simp add: at_version_def)
  obtain p t1 where p: "pending_migrations \<lparr>mt_file = f, mt_faults = tl faults\<rparr> = (p, t1)" by force
  have "(\<exists>e. p = Inl e) \<or> g = mt_file t1" using pending_migrations_cases[OF p] v assms(2) g(1) by simp
  then show ?thesis using assms(3) p g(2,3)
    by (cases p) (auto simp: apply_migrations_def upgraded_def split: option.splits)
qed

lemma statement_result_effect:
  "statement_result w = (r, w') \<Longrightarrow> ow_files w' = ow_files w \<and> ow_slept w' = ow_slept w"
  by (auto simp: statement_result_def split: option.splits)

lemma apply_pragmas_effect:
  assumes "apply_pragmas c w = (r, w')"
  shows "ow_files w' = ow_files w \<and> ow_slept w' = ow_slept w
    \<and> (\<forall>c'. r = Inr c' \<longrightarrow> cn_path c' = cn_path c \<and> cn_foreign_keys c' \<and> cn_synchronous_full c')"
proof -
  obtain r1 w1 where 1: "statement_result w = (r1, w1)" by force
  obtain r2 w2 where 2: "statement_result w1 = (r2, w2)" by force
  show ?thesis
    using assms 1 2 statement_result_effect[OF 1] statement_result_effect[OF 2]
    by (cases r1; cases r2) (auto simp: apply_pragmas_def)
qed

definition opened :: "string \<Rightarrow> connection \<Rightarrow> 'v open_world \<Rightarrow> bool" where
  "opened path c w = (cn_path c = path \<and> cn_foreign_keys c \<and> cn_synchronous_full c \<and> at_version 4 (ow_files w path))"

definition only_upgrades :: "string \<Rightarrow> 'v open_world \<Rightarrow> 'v open_world \<Rightarrow> bool" where
  "only_upgrades path w w' = (upgraded (ow_files w path) (ow_files w' path) \<and> (\<forall>p. p \<noteq> path \<longrightarrow> ow_files w' p = ow_files w p))"

lemma only_upgrades_same: "ow_files w' = ow_files w \<Longrightarrow> only_upgrades path w w'"
  by (simp add: only_upgrades_def upgraded_def)

lemma migrate_at_effect:
  assumes "migrate_at path w = (r, w')" "at_version k (ow_files w path)" "k \<le> 4"
  shows "only_upgrades path w w' \<and> ow_slept w' = ow_slept w \<and> (r = Inr () \<longrightarrow> at_version 4 (ow_files w' path))"
proof -
  obtain q t where q: "apply_migrations \<lparr>mt_file = ow_files w path, mt_faults = ow_faults w\<rparr> = (q, t)" by force
  show ?thesis using assms(1) q migrations_step[OF assms(2,3) q]
    by (auto simp: migrate_at_def only_upgrades_def)
qed

lemma open_once_effect:
  assumes "open_once path w = (r, w')" "at_version k (ow_files w path)" "k \<le> 4"
  shows "only_upgrades path w w' \<and> ow_slept w' = ow_slept w \<and> (\<forall>c. r = Inr c \<longrightarrow> opened path c w')"
proof -
  let ?c0 = "\<lparr>cn_path = path, cn_synchronous_full = False, cn_foreign_keys = False, cn_busy_timeout_ms = 5000\<rparr>"
  obtain r1 w1 where 1: "statement_result w = (r1, w1)" by force
  obtain r2 w2 where 2: "apply_pragmas ?c0 w1 = (r2, w2)" by force
  obtain r3 w3 where 3: "migrate_at path w2 = (r3, w3)" by force
  have same: "ow_files w1 = ow_files w" "ow_files w2 = ow_files w" "ow_slept w1 = ow_slept w" "ow_slept w2 = ow_slept w"
    using statement_result_effect[OF 1] apply_pragmas_effect[OF 2] by simp_all
  then have m: "only_upgrades path w w3" "ow_slept w3 = ow_slept w" "r3 = Inr () \<Longrightarrow> at_version 4 (ow_files w3 path)"
    using migrate_at_effect[OF 3] assms(2,3) by (simp_all add: only_upgrades_def)
  show ?thesis
  proof (cases r1)
    case Inl
    then show ?thesis using assms(1) 1 same by (auto simp: open_once_def only_upgrades_same)
  next
    case (Inr u)
    show ?thesis
    proof (cases r2)
      case Inl
      then show ?thesis using assms(1) 1 2 Inr same by (auto simp: open_once_def only_upgrades_same)
    next
      case (Inr c)
      then show ?thesis using assms(1) 1 2 3 \<open>r1 = Inr u\<close> m apply_pragmas_effect[OF 2]
        by (auto simp: open_once_def opened_def split: sum.splits)
    qed
  qed
qed

lemma only_upgrades_trans: "only_upgrades path w w1 \<Longrightarrow> only_upgrades path w1 w2 \<Longrightarrow> only_upgrades path w w2"
  unfolding only_upgrades_def using upgraded_trans by metis

lemma pauses_step: "a < b \<Longrightarrow> (5 * Suc a) # map (\<lambda>i. 5 * i) [Suc (Suc a)..<Suc b] = map (\<lambda>i. 5 * i) [Suc a..<Suc b]"
  by (subst (2) upt_rec) auto

lemma open_loop_effect:
  assumes "open_loop a path w = (r, w')" "a < 10" "at_version k (ow_files w path)" "k \<le> 4"
  shows "only_upgrades path w w' \<and> (\<forall>c. r = Inr c \<longrightarrow> opened path c w')
    \<and> (\<exists>n < 10. a \<le> n \<and> ow_slept w' = ow_slept w @ map (\<lambda>i. 5 * i) [Suc a..<Suc n]
          \<and> (\<forall>e. r = Inl e \<and> is_sqlite_busy e \<longrightarrow> n = 9))"
  using assms
proof (induction a path w arbitrary: r w' k rule: open_loop.induct)
  case (1 a path w)
  obtain q w1 where q: "open_once path w = (q, w1)" by force
  note eff = open_once_effect[OF q 1(4,5)]
  show ?case
  proof (cases "\<exists>e. q = Inl e \<and> a + 1 < OPEN_MAX_ATTEMPTS \<and> is_sqlite_busy e")
    case True
    then obtain e where e: "q = Inl e" "a + 1 < OPEN_MAX_ATTEMPTS" "is_sqlite_busy e" by blast
    have loop: "open_loop (a + 1) path (sleep_ms (5 * (a + 1)) w1) = (r, w')"
      using 1(2) q e by (simp add: open_loop.simps[of a] Let_def)
    obtain j where j: "j \<le> 4" "at_version j (ow_files w1 path)"
      using upgraded_version[OF 1(4,5), of "ow_files w1 path"] eff unfolding only_upgrades_def by blast
    have "only_upgrades path (sleep_ms (5 * (a + 1)) w1) w' \<and> (\<forall>c. r = Inr c \<longrightarrow> opened path c w')
      \<and> (\<exists>n < 10. a + 1 \<le> n \<and> ow_slept w' = ow_slept (sleep_ms (5 * (a + 1)) w1) @ map (\<lambda>i. 5 * i) [Suc (a + 1)..<Suc n]
          \<and> (\<forall>e. r = Inl e \<and> is_sqlite_busy e \<longrightarrow> n = 9))"
    proof (rule 1(1)[OF refl q[symmetric] e(1) _ loop])
      show "a + 1 < OPEN_MAX_ATTEMPTS \<and> is_sqlite_busy e" "a + 1 < 10" using e by (simp_all add: OPEN_MAX_ATTEMPTS_def)
      show "at_version j (ow_files (sleep_ms (5 * (a + 1)) w1) path)" "j \<le> 4" using j by (simp_all add: sleep_ms_def)
    qed
    then obtain n where n: "n < 10" "a + 1 \<le> n"
        "ow_slept w' = ow_slept w1 @ [5 * Suc a] @ map (\<lambda>i. 5 * i) [Suc (Suc a)..<Suc n]"
        "\<forall>e. r = Inl e \<and> is_sqlite_busy e \<longrightarrow> n = 9"
      and up: "only_upgrades path w1 w'" "\<forall>c. r = Inr c \<longrightarrow> opened path c w'"
      by (auto simp: sleep_ms_def only_upgrades_def)
    have "ow_slept w' = ow_slept w @ map (\<lambda>i. 5 * i) [Suc a..<Suc n]"
      using n(2,3) eff pauses_step[of a n] by simp
    then show ?thesis using n up eff only_upgrades_trans by auto
  next
    case False
    then have rw: "r = q" "w' = w1"
      using 1(2) q by (auto simp: open_loop.simps[of a] Let_def split: sum.splits if_splits)
    then show ?thesis using eff 1(3) False by (auto simp: OPEN_MAX_ATTEMPTS_def intro!: exI[of _ a])
  qed
qed

text \<open>Opening a file terminates within ten attempts: after \<^verbatim>\<open>n\<close> busy attempts it has paused
  5, 10, up to 5 \<^verbatim>\<open>n\<close> milliseconds, at most 225 in all, and it reports a busy file only after the tenth.
  An opened connection enforces foreign keys on a file of the current schema; whatever the outcome,
  the file is as it was or fully upgraded, with its rows, and no other file is touched.\<close>

theorem open_stops_within_ten_attempts:
  assumes "open_connection path w = (r, w')" "at_version k (ow_files w path)" "k \<le> CURRENT_SCHEMA_VERSION"
  shows "(\<exists>n < OPEN_MAX_ATTEMPTS. ow_slept w' = ow_slept w @ map (\<lambda>i. 5 * i) [1..<Suc n]
          \<and> sum_list (map (\<lambda>i. 5 * i) [1..<Suc n]) \<le> 225
          \<and> (\<forall>e. r = Inl e \<and> is_sqlite_busy e \<longrightarrow> n = 9))
    \<and> (\<forall>c. r = Inr c \<longrightarrow> cn_foreign_keys c \<and> at_version CURRENT_SCHEMA_VERSION (ow_files w' path))
    \<and> (ow_files w' path = ow_files w path \<or> at_version CURRENT_SCHEMA_VERSION (ow_files w' path))
    \<and> df_rows (ow_files w' path) = df_rows (ow_files w path)
    \<and> (\<forall>p. p \<noteq> path \<longrightarrow> ow_files w' p = ow_files w p)"
proof -
  have sums: "sum_list (map (\<lambda>i. 5 * i) [1..<Suc n]) \<le> 225" if "n < 10" for n :: nat
  proof -
    have "n \<in> {0, 1, 2, 3, 4, 5, 6, 7, 8, 9}" using that by auto
    then show ?thesis by (elim insertE emptyE) (simp_all add: upt_rec)
  qed
  have k: "k \<le> 4" and loop: "open_loop 0 path w = (r, w')"
    using assms(1,3) by (simp_all add: CURRENT_SCHEMA_VERSION_def open_connection_def)
  note eff = open_loop_effect[OF loop _ assms(2) k]
  from eff obtain n where n: "n < 10" "ow_slept w' = ow_slept w @ map (\<lambda>i. 5 * i) [Suc 0..<Suc n]"
    "\<forall>e. r = Inl e \<and> is_sqlite_busy e \<longrightarrow> n = 9" by auto
  have "\<exists>n < OPEN_MAX_ATTEMPTS. ow_slept w' = ow_slept w @ map (\<lambda>i. 5 * i) [1..<Suc n]
          \<and> sum_list (map (\<lambda>i. 5 * i) [1..<Suc n]) \<le> 225
          \<and> (\<forall>e. r = Inl e \<and> is_sqlite_busy e \<longrightarrow> n = 9)"
    using n sums[OF n(1)] by (intro exI[of _ n]) (simp add: OPEN_MAX_ATTEMPTS_def)
  moreover have "only_upgrades path w w'" "\<forall>c. r = Inr c \<longrightarrow> opened path c w'" using eff by simp_all
  ultimately show ?thesis
    by (simp add: CURRENT_SCHEMA_VERSION_def only_upgrades_def opened_def upgraded_def)
qed

definition busy_world :: "nat open_world" where
  "busy_world = \<lparr>ow_files = (\<lambda>_. new_file), ow_faults = [Some DatabaseBusy], ow_slept = []\<rparr>"

lemma new_file_version: "at_version 0 new_file"
  by (simp add: at_version_def schema_file_def schema_script_def) (simp add: new_file_def)

theorem open_stops_within_ten_attempts_witness:
  "\<exists>c w'. open_connection ''m.db'' busy_world = (Inr c, w') \<and> ow_slept w' = [5]
     \<and> cn_foreign_keys c \<and> at_version 4 (ow_files w' ''m.db'')"
proof -
  have run: "\<not> isl (fst (open_connection ''m.db'' busy_world))" "ow_slept (snd (open_connection ''m.db'' busy_world)) = [5]"
    by code_simp+
  obtain r w' where r: "open_connection ''m.db'' busy_world = (r, w')" by force
  have "at_version 0 (ow_files busy_world ''m.db'')" by (simp add: busy_world_def new_file_version)
  from open_stops_within_ten_attempts[OF r this] run r show ?thesis
    by (cases r) (auto simp: CURRENT_SCHEMA_VERSION_def)
qed

section \<open>The files of different agents\<close>

text \<open>C33. Two agents never share a file: the path is derived exactly for non-empty ids of letters,
  digits, dash and underscore, it lies in the base directory itself, and different ids have
  different paths. (Paths that differ in case only, as for \<^verbatim>\<open>A\<close> and \<^verbatim>\<open>a\<close>, do occur.)\<close>

theorem agent_files_are_disjoint:
  "((\<exists>p. derive_agent_db_path base a = Inr p) \<longleftrightarrow>
      a \<noteq> [] \<and> list_all (\<lambda>c. is_ascii_alphanumeric c \<or> c = CHR ''-'' \<or> c = CHR ''_'') a)
   \<and> (\<forall>p. derive_agent_db_path base a = Inr p \<longrightarrow> (\<exists>name. p = path_join base name \<and> CHR ''/'' \<notin> set name))
   \<and> (\<forall>b p. derive_agent_db_path base a = Inr p \<and> derive_agent_db_path base b = Inr p \<longrightarrow> a = b)"
proof (intro conjI allI impI)
  show "(\<exists>p. derive_agent_db_path base a = Inr p) \<longleftrightarrow>
      a \<noteq> [] \<and> list_all (\<lambda>c. is_ascii_alphanumeric c \<or> c = CHR ''-'' \<or> c = CHR ''_'') a"
    by (rule derive_ok_iff)
next
  fix p assume p: "derive_agent_db_path base a = Inr p"
  have slash: "\<not> (is_ascii_alphanumeric (CHR ''/'') \<or> CHR ''/'' = CHR ''-'' \<or> CHR ''/'' = CHR ''_'')" by code_simp
  have "CHR ''/'' \<notin> set a"
    using p slash by (auto simp: derive_agent_db_path_def list_all_iff split: if_splits)
  then show "\<exists>name. p = path_join base name \<and> CHR ''/'' \<notin> set name"
    using p by (intro exI[of _ "''agent_'' @ a @ ''.db''"]) (auto simp: derive_agent_db_path_def split: if_splits)
next
  fix b p assume "derive_agent_db_path base a = Inr p \<and> derive_agent_db_path base b = Inr p"
  then show "a = b" using derive_inj by blast
qed

theorem agent_files_are_disjoint_witness:
  "derive_agent_db_path ''/data'' ''A'' \<noteq> derive_agent_db_path ''/data'' ''a''
   \<and> derive_agent_db_path ''/data'' ''A'' = Inr ''/data/agent_A.db''"
proof -
  have A: "derive_agent_db_path ''/data'' ''A'' = Inr ''/data/agent_A.db''" by code_simp
  have "derive_agent_db_path ''/data'' ''a'' \<noteq> Inr ''/data/agent_A.db''"
    using agent_files_are_disjoint[of "''/data''" "''A''"] A by auto
  then show ?thesis using A by simp
qed

end
