(* ===== verification/Engine_Locks.thy ===== *)
theory Engine_Locks
  imports Engine_Steps
begin

text \<open>The asynchronous shell of the engine: \<^verbatim>\<open>mempill-core/src/engine_handle.rs\<close> and
  \<^verbatim>\<open>mempill-core/src/concurrency/agent_lock.rs\<close>. A task is one call of a write method; its state is
  the await point it is suspended at, with the values it carries. Between two await points a task
  runs without interruption, so a step is the code from one await point to the next. Any task that
  can go on may be the next one: the order in which a mutex serves its waiters is not fixed.

  A use case runs inside \<^verbatim>\<open>spawn_blocking\<close> and takes effect as one step; the exclusion proved here is
  what makes that true of a store that serializes its writes. Use cases do not panic, so the join
  error of \<^verbatim>\<open>spawn_blocking\<close> does not occur.\<close>

section \<open>Calls, jobs and tasks\<close>

record ('w, 't, 'e) engine_handle =
  eh_persistence :: "('w, 't, 'e) persistence_port"
  eh_oracle :: "oracle_port option"
  eh_pending_store :: "('w, 'e) pending_port option"
  eh_config :: engine_config

definition new_handle ::
    "('w, 't, 'e) persistence_port \<Rightarrow> oracle_port option \<Rightarrow> engine_config \<Rightarrow> ('w, 't, 'e) engine_handle" where
  "new_handle P oracle cfg = \<lparr>eh_persistence = P, eh_oracle = oracle, eh_pending_store = None, eh_config = cfg\<rparr>"

definition new_with_pending_store ::
    "('w, 't, 'e) persistence_port \<Rightarrow> oracle_port option \<Rightarrow> ('w, 'e) pending_port \<Rightarrow> engine_config
       \<Rightarrow> ('w, 't, 'e) engine_handle" where
  "new_with_pending_store P oracle Q cfg =
     \<lparr>eh_persistence = P, eh_oracle = oracle, eh_pending_store = Some Q, eh_config = cfg\<rparr>"

text \<open>The reads take no lock: one use case on the world of that moment, with the clock read before.\<close>

definition handle_query_memory ::
    "('w, 't, 'e) engine_handle \<Rightarrow> query_memory_request \<Rightarrow> instant \<Rightarrow> 'w \<Rightarrow> ('e mem_error, belief_projection) res" where
  "handle_query_memory H req now w = query_memory_execute (eh_persistence H) (eh_config H) req now w"

definition handle_query_subject ::
    "('w, 't, 'e) engine_handle \<Rightarrow> query_subject_request \<Rightarrow> instant \<Rightarrow> 'w \<Rightarrow> ('e mem_error, subject_fact_entry list) res" where
  "handle_query_subject H req now w = query_subject_execute (eh_persistence H) (eh_config H) req now w"

definition handle_query_history ::
    "('w, 't, 'e) engine_handle \<Rightarrow> query_history_request \<Rightarrow> instant \<Rightarrow> 'w \<Rightarrow> ('e mem_error, history_entry list) res" where
  "handle_query_history H req now w = query_history_execute (eh_persistence H) (eh_config H) req now w"

definition handle_resolve_live_claim ::
    "('w, 't, 'e) engine_handle \<Rightarrow> agent_id \<Rightarrow> string \<Rightarrow> string \<Rightarrow> instant \<Rightarrow> 'w
       \<Rightarrow> ('e mem_error, live_claim_resolution) res" where
  "handle_resolve_live_claim H a subj pred now w =
     resolve_live_claim_for_line (eh_persistence H) (eh_config H) a subj pred now w"

definition query_audit ::
    "('w, 't, 'e) engine_handle \<Rightarrow> audit_query \<Rightarrow> 'w \<Rightarrow> ('e mem_error, ledger_entry list) res" where
  "query_audit H q w = audit_execute (eh_persistence H) q w"

definition list_pending_adjudications ::
    "('w, 't, 'e) engine_handle \<Rightarrow> agent_id option \<Rightarrow> 'w \<Rightarrow> ('e mem_error, pending_row list) res" where
  "list_pending_adjudications H a w =
     (case eh_pending_store H of
        None \<Rightarrow> Inr []
      | Some Q \<Rightarrow> map_err PendingStore (pq_list_pending Q w a))"

datatype write_call =
    IngestClaim ingest_request
  | AssertValidity assert_validity_request
  | ReconcileLines reconcile_request
  | SubmitAdjudication uuid adjudication_response
  | SweepExpired

text \<open>What a task runs under the locks: a use case, or one iteration of a loop of the sweep with the
  rows still to come and the count so far.\<close>

datatype job =
    IngestJob ingest_request
  | AssertJob assert_validity_request
  | ReconcileJob reconcile_request
  | SubmitJob agent_id uuid adjudication_response
  | RevertRowJob pending_row "pending_row list" nat
  | RevertOrphanJob orphan "orphan list" nat

datatype 'e answer =
    IngestAnswer "('e mem_error, ingest_response) res"
  | AssertAnswer "('e mem_error, assert_validity_response) res"
  | ReconcileAnswer "('e mem_error, reconcile_response) res"
  | SubmitAnswer "('e mem_error, adjudication_outcome) res"
  | SweepAnswer "('e mem_error, nat) res"

datatype 'e task =
    Called write_call
  | Resolving instant uuid adjudication_response
  | ListingExpired instant
  | ListingOrphans instant nat
  | WantStore instant job
  | ReadingLockMap instant job
  | InsertingLock instant job
  | WantAgent instant job nat
  | Running instant job nat
  | Finished nat "'e task"
  | ReleasingStore "'e task"
  | Returned "'e answer"
  | Detached instant job
  | Dropped

fun job_agent :: "job \<Rightarrow> agent_id" where
  "job_agent (IngestJob req) = iq_agent_id req"
| "job_agent (AssertJob req) = aq_agent_id req"
| "job_agent (ReconcileJob req) = rq_agent_id req"
| "job_agent (SubmitJob a _ _) = a"
| "job_agent (RevertRowJob row _ _) = pa_agent_id row"
| "job_agent (RevertOrphanJob orph _ _) = or_agent_id orph"

text \<open>The next iteration of each loop of the sweep.\<close>

definition next_row :: "instant \<Rightarrow> pending_row list \<Rightarrow> nat \<Rightarrow> 'e task" where
  "next_row now rows swept =
     (case rows of [] \<Rightarrow> ListingOrphans now swept | row # rest \<Rightarrow> WantStore now (RevertRowJob row rest swept))"

definition next_orphan :: "instant \<Rightarrow> orphan list \<Rightarrow> nat \<Rightarrow> 'e task" where
  "next_orphan now orphans swept =
     (case orphans of [] \<Rightarrow> Returned (SweepAnswer (Inr swept))
      | orph # rest \<Rightarrow> WantStore now (RevertOrphanJob orph rest swept))"

text \<open>The code of each write method up to its first await point; the clock is read here.\<close>

fun begin_call :: "('w, 't, 'e) engine_handle \<Rightarrow> instant \<Rightarrow> write_call \<Rightarrow> 'e task" where
  "begin_call H now (IngestClaim req) = WantStore now (IngestJob req)"
| "begin_call H now (AssertValidity req) = WantStore now (AssertJob req)"
| "begin_call H now (ReconcileLines req) = WantStore now (ReconcileJob req)"
| "begin_call H now (SubmitAdjudication handle response) =
     (case eh_pending_store H of
        None \<Rightarrow> Returned (SubmitAnswer (Inl (AdjudicationHandleNotFound handle)))
      | Some _ \<Rightarrow> Resolving now handle response)"
| "begin_call H now SweepExpired =
     (case eh_pending_store H of
        None \<Rightarrow> Returned (SweepAnswer (Inr 0))
      | Some _ \<Rightarrow> ListingExpired now)"

definition resolve_handle ::
    "('w, 'e) pending_port \<Rightarrow> 'w \<Rightarrow> instant \<Rightarrow> uuid \<Rightarrow> adjudication_response \<Rightarrow> 'e task" where
  "resolve_handle Q w now handle response =
     (case pq_get_pending Q w handle of
        Inl e \<Rightarrow> Returned (SubmitAnswer (Inl (PendingStore e)))
      | Inr None \<Rightarrow> Returned (SubmitAnswer (Inl (AdjudicationHandleNotFound handle)))
      | Inr (Some row) \<Rightarrow> WantStore now (SubmitJob (pa_agent_id row) handle response))"

definition list_expired_rows :: "('w, 'e) pending_port \<Rightarrow> 'w \<Rightarrow> instant \<Rightarrow> 'e task" where
  "list_expired_rows Q w now =
     (case pq_list_expired Q w now of
        Inl e \<Rightarrow> Returned (SweepAnswer (Inl (PendingStore e)))
      | Inr rows \<Rightarrow> next_row now rows 0)"

definition list_orphans :: "('w, 'e) pending_port \<Rightarrow> 'w \<Rightarrow> instant \<Rightarrow> nat \<Rightarrow> 'e task" where
  "list_orphans Q w now swept =
     (case pq_list_queued_orphan_claims Q w of
        Inl e \<Rightarrow> Returned (SweepAnswer (Inl (PendingStore e)))
      | Inr orphans \<Rightarrow> next_orphan now orphans swept)"

text \<open>A job and what its task does once the locks are released. The jobs of a submission and of a
  sweep exist only with a pending store; without one they end at once.\<close>

fun run_job ::
    "('w, 't, 'e) engine_handle \<Rightarrow> (nat \<Rightarrow> uuid) \<Rightarrow> instant \<Rightarrow> job \<Rightarrow> 'w \<Rightarrow> 'e task \<times> 'w" where
  "run_job H ids now (IngestJob req) w =
     (case ingest_execute (eh_persistence H) (eh_pending_store H) (eh_oracle H) (eh_config H) ids req now w of
        (r, w') \<Rightarrow> (Returned (IngestAnswer r), w'))"
| "run_job H ids now (AssertJob req) w =
     (case assert_validity_execute (eh_persistence H) ids req now w of (r, w') \<Rightarrow> (Returned (AssertAnswer r), w'))"
| "run_job H ids now (ReconcileJob req) w =
     (case reconcile_execute (eh_persistence H) (eh_oracle H) (eh_config H) ids req now w of
        (r, w') \<Rightarrow> (Returned (ReconcileAnswer r), w'))"
| "run_job H ids now (SubmitJob a handle response) w =
     (case eh_pending_store H of
        None \<Rightarrow> (Returned (SubmitAnswer (Inl (AdjudicationHandleNotFound handle))), w)
      | Some Q \<Rightarrow> (case submit_execute (eh_persistence H) Q (eh_config H) ids handle response now w of
          (r, w') \<Rightarrow> (Returned (SubmitAnswer r), w')))"
| "run_job H ids now (RevertRowJob row rest swept) w =
     (case eh_pending_store H of
        None \<Rightarrow> (Returned (SweepAnswer (Inr swept)), w)
      | Some Q \<Rightarrow> (case revert_expired_row (eh_persistence H) Q (ids 0) row now w of
          (Inl e, w') \<Rightarrow> (Returned (SweepAnswer (Inl e)), w')
        | (Inr reverted, w') \<Rightarrow> (next_row now rest (if reverted then Suc swept else swept), w')))"
| "run_job H ids now (RevertOrphanJob orph rest swept) w =
     (case revert_orphan (eh_persistence H) (ids 0) orph now w of
        (Inl e, w') \<Rightarrow> (Returned (SweepAnswer (Inl e)), w')
      | (Inr reverted, w') \<Rightarrow> (next_orphan now rest (if reverted then Suc swept else swept), w'))"

section \<open>The state shared by the tasks\<close>

text \<open>\<^verbatim>\<open>hs_locks\<close> is the map of \<^verbatim>\<open>AgentWriteLockMap\<close> from agents to mutexes, \<^verbatim>\<open>hs_mutexes\<close> the task that
  holds a mutex, \<^verbatim>\<open>hs_next\<close> the next unused mutex. \<^verbatim>\<open>hs_log\<close> records the jobs run, with the time they
  ran with and their fresh identifiers.\<close>

record ('w, 'e) handle_state =
  hs_tasks :: "'e task list"
  hs_store_lock :: "nat option"
  hs_locks :: "agent_id \<Rightarrow> nat option"
  hs_mutexes :: "nat \<Rightarrow> nat option"
  hs_next :: nat
  hs_clock :: instant
  hs_world :: 'w
  hs_log :: "(instant \<times> (nat \<Rightarrow> uuid) \<times> job) list"

definition new_handle_state :: "instant \<Rightarrow> 'w \<Rightarrow> ('w, 'e) handle_state" where
  "new_handle_state t w = \<lparr>hs_tasks = [], hs_store_lock = None, hs_locks = (\<lambda>_. None), hs_mutexes = (\<lambda>_. None),
     hs_next = 0, hs_clock = t, hs_world = w, hs_log = []\<rparr>"

definition set_task :: "nat \<Rightarrow> 'e task \<Rightarrow> ('w, 'e) handle_state \<Rightarrow> ('w, 'e) handle_state" where
  "set_task i tk s = s\<lparr>hs_tasks := (hs_tasks s)[i := tk]\<rparr>"

definition needs_store_lock :: "('w, 't, 'e) engine_handle \<Rightarrow> bool" where
  "needs_store_lock H = pp_requires_global_write_serialization (eh_persistence H)"

text \<open>\<^verbatim>\<open>Utc::now()\<close> of \<^verbatim>\<open>reconcile\<close> is read inside the use case.\<close>

fun job_time :: "instant \<Rightarrow> instant \<Rightarrow> job \<Rightarrow> instant" where
  "job_time clock now (ReconcileJob _) = clock"
| "job_time clock now _ = now"

definition run_in :: "('w, 't, 'e) engine_handle \<Rightarrow> (nat \<Rightarrow> uuid) \<Rightarrow> instant \<Rightarrow> job \<Rightarrow> ('w, 'e) handle_state
    \<Rightarrow> 'e task \<times> ('w, 'e) handle_state" where
  "run_in H ids now j s =
     (let t = job_time (hs_clock s) now j in
      case run_job H ids t j (hs_world s) of
        (tk, w') \<Rightarrow> (tk, s\<lparr>hs_world := w', hs_log := hs_log s @ [(t, ids, j)]\<rparr>))"

text \<open>\<^verbatim>\<open>AgentWriteLockMap::acquire\<close>: look the mutex up; insert one unless another task has meanwhile.\<close>

definition read_lock_map :: "instant \<Rightarrow> job \<Rightarrow> ('w, 'e) handle_state \<Rightarrow> 'e task" where
  "read_lock_map now j s =
     (case hs_locks s (job_agent j) of Some m \<Rightarrow> WantAgent now j m | None \<Rightarrow> InsertingLock now j)"

definition entry_or_insert :: "agent_id \<Rightarrow> ('w, 'e) handle_state \<Rightarrow> nat \<times> ('w, 'e) handle_state" where
  "entry_or_insert a s =
     (case hs_locks s a of
        Some m \<Rightarrow> (m, s)
      | None \<Rightarrow> (hs_next s, s\<lparr>hs_locks := (hs_locks s)(a \<mapsto> hs_next s), hs_next := Suc (hs_next s)\<rparr>))"

text \<open>The next step of a task; \<^verbatim>\<open>None\<close> when it waits for a lock or has ended.\<close>

definition task_step :: "('w, 't, 'e) engine_handle \<Rightarrow> nat \<Rightarrow> (nat \<Rightarrow> uuid) \<Rightarrow> ('w, 'e) handle_state
    \<Rightarrow> ('w, 'e) handle_state option" where
  "task_step H i ids s =
     (if length (hs_tasks s) \<le> i then None
      else case hs_tasks s ! i of
        Called c \<Rightarrow> Some (set_task i (begin_call H (hs_clock s) c) s)
      | Resolving now handle response \<Rightarrow>
          (case eh_pending_store H of None \<Rightarrow> Some (set_task i Dropped s)
           | Some Q \<Rightarrow> Some (set_task i (resolve_handle Q (hs_world s) now handle response) s))
      | ListingExpired now \<Rightarrow>
          (case eh_pending_store H of None \<Rightarrow> Some (set_task i Dropped s)
           | Some Q \<Rightarrow> Some (set_task i (list_expired_rows Q (hs_world s) now) s))
      | ListingOrphans now swept \<Rightarrow>
          (case eh_pending_store H of None \<Rightarrow> Some (set_task i Dropped s)
           | Some Q \<Rightarrow> Some (set_task i (list_orphans Q (hs_world s) now swept) s))
      | WantStore now j \<Rightarrow>
          if \<not> needs_store_lock H then Some (set_task i (ReadingLockMap now j) s)
          else if hs_store_lock s = None then Some (set_task i (ReadingLockMap now j) (s\<lparr>hs_store_lock := Some i\<rparr>))
          else None
      | ReadingLockMap now j \<Rightarrow> Some (set_task i (read_lock_map now j s) s)
      | InsertingLock now j \<Rightarrow>
          (case entry_or_insert (job_agent j) s of (m, s') \<Rightarrow> Some (set_task i (WantAgent now j m) s'))
      | WantAgent now j m \<Rightarrow>
          if hs_mutexes s m = None
          then Some (set_task i (Running now j m) (s\<lparr>hs_mutexes := (hs_mutexes s)(m := Some i)\<rparr>))
          else None
      | Running now j m \<Rightarrow>
          (case run_in H ids now j s of (tk, s') \<Rightarrow> Some (set_task i (Finished m tk) s'))
      | Finished m tk \<Rightarrow> Some (set_task i (ReleasingStore tk) (s\<lparr>hs_mutexes := (hs_mutexes s)(m := None)\<rparr>))
      | ReleasingStore tk \<Rightarrow>
          Some (set_task i tk (if needs_store_lock H then s\<lparr>hs_store_lock := None\<rparr> else s))
      | Returned _ \<Rightarrow> None
      | Detached now j \<Rightarrow> (case run_in H ids now j s of (_, s') \<Rightarrow> Some (set_task i Dropped s'))
      | Dropped \<Rightarrow> None)"

text \<open>Dropping the future of a call releases what it holds; a use case that runs is not stopped.\<close>

fun held_mutex :: "'e task \<Rightarrow> nat option" where
  "held_mutex (Running _ _ m) = Some m"
| "held_mutex (Finished m _) = Some m"
| "held_mutex _ = None"

fun holds_store :: "'e task \<Rightarrow> bool" where
  "holds_store (ReadingLockMap _ _) = True"
| "holds_store (InsertingLock _ _) = True"
| "holds_store (WantAgent _ _ _) = True"
| "holds_store (Running _ _ _) = True"
| "holds_store (Finished _ _) = True"
| "holds_store (ReleasingStore _) = True"
| "holds_store _ = False"

fun ended :: "'e task \<Rightarrow> bool" where
  "ended (Returned _) = True"
| "ended Dropped = True"
| "ended _ = False"

fun detached :: "'e task \<Rightarrow> bool" where
  "detached (Detached _ _) = True"
| "detached _ = False"

fun dropped_task :: "'e task \<Rightarrow> 'e task" where
  "dropped_task (Running now j m) = Detached now j"
| "dropped_task tk = Dropped"

definition release_mutex :: "nat option \<Rightarrow> (nat \<Rightarrow> nat option) \<Rightarrow> nat \<Rightarrow> nat option" where
  "release_mutex mo ms = (case mo of None \<Rightarrow> ms | Some m \<Rightarrow> ms(m := None))"

definition cancel_task :: "('w, 't, 'e) engine_handle \<Rightarrow> nat \<Rightarrow> ('w, 'e) handle_state \<Rightarrow> ('w, 'e) handle_state option" where
  "cancel_task H i s =
     (if length (hs_tasks s) \<le> i then None
      else let tk = hs_tasks s ! i in
        if ended tk \<or> detached tk then None
        else Some (set_task i (dropped_task tk)
          (s\<lparr>hs_mutexes := release_mutex (held_mutex tk) (hs_mutexes s),
             hs_store_lock := (if needs_store_lock H \<and> holds_store tk then None else hs_store_lock s)\<rparr>)))"

section \<open>Interleavings\<close>

text \<open>A step of the system: a new call, a step of a task, the passing of time, a change of the
  environment (\<^verbatim>\<open>env\<close>). The second relation also drops futures.\<close>

inductive handle_step :: "('w, 't, 'e) engine_handle \<Rightarrow> ('w \<Rightarrow> 'w \<Rightarrow> bool) \<Rightarrow> ('w, 'e) handle_state
    \<Rightarrow> ('w, 'e) handle_state \<Rightarrow> bool"
  for H env s where
  new_call: "handle_step H env s (s\<lparr>hs_tasks := hs_tasks s @ [Called c]\<rparr>)"
| task: "task_step H i ids s = Some s' \<Longrightarrow> handle_step H env s s'"
| tick: "hs_clock s \<le> t \<Longrightarrow> handle_step H env s (s\<lparr>hs_clock := t\<rparr>)"
| environment: "env (hs_world s) w' \<Longrightarrow> handle_step H env s (s\<lparr>hs_world := w'\<rparr>)"

inductive handle_run :: "('w, 't, 'e) engine_handle \<Rightarrow> ('w \<Rightarrow> 'w \<Rightarrow> bool) \<Rightarrow> bool \<Rightarrow> ('w, 'e) handle_state
    \<Rightarrow> ('w, 'e) handle_state \<Rightarrow> bool"
  for H env cancels s where
  handle_refl: "handle_run H env cancels s s"
| handle_next: "handle_run H env cancels s s1 \<Longrightarrow> handle_step H env s1 s2 \<Longrightarrow> handle_run H env cancels s s2"
| handle_drop: "handle_run H env cancels s s1 \<Longrightarrow> cancels \<Longrightarrow> cancel_task H i s1 = Some s2 \<Longrightarrow>
     handle_run H env cancels s s2"

inductive_cases handle_step_cases: "handle_step H env s s'"

end
