(* ===== verification/Lock_Properties.thy ===== *)
theory Lock_Properties
  imports Engine_Locks Samples
begin

text \<open>Properties of the asynchronous shell: exclusion of the writers of an agent (of the store, where
  the adapter asks for it), freedom from deadlock and termination of the calls, and the link from
  interleavings of calls to the sequential runs of \<^verbatim>\<open>Engine_Steps\<close>.\<close>

section \<open>The locking invariant\<close>

fun wanted_lock :: "'e task \<Rightarrow> (agent_id \<times> nat) option" where
  "wanted_lock (WantAgent _ j m) = Some (job_agent j, m)"
| "wanted_lock (Running _ j m) = Some (job_agent j, m)"
| "wanted_lock _ = None"

fun lockless :: "'e task \<Rightarrow> bool" where
  "lockless (Finished _ _) = False"
| "lockless (ReleasingStore _) = False"
| "lockless tk = (\<not> holds_store tk)"

fun resumes_lockless :: "'e task \<Rightarrow> bool" where
  "resumes_lockless (Finished _ tk) = lockless tk"
| "resumes_lockless (ReleasingStore tk) = lockless tk"
| "resumes_lockless _ = True"

lemma lockless_simps:
  assumes "lockless tk"
  shows "\<not> holds_store tk" "held_mutex tk = None" "wanted_lock tk = None" "resumes_lockless tk"
  using assms by (cases tk; simp)+

definition lock_inv :: "('w, 't, 'e) engine_handle \<Rightarrow> ('w, 'e) handle_state \<Rightarrow> bool" where
  "lock_inv H s =
     ((\<forall>i. hs_store_lock s = Some i \<longleftrightarrow>
           needs_store_lock H \<and> i < length (hs_tasks s) \<and> holds_store (hs_tasks s ! i))
      \<and> (\<forall>m i. hs_mutexes s m = Some i \<longleftrightarrow> i < length (hs_tasks s) \<and> held_mutex (hs_tasks s ! i) = Some m)
      \<and> (\<forall>i < length (hs_tasks s). \<forall>a m. wanted_lock (hs_tasks s ! i) = Some (a, m) \<longrightarrow> hs_locks s a = Some m)
      \<and> (\<forall>i < length (hs_tasks s). resumes_lockless (hs_tasks s ! i))
      \<and> (\<forall>a b m. hs_locks s a = Some m \<and> hs_locks s b = Some m \<longrightarrow> a = b)
      \<and> (\<forall>a m. hs_locks s a = Some m \<longrightarrow> m < hs_next s))"

text \<open>Replacing one task keeps the invariant if the locks change as the new task holds them.\<close>

lemma lock_inv_update:
  assumes inv: "lock_inv H s" and i: "i < length (hs_tasks s)" and tasks: "hs_tasks s' = (hs_tasks s)[i := tk]"
    and store: "hs_store_lock s' = (if needs_store_lock H \<and> holds_store tk then Some i
         else if needs_store_lock H \<and> holds_store (hs_tasks s ! i) then None else hs_store_lock s)"
    and take: "needs_store_lock H \<Longrightarrow> holds_store tk \<Longrightarrow> holds_store (hs_tasks s ! i) \<or> hs_store_lock s = None"
    and mutex: "hs_mutexes s' = (case held_mutex tk of Some m \<Rightarrow> (hs_mutexes s)(m := Some i)
         | None \<Rightarrow> release_mutex (held_mutex (hs_tasks s ! i)) (hs_mutexes s))"
    and own: "\<And>m. held_mutex tk = Some m \<Longrightarrow>
         held_mutex (hs_tasks s ! i) = Some m \<or> held_mutex (hs_tasks s ! i) = None \<and> hs_mutexes s m = None"
    and keeps: "\<And>a m. hs_locks s a = Some m \<Longrightarrow> hs_locks s' a = Some m"
    and want: "\<And>a m. wanted_lock tk = Some (a, m) \<Longrightarrow> hs_locks s' a = Some m"
    and rest: "resumes_lockless tk"
    and inj: "\<And>a b m. hs_locks s' a = Some m \<Longrightarrow> hs_locks s' b = Some m \<Longrightarrow> a = b"
    and bound: "\<And>a m. hs_locks s' a = Some m \<Longrightarrow> m < hs_next s'"
  shows "lock_inv H s'"
proof -
  have st: "hs_store_lock s = Some k \<longleftrightarrow> needs_store_lock H \<and> k < length (hs_tasks s) \<and> holds_store (hs_tasks s ! k)" for k
    using inv by (simp add: lock_inv_def)
  have mx: "hs_mutexes s m = Some k \<longleftrightarrow> k < length (hs_tasks s) \<and> held_mutex (hs_tasks s ! k) = Some m" for m k
    using inv by (simp add: lock_inv_def)
  have "hs_store_lock s' = Some k \<longleftrightarrow>
      needs_store_lock H \<and> k < length (hs_tasks s') \<and> holds_store (hs_tasks s' ! k)" for k
    using st[of k] st[of i] i take by (cases "k = i") (auto simp: store tasks)
  moreover have "hs_mutexes s' m = Some k \<longleftrightarrow>
      k < length (hs_tasks s') \<and> held_mutex (hs_tasks s' ! k) = Some m" for m k
  proof -
    have h: "\<And>x. hs_mutexes s x = Some i \<longleftrightarrow> held_mutex (hs_tasks s ! i) = Some x" using mx i by simp
    show ?thesis
    proof (cases "held_mutex tk")
      case None
      then show ?thesis using mx[of m k] h[of m] i
        by (cases "k = i"; cases "held_mutex (hs_tasks s ! i)") (auto simp: mutex tasks release_mutex_def)
    next
      case (Some a)
      show ?thesis
      proof (cases "k = i")
        case True
        have "m \<noteq> a \<Longrightarrow> hs_mutexes s m \<noteq> Some i" using h own[OF Some] by auto
        then show ?thesis using Some True i by (auto simp: mutex tasks)
      next
        case False
        have "hs_mutexes s a \<noteq> Some k" using own[OF Some] h[of a] False by auto
        then show ?thesis using mx[of m k] mx[of a k] Some False by (cases "m = a") (auto simp: mutex tasks)
      qed
    qed
  qed
  moreover have "hs_locks s' a = Some m" if k: "k < length (hs_tasks s')" "wanted_lock (hs_tasks s' ! k) = Some (a, m)" for k a m
  proof (cases "k = i")
    case True
    then show ?thesis using k want i by (simp add: tasks)
  next
    case False
    then have "wanted_lock (hs_tasks s ! k) = Some (a, m)" "k < length (hs_tasks s)" using k by (simp_all add: tasks)
    moreover have "\<forall>i < length (hs_tasks s). \<forall>a m. wanted_lock (hs_tasks s ! i) = Some (a, m) \<longrightarrow> hs_locks s a = Some m"
      using inv by (simp add: lock_inv_def)
    ultimately have "hs_locks s a = Some m" by blast
    then show ?thesis by (rule keeps)
  qed
  moreover have "resumes_lockless (hs_tasks s' ! k)" if "k < length (hs_tasks s')" for k
  proof (cases "k = i")
    case False
    then have "k < length (hs_tasks s)" "hs_tasks s' ! k = hs_tasks s ! k" using that by (simp_all add: tasks)
    moreover have "\<forall>i < length (hs_tasks s). resumes_lockless (hs_tasks s ! i)" using inv by (simp add: lock_inv_def)
    ultimately show ?thesis by simp
  qed (use rest i in \<open>simp add: tasks\<close>)
  moreover have "\<forall>a b m. hs_locks s' a = Some m \<and> hs_locks s' b = Some m \<longrightarrow> a = b" using inj by blast
  ultimately show ?thesis using bound by (simp add: lock_inv_def)
qed

text \<open>The instance for steps that leave the lock map alone.\<close>

lemma lock_inv_update_tasks:
  assumes inv: "lock_inv H s" and i: "i < length (hs_tasks s)"
    and same: "hs_tasks s' = (hs_tasks s)[i := tk]" "hs_locks s' = hs_locks s" "hs_next s' = hs_next s"
    and store: "hs_store_lock s' = (if needs_store_lock H \<and> holds_store tk then Some i
         else if needs_store_lock H \<and> holds_store (hs_tasks s ! i) then None else hs_store_lock s)"
    and take: "needs_store_lock H \<and> holds_store tk \<longrightarrow> holds_store (hs_tasks s ! i) \<or> hs_store_lock s = None"
    and mutex: "hs_mutexes s' = (case held_mutex tk of Some m \<Rightarrow> (hs_mutexes s)(m := Some i)
         | None \<Rightarrow> release_mutex (held_mutex (hs_tasks s ! i)) (hs_mutexes s))"
    and own: "\<forall>m. held_mutex tk = Some m \<longrightarrow>
         held_mutex (hs_tasks s ! i) = Some m \<or> held_mutex (hs_tasks s ! i) = None \<and> hs_mutexes s m = None"
    and want: "\<forall>a m. wanted_lock tk = Some (a, m) \<longrightarrow> hs_locks s a = Some m"
    and rest: "resumes_lockless tk"
  shows "lock_inv H s'"
proof (rule lock_inv_update[OF inv i same(1) store])
  fix a b m
  show "hs_locks s' a = Some m \<Longrightarrow> hs_locks s' b = Some m \<Longrightarrow> a = b" "hs_locks s' a = Some m \<Longrightarrow> m < hs_next s'"
    using inv unfolding lock_inv_def same by blast+
  show "hs_locks s a = Some m \<Longrightarrow> hs_locks s' a = Some m" by (simp add: same)
qed (use take mutex own want rest same in auto)

lemma lockless_next [simp]: "lockless (next_row now rows n)" "lockless (next_orphan now orphans n)"
  by (simp_all add: next_row_def next_orphan_def split: list.split)

lemma lockless_begin [simp]: "lockless (begin_call H now c)"
  by (cases c) (simp_all split: option.split)

lemma lockless_reads [simp]:
  "lockless (resolve_handle Q w now h r)" "lockless (list_expired_rows Q w now)" "lockless (list_orphans Q w now n)"
  by (simp_all add: resolve_handle_def list_expired_rows_def list_orphans_def split: sum.split option.split)

lemma lockless_run_job [simp]: "lockless (fst (run_job H ids t j w))"
  by (cases j) (simp_all split: prod.split sum.split option.split)

lemma run_in_effect:
  assumes "run_in H ids now j s = (tk, s')"
  shows "lockless tk" "hs_tasks s' = hs_tasks s" "hs_store_lock s' = hs_store_lock s"
    "hs_locks s' = hs_locks s" "hs_mutexes s' = hs_mutexes s" "hs_next s' = hs_next s"
proof -
  let ?p = "run_job H ids (job_time (hs_clock s) now j) j (hs_world s)"
  have e: "tk = fst ?p" "s' = s\<lparr>hs_world := snd ?p, hs_log := hs_log s @ [(job_time (hs_clock s) now j, ids, j)]\<rparr>"
    using assms by (simp_all add: run_in_def Let_def case_prod_beta)
  show "lockless tk" using e(1) by simp
  show "hs_tasks s' = hs_tasks s" "hs_store_lock s' = hs_store_lock s" "hs_locks s' = hs_locks s"
    "hs_mutexes s' = hs_mutexes s" "hs_next s' = hs_next s" by (simp_all add: e(2))
qed

lemma set_task_simps [simp]:
  "hs_tasks (set_task i tk s) = (hs_tasks s)[i := tk]" "hs_store_lock (set_task i tk s) = hs_store_lock s"
  "hs_locks (set_task i tk s) = hs_locks s" "hs_mutexes (set_task i tk s) = hs_mutexes s"
  "hs_next (set_task i tk s) = hs_next s" "hs_clock (set_task i tk s) = hs_clock s"
  "hs_world (set_task i tk s) = hs_world s" "hs_log (set_task i tk s) = hs_log s"
  by (simp_all add: set_task_def)

lemma task_step_inv:
  assumes inv: "lock_inv H s" and step: "task_step H i ids s = Some s'"
  shows "lock_inv H s'"
proof -
  have i: "i < length (hs_tasks s)" using step by (auto simp: task_step_def split: if_splits)
  note upd = lock_inv_update_tasks[OF inv i]
  have rest: "resumes_lockless (hs_tasks s ! i)"
    and wanted: "\<forall>a m. wanted_lock (hs_tasks s ! i) = Some (a, m) \<longrightarrow> hs_locks s a = Some m"
    and store: "needs_store_lock H \<longrightarrow> holds_store (hs_tasks s ! i) \<longrightarrow> hs_store_lock s = Some i"
    and held: "\<forall>m. held_mutex (hs_tasks s ! i) = Some m \<longrightarrow> hs_mutexes s m = Some i"
    using inv i unfolding lock_inv_def by blast+
  note step_i = step[unfolded task_step_def]
  have free: "lock_inv H (set_task i tk s)" if "lockless (hs_tasks s ! i)" "lockless tk" for tk
    using that by (intro upd[where tk = tk]) (simp_all add: lockless_simps release_mutex_def)
  show ?thesis
  proof (cases "hs_tasks s ! i")
    case (Called c)
    then show ?thesis using step_i i free by auto
  next
    case (Resolving now h r)
    then show ?thesis using step_i i free by (auto split: option.splits)
  next
    case (ListingExpired now)
    then show ?thesis using step_i i free by (auto split: option.splits)
  next
    case (ListingOrphans now n)
    then show ?thesis using step_i i free by (auto split: option.splits)
  next
    case (WantStore now j)
    then show ?thesis using step_i i store
      by (intro upd[where tk = "ReadingLockMap now j"]) (auto simp: release_mutex_def split: if_splits)
  next
    case (ReadingLockMap now j)
    then show ?thesis using step_i i store
      by (intro upd[where tk = "read_lock_map now j s"]) (auto simp: read_lock_map_def release_mutex_def split: option.splits)
  next
    case (InsertingLock now j)
    show ?thesis
    proof (cases "hs_locks s (job_agent j)")
      case (Some m)
      then show ?thesis using InsertingLock step_i i store
        by (intro upd[where tk = "WantAgent now j m"]) (auto simp: entry_or_insert_def release_mutex_def)
    next
      case None
      let ?s1 = "s\<lparr>hs_locks := (hs_locks s)(job_agent j \<mapsto> hs_next s), hs_next := Suc (hs_next s)\<rparr>"
      have s': "s' = set_task i (WantAgent now j (hs_next s)) ?s1"
        using InsertingLock step_i i None by (simp add: entry_or_insert_def)
      have inj: "\<And>a b m. hs_locks s a = Some m \<Longrightarrow> hs_locks s b = Some m \<Longrightarrow> a = b"
        and bound: "\<And>a m. hs_locks s a = Some m \<Longrightarrow> m < hs_next s"
        using inv unfolding lock_inv_def by blast+
      show ?thesis
      proof (rule lock_inv_update[OF inv i, of s' "WantAgent now j (hs_next s)"])
        fix a b m
        show "hs_locks s' a = Some m \<Longrightarrow> hs_locks s' b = Some m \<Longrightarrow> a = b"
          using inj[of a m b] bound[of a m] bound[of b m] by (auto simp: s' split: if_splits)
        show "hs_locks s' a = Some m \<Longrightarrow> m < hs_next s'" using bound[of a m] by (auto simp: s' split: if_splits)
        show "hs_locks s a = Some m \<Longrightarrow> hs_locks s' a = Some m" using None by (auto simp: s')
      qed (use InsertingLock store in \<open>auto simp: s' release_mutex_def\<close>)
    qed
  next
    case (WantAgent now j m)
    then show ?thesis using step_i i store wanted
      by (intro upd[where tk = "Running now j m"]) (auto split: if_splits)
  next
    case (Running now j m)
    obtain tk s1 where r: "run_in H ids now j s = (tk, s1)" by force
    show ?thesis using Running step_i i store held wanted run_in_effect[OF r] r
      by (intro upd[where tk = "Finished m tk"]) (auto simp: fun_upd_idem)
  next
    case (Finished m tk)
    then show ?thesis using step_i i store rest
      by (intro upd[where tk = "ReleasingStore tk"]) (auto simp: release_mutex_def)
  next
    case (ReleasingStore tk)
    then show ?thesis using step_i i store rest
      by (intro upd[where tk = tk]) (auto simp: release_mutex_def lockless_simps)
  next
    case (Detached now j)
    obtain tk s1 where r: "run_in H ids now j s = (tk, s1)" by force
    show ?thesis using Detached step_i i store run_in_effect[OF r] r
      by (intro upd[where tk = Dropped]) (auto simp: release_mutex_def)
  qed (use step_i i in simp_all)
qed

lemma dropped_task_simps [simp]:
  "\<not> holds_store (dropped_task tk)" "held_mutex (dropped_task tk) = None" "wanted_lock (dropped_task tk) = None"
  "resumes_lockless (dropped_task tk)"
  by (cases tk; simp)+

lemma cancel_task_inv:
  assumes inv: "lock_inv H s" and step: "cancel_task H i s = Some s'"
  shows "lock_inv H s'"
proof -
  have i: "i < length (hs_tasks s)" using step by (auto simp: cancel_task_def split: if_splits)
  show ?thesis
    by (rule lock_inv_update_tasks[OF inv i, where tk = "dropped_task (hs_tasks s ! i)"])
      (use step in \<open>auto simp: cancel_task_def Let_def split: if_splits\<close>)
qed

lemma new_call_inv:
  assumes inv: "lock_inv H s"
  shows "lock_inv H (s\<lparr>hs_tasks := hs_tasks s @ [Called c]\<rparr>)"
proof -
  let ?ts = "hs_tasks s"
  have c: "\<not> holds_store (Called c)" "held_mutex (Called c) = None" "wanted_lock (Called c) = None" "resumes_lockless (Called c)"
    by simp_all
  have "hs_store_lock s = Some i \<longleftrightarrow> needs_store_lock H \<and> i < length ?ts \<and> holds_store (?ts ! i)"
    "hs_mutexes s m = Some i \<longleftrightarrow> i < length ?ts \<and> held_mutex (?ts ! i) = Some m" for i m
    using inv by (simp_all add: lock_inv_def)
  then have "hs_store_lock s = Some i \<longleftrightarrow> needs_store_lock H \<and> i < Suc (length ?ts) \<and> holds_store ((?ts @ [Called c]) ! i)"
    "hs_mutexes s m = Some i \<longleftrightarrow> i < Suc (length ?ts) \<and> held_mutex ((?ts @ [Called c]) ! i) = Some m" for i m
    using c by (cases "i < length ?ts"; auto simp: nth_append less_Suc_eq)+
  moreover have "\<forall>i < Suc (length ?ts). \<forall>a m. wanted_lock ((?ts @ [Called c]) ! i) = Some (a, m) \<longrightarrow> hs_locks s a = Some m"
    using inv c by (simp add: lock_inv_def nth_append)
  moreover have "\<forall>i < Suc (length ?ts). resumes_lockless ((?ts @ [Called c]) ! i)"
    using inv c by (simp add: lock_inv_def nth_append)
  ultimately show ?thesis using inv by (simp add: lock_inv_def)
qed

lemma handle_step_inv:
  assumes "lock_inv H s" "handle_step H env s s'"
  shows "lock_inv H s'"
  using assms(2,1)
proof (cases rule: handle_step.cases)
  case (new_call c)
  then show ?thesis using assms(1) new_call_inv by simp
next
  case (task i ids)
  then show ?thesis using assms(1) task_step_inv by blast
qed (simp_all add: lock_inv_def)

lemma handle_run_inv: "handle_run H env cancels (new_handle_state t w) s \<Longrightarrow> lock_inv H s"
proof (induction rule: handle_run.induct)
  case handle_refl
  show ?case by (simp add: lock_inv_def new_handle_state_def)
qed (blast intro: handle_step_inv cancel_task_inv)+

section \<open>Exclusion\<close>


section \<open>Every call ends\<close>

definition stage :: "job \<Rightarrow> nat \<times> nat" where
  "stage j = (case j of RevertRowJob _ rest _ \<Rightarrow> (2, Suc (length rest))
     | RevertOrphanJob _ rest _ \<Rightarrow> (0, Suc (length rest)) | _ \<Rightarrow> (0, 0))"

fun rank :: "'e task \<Rightarrow> nat \<times> nat \<times> nat" where
  "rank (Called _) = (4, 0, 0)"
| "rank (Resolving _ _ _) = (3, 0, 0)"
| "rank (ListingExpired _) = (3, 0, 0)"
| "rank (ListingOrphans _ _) = (1, 0, 0)"
| "rank (WantStore _ j) = (fst (stage j), snd (stage j), 7)"
| "rank (ReadingLockMap _ j) = (fst (stage j), snd (stage j), 6)"
| "rank (InsertingLock _ j) = (fst (stage j), snd (stage j), 5)"
| "rank (WantAgent _ j _) = (fst (stage j), snd (stage j), 4)"
| "rank (Running _ j _) = (fst (stage j), snd (stage j), 3)"
| "rank (Finished _ tk) = (case rank tk of (a, b, c) \<Rightarrow> (a, b, c + 2))"
| "rank (ReleasingStore tk) = (case rank tk of (a, b, c) \<Rightarrow> (a, b, c + 1))"
| "rank (Returned _) = (0, 0, 0)"
| "rank (Detached _ _) = (0, 0, 1)"
| "rank Dropped = (0, 0, 0)"

definition lex3 :: "((nat \<times> nat \<times> nat) \<times> (nat \<times> nat \<times> nat)) set" where
  "lex3 = less_than <*lex*> less_than <*lex*> less_than"

lemma wf_lex3: "wf lex3" "trans lex3"
  unfolding lex3_def by (auto intro: wf_lex_prod)

lemma rank_next [simp]:
  "((fst (rank (next_row now rows n)), fst (snd (rank (next_row now rows n))), x), (2, Suc (length rows), y)) \<in> lex3"
  "((fst (rank (next_orphan now orphans n)), fst (snd (rank (next_orphan now orphans n))), x), (0, Suc (length orphans), y)) \<in> lex3"
  by (simp_all add: next_row_def next_orphan_def lex3_def stage_def split: list.split)

definition bump :: "nat \<Rightarrow> nat \<times> nat \<times> nat \<Rightarrow> nat \<times> nat \<times> nat" where
  "bump n r = (fst r, fst (snd r), snd (snd r) + n)"

lemma rank_nested [simp]: "rank (Finished m tk) = bump 2 (rank tk)" "rank (ReleasingStore tk) = bump 1 (rank tk)"
  by (simp_all add: bump_def split: prod.split)

lemma bump_smaller: "(rank tk, bump 1 (rank tk)) \<in> lex3" "(bump 1 (rank tk), bump 2 (rank tk)) \<in> lex3"
  by (cases "rank tk"; simp add: bump_def lex3_def)+

lemma run_job_rank: "(bump 2 (rank (fst (run_job H ids t j w))), rank (Running now j m)) \<in> lex3"
  by (cases j) (auto simp: bump_def stage_def lex3_def next_row_def next_orphan_def split: prod.split sum.split option.split list.split)

lemma begin_call_rank: "(rank (begin_call H now c), rank (Called c)) \<in> lex3"
  by (cases c) (auto simp: stage_def lex3_def split: option.split)

lemma reads_rank:
  "(rank (resolve_handle Q w now h r), rank (Resolving now h r)) \<in> lex3"
  "(rank (list_expired_rows Q w now), rank (ListingExpired now)) \<in> lex3"
  "(rank (list_orphans Q w now n), rank (ListingOrphans now n)) \<in> lex3"
  by (auto simp: resolve_handle_def list_expired_rows_def list_orphans_def next_row_def next_orphan_def stage_def lex3_def
      split: sum.split option.split list.split)

lemma task_step_rank:
  assumes step: "task_step H i ids s = Some s'"
  obtains tk where "i < length (hs_tasks s)" "hs_tasks s' = (hs_tasks s)[i := tk]" "(rank tk, rank (hs_tasks s ! i)) \<in> lex3"
proof -
  have i: "i < length (hs_tasks s)" using step by (auto simp: task_step_def split: if_splits)
  have small: "(rank Dropped, rank (Detached now j)) \<in> lex3" "(rank Dropped, rank (Resolving now h r)) \<in> lex3"
    "(rank Dropped, rank (ListingExpired now)) \<in> lex3" "(rank Dropped, rank (ListingOrphans now n)) \<in> lex3"
    "(rank (ReadingLockMap now j), rank (WantStore now j)) \<in> lex3" "(rank (read_lock_map now j s), rank (ReadingLockMap now j)) \<in> lex3"
    "(rank (WantAgent now j m), rank (InsertingLock now j)) \<in> lex3" "(rank (Running now j m), rank (WantAgent now j m)) \<in> lex3"
    for now j h r n m by (simp_all add: lex3_def read_lock_map_def split: option.split)
  have same: "hs_tasks (snd (entry_or_insert a s)) = hs_tasks s" "hs_tasks (snd (run_in H ids now j s)) = hs_tasks s" for a now j
    by (simp_all add: entry_or_insert_def run_in_def Let_def split: option.split prod.split)
  have job: "(rank (Finished m (fst (run_in H ids now j s))), rank (Running now j m)) \<in> lex3" for now j m
    using run_job_rank[of H ids "job_time (hs_clock s) now j" j "hs_world s"]
    by (simp add: run_in_def Let_def case_prod_beta del: rank.simps)
  let ?r = "\<lambda>tk. (rank tk, rank (hs_tasks s ! i)) \<in> lex3"
  have "\<exists>tk. hs_tasks s' = (hs_tasks s)[i := tk] \<and> ?r tk"
  proof (cases "hs_tasks s ! i")
    case (Called c)
    then have "hs_tasks s' = (hs_tasks s)[i := begin_call H (hs_clock s) c]" using step i by (auto simp: task_step_def)
    then show ?thesis using Called begin_call_rank by metis
  next
    case (Resolving now h r)
    then have "\<exists>Q. hs_tasks s' = (hs_tasks s)[i := Dropped] \<or> hs_tasks s' = (hs_tasks s)[i := resolve_handle Q (hs_world s) now h r]"
      using step i by (cases "eh_pending_store H") (fastforce simp: task_step_def)+
    then show ?thesis using Resolving small reads_rank by metis
  next
    case (ListingExpired now)
    then have "\<exists>Q. hs_tasks s' = (hs_tasks s)[i := Dropped] \<or> hs_tasks s' = (hs_tasks s)[i := list_expired_rows Q (hs_world s) now]"
      using step i by (cases "eh_pending_store H") (fastforce simp: task_step_def)+
    then show ?thesis using ListingExpired small reads_rank by metis
  next
    case (ListingOrphans now n)
    then have "\<exists>Q. hs_tasks s' = (hs_tasks s)[i := Dropped] \<or> hs_tasks s' = (hs_tasks s)[i := list_orphans Q (hs_world s) now n]"
      using step i by (cases "eh_pending_store H") (fastforce simp: task_step_def)+
    then show ?thesis using ListingOrphans small reads_rank by metis
  next
    case (WantStore now j)
    then have "hs_tasks s' = (hs_tasks s)[i := ReadingLockMap now j]"
      using step i by (auto simp: task_step_def split: if_splits)
    then show ?thesis using WantStore small by metis
  next
    case (ReadingLockMap now j)
    then have "hs_tasks s' = (hs_tasks s)[i := read_lock_map now j s]" using step i by (auto simp: task_step_def)
    then show ?thesis using ReadingLockMap small by metis
  next
    case (InsertingLock now j)
    then have "hs_tasks s' = (hs_tasks s)[i := WantAgent now j (fst (entry_or_insert (job_agent j) s))]"
      using step i same by (auto simp: task_step_def case_prod_beta)
    then show ?thesis using InsertingLock small by metis
  next
    case (WantAgent now j m)
    then have "hs_tasks s' = (hs_tasks s)[i := Running now j m]" using step i by (auto simp: task_step_def split: if_splits)
    then show ?thesis using WantAgent small by metis
  next
    case (Running now j m)
    then have "hs_tasks s' = (hs_tasks s)[i := Finished m (fst (run_in H ids now j s))]"
      using step i same by (auto simp: task_step_def case_prod_beta)
    then show ?thesis using Running job by metis
  next
    case (Finished m tk)
    then have "hs_tasks s' = (hs_tasks s)[i := ReleasingStore tk]" using step i by (auto simp: task_step_def)
    then show ?thesis using Finished bump_smaller(2)[of tk]
      by (intro exI[of _ "ReleasingStore tk"]) (simp only: rank_nested simp_thms)
  next
    case (ReleasingStore tk)
    then have "hs_tasks s' = (hs_tasks s)[i := tk]" using step i by (auto simp: task_step_def)
    then show ?thesis using ReleasingStore bump_smaller(1)[of tk]
      by (intro exI[of _ tk]) (simp only: rank_nested simp_thms)
  next
    case (Detached now j)
    then have "hs_tasks s' = (hs_tasks s)[i := Dropped]" using step i same by (auto simp: task_step_def case_prod_beta)
    then show ?thesis using Detached small by metis
  qed (use step i in \<open>simp_all add: task_step_def\<close>)
  then show thesis using that i by blast
qed

lemma task_step_smaller:
  "task_step H i ids s = Some s' \<Longrightarrow> (mset (map rank (hs_tasks s')), mset (map rank (hs_tasks s))) \<in> mult lex3"
proof (erule task_step_rank)
  fix tk assume tk: "i < length (hs_tasks s)" "hs_tasks s' = (hs_tasks s)[i := tk]" "(rank tk, rank (hs_tasks s ! i)) \<in> lex3"
  let ?M = "mset (map rank (hs_tasks s)) - {#rank (hs_tasks s ! i)#}"
  have "rank (hs_tasks s ! i) \<in># mset (map rank (hs_tasks s))" using tk(1) by simp
  then have "mset (map rank (hs_tasks s)) = add_mset (rank (hs_tasks s ! i)) ?M" by simp
  moreover have "mset (map rank (hs_tasks s')) = ?M + {#rank tk#}"
    using tk(1,2) by (simp add: map_update mset_update)
  ultimately show ?thesis using tk(3) unfolding mult_def by (intro r_into_trancl mult1I) auto
qed

lemma blocked_task:
  assumes "task_step H i ids s = None" "i < length (hs_tasks s)" "\<not> ended (hs_tasks s ! i)"
  shows "(\<exists>now j. hs_tasks s ! i = WantStore now j) \<and> needs_store_lock H \<and> hs_store_lock s \<noteq> None
    \<or> (\<exists>now j m. hs_tasks s ! i = WantAgent now j m \<and> hs_mutexes s m \<noteq> None)"
  using assms by (cases "hs_tasks s ! i") (auto simp: task_step_def case_prod_beta split: if_splits option.splits)

lemma holder_state:
  "held_mutex tk = Some m \<Longrightarrow> \<not> ended tk \<and> tk \<noteq> WantStore now j \<and> tk \<noteq> WantAgent now j k"
  "holds_store tk \<Longrightarrow> \<not> ended tk \<and> tk \<noteq> WantStore now j"
  by (cases tk; simp)+

lemma holder_not_blocked:
  assumes "lock_inv H s" "hs_mutexes s m = Some k"
  shows "k < length (hs_tasks s) \<and> (\<exists>s'. task_step H k ids s = Some s')"
proof -
  have k: "k < length (hs_tasks s)" "held_mutex (hs_tasks s ! k) = Some m"
    using assms unfolding lock_inv_def by blast+
  then have "\<not> ended (hs_tasks s ! k)" "\<And>now j m. hs_tasks s ! k \<noteq> WantStore now j \<and> hs_tasks s ! k \<noteq> WantAgent now j m"
    using holder_state(1) by blast+
  then show ?thesis using k(1) blocked_task[of H k ids s] by (cases "task_step H k ids s") auto
qed

lemma store_holder_progress:
  assumes "lock_inv H s" "hs_store_lock s = Some k"
  shows "\<exists>i s'. task_step H i ids s = Some s'"
proof (cases "task_step H k ids s")
  case None
  have k: "k < length (hs_tasks s)" "holds_store (hs_tasks s ! k)"
    using assms unfolding lock_inv_def by blast+
  then have "\<not> ended (hs_tasks s ! k)" "\<And>now j. hs_tasks s ! k \<noteq> WantStore now j"
    using holder_state(2) by blast+
  then obtain m where "hs_mutexes s m \<noteq> None" using blocked_task[OF None k(1)] by blast
  then show ?thesis using holder_not_blocked[OF assms(1)] by blast
qed blast

text \<open>C17. No interleaving of calls deadlocks and none goes on for ever: as long as a call has not
  returned some task can take a step, and there is no infinite sequence of steps of the tasks (new
  calls, time and the environment apart). So every call returns once no new ones arrive.\<close>

theorem every_call_returns:
  assumes "handle_run H env cancels (new_handle_state t w) s"
  shows "((\<exists>i ids s'. task_step H i ids s = Some s') \<longleftrightarrow> (\<exists>tk \<in> set (hs_tasks s). \<not> ended tk))
    \<and> wf {(s', s). \<exists>i ids. task_step H i ids s = Some s'}"
proof
  have inv: "lock_inv H s" using assms by (rule handle_run_inv)
  show "(\<exists>i ids s'. task_step H i ids s = Some s') \<longleftrightarrow> (\<exists>tk \<in> set (hs_tasks s). \<not> ended tk)"
  proof
    assume "\<exists>i ids s'. task_step H i ids s = Some s'"
    then obtain i ids s' where step: "task_step H i ids s = Some s'" by blast
    then have "i < length (hs_tasks s)" by (auto simp: task_step_def split: if_splits)
    moreover have "\<not> ended (hs_tasks s ! i)"
      using step by (cases "hs_tasks s ! i") (auto simp: task_step_def split: if_splits)
    ultimately show "\<exists>tk \<in> set (hs_tasks s). \<not> ended tk" by (meson nth_mem)
  next
    assume "\<exists>tk \<in> set (hs_tasks s). \<not> ended tk"
    then obtain i where i: "i < length (hs_tasks s)" "\<not> ended (hs_tasks s ! i)" by (auto simp: in_set_conv_nth)
    show "\<exists>i ids s'. task_step H i ids s = Some s'"
    proof (cases "task_step H i (\<lambda>_. 0) s")
      case None
      then consider k where "hs_store_lock s = Some k" | m k where "hs_mutexes s m = Some k"
        using blocked_task[OF None i] by auto
      then show ?thesis using store_holder_progress[OF inv] holder_not_blocked[OF inv] by cases blast+
    qed blast
  qed
  have "wf (inv_image (mult lex3) (\<lambda>s :: ('a, 'c) handle_state. mset (map rank (hs_tasks s))))"
    by (intro wf_inv_image wf_mult wf_lex3)
  then show "wf {(s', s). \<exists>i ids. task_step H i ids s = Some s'}"
    by (rule wf_subset) (auto dest: task_step_smaller)
qed

section \<open>Interleavings and sequential runs\<close>

definition sqlite_handle :: "(sqlite_world, sqlite_txn, sqlite_store_error) engine_handle \<Rightarrow> bool" where
  "sqlite_handle H = (eh_persistence H = sqlite_port \<and> eh_pending_store H \<in> {None, Some sqlite_queue})"

lemma run_job_step:
  assumes "sqlite_handle H"
  shows "engine_step (eh_config H) t w (snd (run_job H ids t j w))"
proof -
  have P: "eh_persistence H = sqlite_port" and Q: "eh_pending_store H \<in> {None, Some sqlite_queue}"
    using assms by (simp_all add: sqlite_handle_def)
  have env: "engine_step (eh_config H) t w w" by (rule step_environment) (simp add: same_store_def)
  show ?thesis
  proof (cases j)
    case (RevertRowJob row rest n)
    have "engine_step (eh_config H) t w (snd (revert_expired_row sqlite_port sqlite_queue (ids 0) row t w))"
      by (rule step_revert_row)
    then show ?thesis using RevertRowJob P Q env by (auto split: prod.split sum.split)
  next
    case (RevertOrphanJob orph rest n)
    have "engine_step (eh_config H) t w (snd (revert_orphan sqlite_port (ids 0) orph t w))"
      by (rule step_revert_orphan)
    then show ?thesis using RevertOrphanJob P by (auto split: prod.split sum.split)
  qed (use P Q env in \<open>auto simp: case_prod_beta intro: step_ingest step_assert step_reconcile step_submit\<close>)
qed

text \<open>Steps of the engine from a time on, in any order of their times.\<close>

inductive steps_since :: "engine_config \<Rightarrow> instant \<Rightarrow> sqlite_world \<Rightarrow> sqlite_world \<Rightarrow> bool" for cfg t w where
  since_refl: "steps_since cfg t w w"
| since_step: "steps_since cfg t w w1 \<Longrightarrow> t \<le> now \<Longrightarrow> engine_step cfg now w1 w2 \<Longrightarrow> steps_since cfg t w w2"

lemma steps_since_wf: "steps_since cfg t w w' \<Longrightarrow> db_wf (sqlite_disk w) \<Longrightarrow> db_wf (sqlite_disk w')"
  by (induction rule: steps_since.induct) (auto dest: engine_step_grows simp: grows_def)

lemma steps_since_extends: "steps_since cfg t w w' \<Longrightarrow> extends t (sqlite_disk w) (sqlite_disk w')"
proof (induction rule: steps_since.induct)
  case since_refl
  show ?case by (simp add: extends_def)
next
  case (since_step w1 now w2)
  have "appended now (sqlite_disk w1) (sqlite_disk w2)" using engine_step_grows[OF since_step(3)] by (simp add: grows_def)
  then show ?case using since_step(2,4) appended_extends extends_trans by blast
qed

lemma steps_since_recall:
  assumes "steps_since cfg t w w'" "db_wf (sqlite_disk w)" "qm_as_of_tx_time req = Some T" "T < t"
  shows "recall_spec cfg' (sqlite_disk w') req now = recall_spec cfg' (sqlite_disk w) req now"
  using assms(1,2)
proof (induction rule: steps_since.induct)
  case (since_step w1 now' w2)
  then have "T < now'" using assms(4) by simp
  then show ?case
    using recall_spec_grows[OF engine_step_grows[OF since_step(3)] steps_since_wf[OF since_step(1,5)] assms(3)] since_step by simp
qed simp

fun not_before :: "instant \<Rightarrow> 'e task \<Rightarrow> bool" where
  "not_before t (Resolving now _ _) = (t \<le> now)"
| "not_before t (ListingExpired now) = (t \<le> now)"
| "not_before t (ListingOrphans now _) = (t \<le> now)"
| "not_before t (WantStore now _) = (t \<le> now)"
| "not_before t (ReadingLockMap now _) = (t \<le> now)"
| "not_before t (InsertingLock now _) = (t \<le> now)"
| "not_before t (WantAgent now _ _) = (t \<le> now)"
| "not_before t (Running now _ _) = (t \<le> now)"
| "not_before t (Detached now _) = (t \<le> now)"
| "not_before t (Finished _ tk) = not_before t tk"
| "not_before t (ReleasingStore tk) = not_before t tk"
| "not_before t _ = True"

lemma not_before_next [simp]:
  "t \<le> now \<Longrightarrow> not_before t (next_row now rows n)" "t \<le> now \<Longrightarrow> not_before t (next_orphan now orphans n)"
  by (simp_all add: next_row_def next_orphan_def split: list.split)

lemma not_before_begin: "t \<le> now \<Longrightarrow> not_before t (begin_call H now c)"
  by (cases c) (simp_all split: option.split)

lemma not_before_reads:
  "t \<le> now \<Longrightarrow> not_before t (resolve_handle Q w now h r)" "t \<le> now \<Longrightarrow> not_before t (list_expired_rows Q w now)"
  "t \<le> now \<Longrightarrow> not_before t (list_orphans Q w now n)"
  by (simp_all add: resolve_handle_def list_expired_rows_def list_orphans_def split: sum.split option.split)

lemma not_before_run_job: "t \<le> now \<Longrightarrow> not_before t (fst (run_job H ids now j w))"
  by (cases j) (simp_all split: prod.split sum.split option.split)

lemma set_update_cases: "x \<in> set (xs[i := y]) \<Longrightarrow> x = y \<or> x \<in> set xs"
  using set_update_subset_insert[of xs i y] by blast

text \<open>What a step of a task does to the world: nothing, or it runs a job at a time from \<^verbatim>\<open>t\<close> on.\<close>

lemma task_step_world:
  assumes step: "task_step H i ids s = Some s'" and t: "t \<le> hs_clock s" "\<forall>tk \<in> set (hs_tasks s). not_before t tk"
  shows "hs_clock s' = hs_clock s \<and> (\<forall>tk \<in> set (hs_tasks s'). not_before t tk)
    \<and> (hs_world s' = hs_world s \<and> hs_log s' = hs_log s
       \<or> (\<exists>now j. t \<le> now \<and> hs_world s' = snd (run_job H ids now j (hs_world s)) \<and> hs_log s' = hs_log s @ [(now, ids, j)]))"
proof -
  have i: "i < length (hs_tasks s)" using step by (auto simp: task_step_def split: if_splits)
  have ti: "not_before t (hs_tasks s ! i)" using t(2) i by simp
  have upd: "\<forall>tk \<in> set ((hs_tasks s)[i := x]). not_before t tk" if "not_before t x" for x
    using t(2) that set_update_subset_insert[of "hs_tasks s" i x] by blast
  have jt: "t \<le> now \<Longrightarrow> t \<le> job_time (hs_clock s) now j" for now j using t(1) by (cases j) simp_all
  note d = step[unfolded task_step_def]
  show ?thesis
  proof (cases "hs_tasks s ! i")
    case (Running now j m)
    have j: "t \<le> job_time (hs_clock s) now j" using jt ti Running by simp
    have "not_before t (Finished m (fst (run_job H ids (job_time (hs_clock s) now j) j (hs_world s))))"
      using not_before_run_job[OF j] by simp
    from upd[OF this] show ?thesis using Running d i j by (auto simp: run_in_def Let_def case_prod_beta)
  next
    case (Detached now j)
    have j: "t \<le> job_time (hs_clock s) now j" using jt ti Detached by simp
    show ?thesis using Detached d i upd[of Dropped] j by (auto simp: run_in_def Let_def case_prod_beta)
  qed (use d i ti t in \<open>auto simp: entry_or_insert_def read_lock_map_def not_before_begin not_before_reads
      split: if_splits option.splits dest!: set_update_cases\<close>)
qed

definition run_facts :: "engine_config \<Rightarrow> instant \<Rightarrow> sqlite_world \<Rightarrow> (sqlite_world, 'e) handle_state \<Rightarrow> bool" where
  "run_facts cfg t w s =
     (t \<le> hs_clock s \<and> (\<forall>tk \<in> set (hs_tasks s). not_before t tk) \<and> steps_since cfg t w (hs_world s)
      \<and> (sorted (t # map fst (hs_log s)) \<longrightarrow> engine_run cfg t w (last (t # map fst (hs_log s))) (hs_world s))
      \<and> (\<forall>x \<in> set (hs_log s). t \<le> fst x))"

lemma sorted_last_le: "sorted xs \<Longrightarrow> xs \<noteq> [] \<Longrightarrow> sorted (xs @ [y]) \<longleftrightarrow> last xs \<le> y"
  by (induction xs rule: rev_induct) (auto simp: sorted_append)

lemma run_facts_step:
  assumes "run_facts cfg t w s" "engine_step cfg now (hs_world s) w'" "t \<le> now"
    and "hs_world s' = w'" "hs_log s' = hs_log s @ [(now, ids, j)]" "hs_clock s' = hs_clock s"
    and "\<forall>tk \<in> set (hs_tasks s'). not_before t tk"
  shows "run_facts cfg t w s'"
proof -
  let ?ts = "t # map fst (hs_log s)"
  have "engine_run cfg t w now w'" if "sorted (?ts @ [now])"
  proof -
    have "sorted ?ts" "last ?ts \<le> now" using that sorted_last_le[of ?ts now] by (auto simp: sorted_append)
    moreover from this have "engine_run cfg t w (last ?ts) (hs_world s)" using assms(1) by (simp add: run_facts_def)
    ultimately show ?thesis using assms(2) run_step by metis
  qed
  moreover have "steps_since cfg t w w'" using assms(1-3) since_step unfolding run_facts_def by blast
  ultimately show ?thesis using assms by (auto simp: run_facts_def)
qed

lemma run_facts_environment:
  assumes "run_facts cfg t w s" "same_store (hs_world s) w'"
  shows "run_facts cfg t w (s\<lparr>hs_world := w'\<rparr>)"
proof -
  have step: "engine_step cfg now (hs_world s) w'" for now
    using assms(2) by (intro step_environment)
  have "steps_since cfg t w w'" using assms(1) step since_step unfolding run_facts_def by blast
  moreover have "engine_run cfg t w (last (t # map fst (hs_log s))) w'" if "sorted (t # map fst (hs_log s))"
    using assms(1) that step run_step[OF _ order_refl] unfolding run_facts_def by metis
  ultimately show ?thesis using assms(1) by (simp add: run_facts_def)
qed

lemma handle_run_facts:
  assumes "handle_run H same_store False (new_handle_state t w) s" "sqlite_handle H"
  shows "run_facts (eh_config H) t w s"
  using assms(1)
proof (induction rule: handle_run.induct)
  case handle_refl
  show ?case by (simp add: run_facts_def new_handle_state_def since_refl run_refl)
next
  case (handle_next s1 s2)
  note IH = handle_next.IH
  have t: "t \<le> hs_clock s1" "\<forall>tk \<in> set (hs_tasks s1). not_before t tk" using IH by (simp_all add: run_facts_def)
  from handle_next.hyps(2) show ?case
  proof (cases rule: handle_step.cases)
    case (new_call c)
    then show ?thesis using IH by (simp add: run_facts_def)
  next
    case (task i ids)
    from task_step_world[OF task t] consider
        "hs_clock s2 = hs_clock s1" "\<forall>tk \<in> set (hs_tasks s2). not_before t tk" "hs_world s2 = hs_world s1" "hs_log s2 = hs_log s1"
      | now j where "hs_clock s2 = hs_clock s1" "\<forall>tk \<in> set (hs_tasks s2). not_before t tk" "t \<le> now"
          "hs_world s2 = snd (run_job H ids now j (hs_world s1))" "hs_log s2 = hs_log s1 @ [(now, ids, j)]" by blast
    then show ?thesis
    proof cases
      case 1
      then show ?thesis using IH by (simp add: run_facts_def)
    next
      case 2
      show ?thesis by (rule run_facts_step[OF IH run_job_step[OF assms(2)] 2(3,4,5,1,2)])
    qed
  next
    case (tick t')
    then show ?thesis using IH by (simp add: run_facts_def)
  next
    case (environment w')
    then show ?thesis using IH run_facts_environment by blast
  qed
qed simp

text \<open>C15. Whatever the interleaving of the calls of an engine over SQLite, from a store at time \<^verbatim>\<open>t\<close> on:
  the store stays well-formed, it only grows, by rows stamped no earlier than \<^verbatim>\<open>t\<close>, and a recall with a
  cutoff before \<^verbatim>\<open>t\<close> keeps its value. If the jobs ran in the order of their times, the result is that
  of a sequential run of the engine, and every property of such runs applies.\<close>

theorem interleavings_keep_the_past:
  assumes "handle_run H same_store False (new_handle_state t w) s" "sqlite_handle H" "db_wf (sqlite_disk w)"
  shows "db_wf (sqlite_disk (hs_world s)) \<and> extends t (sqlite_disk w) (sqlite_disk (hs_world s))
    \<and> (qm_as_of_tx_time req = Some T \<and> T < t \<longrightarrow>
         recall_spec cfg (sqlite_disk (hs_world s)) req now = recall_spec cfg (sqlite_disk w) req now)
    \<and> (sorted (t # map fst (hs_log s)) \<longrightarrow>
         engine_run (eh_config H) t w (last (t # map fst (hs_log s))) (hs_world s))"
proof -
  have f: "run_facts (eh_config H) t w s" using assms(1,2) by (rule handle_run_facts)
  then have since: "steps_since (eh_config H) t w (hs_world s)" by (simp add: run_facts_def)
  show ?thesis
    using f steps_since_wf[OF since assms(3)] steps_since_extends[OF since] steps_since_recall[OF since assms(3)]
    by (auto simp: run_facts_def simp del: sorted_simps)
qed

section \<open>Sample runs\<close>

text \<open>Steps of the tasks given by a list of their numbers; a task that can not go on is skipped.\<close>

fun exec_tasks :: "('w, 't, 'e) engine_handle \<Rightarrow> nat list \<Rightarrow> ('w, 'e) handle_state \<Rightarrow> ('w, 'e) handle_state" where
  "exec_tasks H [] s = s"
| "exec_tasks H (i # is) s =
     exec_tasks H is (case task_step H i (sample_ids (100 + 10 * i)) s of None \<Rightarrow> s | Some s' \<Rightarrow> s')"

lemma exec_tasks_run: "handle_run H env cancels s0 s \<Longrightarrow> handle_run H env cancels s0 (exec_tasks H is s)"
proof (induction "is" arbitrary: s)
  case (Cons i "is")
  have "handle_run H env cancels s0 (case task_step H i (sample_ids (100 + 10 * i)) s of None \<Rightarrow> s | Some s' \<Rightarrow> s')"
    using Cons.prems by (auto split: option.split intro: handle_next handle_step.task)
  then show ?case using Cons.IH by simp
qed simp

definition sample_handle :: "(sqlite_world, sqlite_txn, sqlite_store_error) engine_handle" where
  "sample_handle = \<lparr>eh_persistence = sqlite_port, eh_oracle = None, eh_pending_store = Some sqlite_queue,
     eh_config = sample_config\<rparr>"

definition add_call :: "write_call \<Rightarrow> ('w, 'e) handle_state \<Rightarrow> ('w, 'e) handle_state" where
  "add_call c s = s\<lparr>hs_tasks := hs_tasks s @ [Called c]\<rparr>"

text \<open>Two ingests of one line: the first reads the clock at 10 and waits, the second reads it at 20 and
  commits; then the first goes on.\<close>

definition overtaken_state :: "(sqlite_world, sqlite_store_error) handle_state" where
  "overtaken_state = exec_tasks sample_handle [1, 1, 1, 1, 1, 1, 1, 1]
     (add_call (IngestClaim (sample_request ''y'' None))
       ((exec_tasks sample_handle [0] (add_call (IngestClaim (sample_request ''x'' None)) (new_handle_state 10 fresh_world)))
         \<lparr>hs_clock := 20\<rparr>))"

definition late_state :: "(sqlite_world, sqlite_store_error) handle_state" where
  "late_state = exec_tasks sample_handle [0, 0, 0, 0, 0, 0, 0] overtaken_state"

lemma add_call_run: "handle_run H env cancels s0 s \<Longrightarrow> handle_run H env cancels s0 (add_call c s)"
  unfolding add_call_def by (rule handle_next[OF _ new_call])

lemma sample_states_run:
  "handle_run sample_handle same_store cancels (new_handle_state 10 fresh_world) overtaken_state"
  "handle_run sample_handle same_store cancels (new_handle_state 10 fresh_world) late_state"
proof -
  let ?s = "exec_tasks sample_handle [0] (add_call (IngestClaim (sample_request ''x'' None)) (new_handle_state 10 fresh_world))"
  have clock: "hs_clock ?s \<le> 20" by code_simp
  have "handle_run sample_handle same_store cancels (new_handle_state 10 fresh_world) ?s"
    by (intro exec_tasks_run add_call_run handle_refl)
  then show "handle_run sample_handle same_store cancels (new_handle_state 10 fresh_world) overtaken_state"
    unfolding overtaken_state_def using handle_next[OF _ tick[OF clock]] by (intro exec_tasks_run add_call_run)
  then show "handle_run sample_handle same_store cancels (new_handle_state 10 fresh_world) late_state"
    unfolding late_state_def by (rule exec_tasks_run)
qed

text \<open>The clock is read before the locks are taken, so the times of the jobs need not be in order: a
  recall at a past time can still change.\<close>

theorem recent_past_can_change:
  "\<exists>s s'. handle_run sample_handle same_store False (new_handle_state 10 fresh_world) s
     \<and> handle_run sample_handle same_store False s s'
     \<and> map fst (hs_log s') = [20, 10]
     \<and> query_memory_execute sqlite_port sample_config \<lparr>qm_agent_id = ''a'', qm_subject = ''s'', qm_predicate = ''p'',
          qm_as_of_tx_time = Some 20, qm_valid_at = None\<rparr> 30 (hs_world s)
       \<noteq> query_memory_execute sqlite_port sample_config \<lparr>qm_agent_id = ''a'', qm_subject = ''s'', qm_predicate = ''p'',
          qm_as_of_tx_time = Some 20, qm_valid_at = None\<rparr> 30 (hs_world s')"
proof (intro exI conjI)
  show "handle_run sample_handle same_store False (new_handle_state 10 fresh_world) overtaken_state"
    by (rule sample_states_run)
  show "handle_run sample_handle same_store False overtaken_state late_state"
    unfolding late_state_def by (intro exec_tasks_run handle_refl)
  show "map fst (hs_log late_state) = [20, 10]" by code_simp
  show "query_memory_execute sqlite_port sample_config \<lparr>qm_agent_id = ''a'', qm_subject = ''s'', qm_predicate = ''p'',
          qm_as_of_tx_time = Some 20, qm_valid_at = None\<rparr> 30 (hs_world overtaken_state)
       \<noteq> query_memory_execute sqlite_port sample_config \<lparr>qm_agent_id = ''a'', qm_subject = ''s'', qm_predicate = ''p'',
          qm_as_of_tx_time = Some 20, qm_valid_at = None\<rparr> 30 (hs_world late_state)" by code_simp
qed

text \<open>Dropping the future of a call while its use case runs frees the locks, and a second use case of
  the same agent runs beside it.\<close>

definition running_state :: "(sqlite_world, sqlite_store_error) handle_state" where
  "running_state = exec_tasks sample_handle [0, 0, 0, 0, 0]
     (add_call (IngestClaim (sample_request ''x'' None)) (new_handle_state 10 fresh_world))"

definition dropped_state :: "(sqlite_world, sqlite_store_error) handle_state" where
  "dropped_state = exec_tasks sample_handle [1, 1, 1, 1]
     (add_call (IngestClaim (sample_request ''y'' None)) (the (cancel_task sample_handle 0 running_state)))"

theorem dropped_call_keeps_running:
  "\<exists>s n1 j1 n2 j2 m. handle_run sample_handle same_store True (new_handle_state 10 fresh_world) s
     \<and> hs_tasks s = [Detached n1 j1, Running n2 j2 m] \<and> needs_store_lock sample_handle \<and> job_agent j1 = job_agent j2"
proof -
  obtain s1 where s1: "cancel_task sample_handle 0 running_state = Some s1"
  proof (cases "cancel_task sample_handle 0 running_state")
    case None
    moreover have "cancel_task sample_handle 0 running_state \<noteq> None" by code_simp
    ultimately show ?thesis by simp
  qed simp
  have "handle_run sample_handle same_store True (new_handle_state 10 fresh_world) running_state"
    unfolding running_state_def by (intro exec_tasks_run add_call_run handle_refl)
  from handle_drop[OF this TrueI s1] have run: "handle_run sample_handle same_store True (new_handle_state 10 fresh_world) dropped_state"
    unfolding dropped_state_def s1 option.sel by (intro exec_tasks_run add_call_run)
  have tasks: "hs_tasks dropped_state = [Detached 10 (IngestJob (sample_request ''x'' None)),
      Running 10 (IngestJob (sample_request ''y'' None)) 0]" "needs_store_lock sample_handle" by code_simp+
  have "job_agent (IngestJob (sample_request ''x'' None)) = job_agent (IngestJob (sample_request ''y'' None))"
    by (simp add: sample_request_def)
  then show ?thesis using run tasks by blast
qed

section \<open>Witnesses\<close>

text \<open>A handle over an adapter that does not ask for global serialization, one call of agent \<^verbatim>\<open>a\<close> running
  and another waiting for the mutex of \<^verbatim>\<open>a\<close>.\<close>

definition pool_handle :: "(sqlite_world, sqlite_txn, sqlite_store_error) engine_handle" where
  "pool_handle = sample_handle\<lparr>eh_persistence := sqlite_port\<lparr>pp_requires_global_write_serialization := False\<rparr>\<rparr>"

definition waiting_state :: "(sqlite_world, sqlite_store_error) handle_state" where
  "waiting_state = exec_tasks pool_handle [0, 0, 0, 0, 0, 1, 1, 1]
     (add_call (IngestClaim (sample_request ''y'' None))
       (add_call (IngestClaim (sample_request ''x'' None)) (new_handle_state 10 fresh_world)))"


theorem every_call_returns_witness:
  "(\<exists>i ids s'. task_step pool_handle i ids waiting_state = Some s')
   \<and> wf {(s', s :: (sqlite_world, sqlite_store_error) handle_state). \<exists>i ids. task_step pool_handle i ids s = Some s'}"
proof -
  have run: "handle_run pool_handle same_store False (new_handle_state 10 fresh_world) waiting_state"
    unfolding waiting_state_def by (intro exec_tasks_run add_call_run handle_refl)
  have "\<not> list_all ended (hs_tasks waiting_state)" by code_simp
  then show ?thesis using every_call_returns[OF run] by (auto simp: list_all_iff)
qed

theorem interleavings_keep_the_past_witness:
  "db_wf (sqlite_disk (hs_world late_state)) \<and> extends 10 (sqlite_disk fresh_world) (sqlite_disk (hs_world late_state))"
  using interleavings_keep_the_past[OF sample_states_run(2)] by (simp add: sqlite_handle_def sample_handle_def)

end
