(* ===== verification/Postgres_Codecs.thy ===== *)
theory Postgres_Codecs
  imports Sqlite_Codecs
begin

text \<open>The column codecs and row mappings of \<^verbatim>\<open>mempill-postgres/src/store.rs\<close>, and the crate's errors
  and pool settings (\<^verbatim>\<open>connection.rs\<close>). The rows have the columns of the SQLite adapter, so its row
  records are used; the differences are the error texts, the signed 32-bit columns, the sequence
  number of a ledger row, and the times of a pending row, which are TIMESTAMPTZ: microseconds.

  A JSONB column holds the JSON value it is given. (PostgreSQL normalizes numbers: a float that is
  integral from 1e16 on reads back as an integer. Such values are outside the model.)\<close>

section \<open>Errors and pool settings\<close>

datatype pg_failure = PgConstraint | PgOutOfRange | PgBadText | PgOther

datatype postgres_store_error =
    Postgres pg_failure
  | Pool
  | PgMigration
  | PgMapping message
  | PgConfig message

record pool_config =
  pc_max_size :: nat
  pc_connection_timeout_secs :: nat

definition default_pool_config :: pool_config where
  "default_pool_config = \<lparr>pc_max_size = 20, pc_connection_timeout_secs = 5\<rparr>"

text \<open>\<^verbatim>\<open>with_pool_config\<close>: the settings are validated before the network is touched. Connecting,
  migrating and building the pool are the driver's.\<close>

definition with_pool_config ::
    "('c \<Rightarrow> (postgres_store_error, 'd) res) \<Rightarrow> ('d \<Rightarrow> (postgres_store_error, unit) res)
       \<Rightarrow> ('c \<Rightarrow> pool_config \<Rightarrow> (postgres_store_error, 'p) res) \<Rightarrow> 'c \<Rightarrow> pool_config \<Rightarrow> (postgres_store_error, 'p) res" where
  "with_pool_config connect migrate build conn_string pc =
     (if pc_max_size pc = 0
      then Inl (PgConfig [Lit (''pool max_size must be >= 1, got '' @ nat_to_string (pc_max_size pc))])
      else and_then (connect conn_string) (\<lambda>client.
           and_then (migrate client) (\<lambda>_. build conn_string pc)))"

section \<open>Enumeration columns\<close>

text \<open>The texts are those of the SQLite adapter; an unknown one is an error with its own message.\<close>

definition pg_decode :: "string \<Rightarrow> (string \<Rightarrow> (sqlite_store_error, 'a) res) \<Rightarrow> string \<Rightarrow> (postgres_store_error, 'a) res" where
  "pg_decode what decode s =
     (case decode s of Inr x \<Rightarrow> Inr x | Inl _ \<Rightarrow> Inl (PgMapping [Lit (''unknown '' @ what @ '': '' @ s)]))"

definition pg_str_to_provenance :: "string \<Rightarrow> (postgres_store_error, provenance_label) res" where
  "pg_str_to_provenance = pg_decode ''provenance_label'' str_to_provenance"

definition pg_str_to_cardinality :: "string \<Rightarrow> (postgres_store_error, cardinality) res" where
  "pg_str_to_cardinality = pg_decode ''cardinality'' str_to_cardinality"

definition pg_str_to_criticality :: "string \<Rightarrow> (postgres_store_error, criticality) res" where
  "pg_str_to_criticality = pg_decode ''criticality'' str_to_criticality"

definition pg_str_to_edge_kind :: "string \<Rightarrow> (postgres_store_error, edge_kind) res" where
  "pg_str_to_edge_kind = pg_decode ''edge_kind'' str_to_edge_kind"

definition pg_str_to_ledger_event_kind :: "string \<Rightarrow> (postgres_store_error, ledger_event_kind) res" where
  "pg_str_to_ledger_event_kind = pg_decode ''ledger event_kind'' str_to_ledger_event_kind"

definition pg_str_to_disposition :: "string \<Rightarrow> (postgres_store_error, disposition) res" where
  "pg_str_to_disposition = pg_decode ''disposition'' str_to_disposition"

lemma pg_decode_Inr [simp]: "pg_decode what decode s = Inr x \<longleftrightarrow> decode s = Inr x"
  by (simp add: pg_decode_def split: sum.split)

lemmas pg_decoders = pg_str_to_provenance_def pg_str_to_cardinality_def pg_str_to_criticality_def
  pg_str_to_edge_kind_def pg_str_to_ledger_event_kind_def pg_str_to_disposition_def

text \<open>A value is written with the crate's own tables. They agree with those of the SQLite adapter, whose row
  encoders therefore serve both.\<close>

fun pg_provenance_to_str :: "provenance_label \<Rightarrow> string" where
  "pg_provenance_to_str ModelDerived = ''ModelDerived''"
| "pg_provenance_to_str RecallReEntry = ''RecallReEntry''"
| "pg_provenance_to_str (External UserAsserted) = ''External_UserAsserted''"
| "pg_provenance_to_str (External ExternalFirstHand) = ''External_ExternalFirstHand''"

fun pg_cardinality_to_str :: "cardinality \<Rightarrow> string" where
  "pg_cardinality_to_str Functional = ''Functional''"
| "pg_cardinality_to_str SetValued = ''SetValued''"
| "pg_cardinality_to_str CardUnknown = ''Unknown''"

fun pg_criticality_to_str :: "criticality \<Rightarrow> string" where
  "pg_criticality_to_str Low = ''Low''"
| "pg_criticality_to_str Medium = ''Medium''"
| "pg_criticality_to_str High = ''High''"
| "pg_criticality_to_str Critical = ''Critical''"

fun pg_edge_kind_to_str :: "edge_kind \<Rightarrow> string" where
  "pg_edge_kind_to_str DerivedFrom = ''DerivedFrom''"
| "pg_edge_kind_to_str Supersedes = ''Supersedes''"
| "pg_edge_kind_to_str DependsOn = ''DependsOn''"
| "pg_edge_kind_to_str MutualExclusion = ''MutualExclusion''"

fun pg_ledger_event_kind_to_str :: "ledger_event_kind \<Rightarrow> string" where
  "pg_ledger_event_kind_to_str ClaimCommitted = ''ClaimCommitted''"
| "pg_ledger_event_kind_to_str ValidityAsserted = ''ValidityAsserted''"
| "pg_ledger_event_kind_to_str AdjudicationRequested = ''AdjudicationRequested''"
| "pg_ledger_event_kind_to_str AdjudicationResolved = ''AdjudicationResolved''"
| "pg_ledger_event_kind_to_str RecallReEntryDetected = ''RecallReEntryDetected''"
| "pg_ledger_event_kind_to_str EvQuarantined = ''Quarantined''"
| "pg_ledger_event_kind_to_str DependentFlaggedPendingReview = ''DependentFlaggedPendingReview''"
| "pg_ledger_event_kind_to_str ServedAsInjected = ''ServedAsInjected''"
| "pg_ledger_event_kind_to_str AdjudicationExpired = ''AdjudicationExpired''"

fun pg_disposition_to_str :: "disposition \<Rightarrow> string" where
  "pg_disposition_to_str CommittedCheap = ''CommittedCheap''"
| "pg_disposition_to_str CommittedInferred = ''CommittedInferred''"
| "pg_disposition_to_str QueuedForAdjudication = ''QueuedForAdjudication''"
| "pg_disposition_to_str Contested = ''Contested''"
| "pg_disposition_to_str PendingConflict = ''PendingConflict''"
| "pg_disposition_to_str PendingReview = ''PendingReview''"
| "pg_disposition_to_str PendingLowConfidence = ''PendingLowConfidence''"
| "pg_disposition_to_str Quarantined = ''Quarantined''"
| "pg_disposition_to_str Superseded = ''Superseded''"
| "pg_disposition_to_str Invalidated = ''Invalidated''"
| "pg_disposition_to_str Reinstated = ''Reinstated''"
| "pg_disposition_to_str Rejected = ''Rejected''"

lemma pg_encoders:
  "pg_provenance_to_str = provenance_to_str"
  "pg_cardinality_to_str = cardinality_to_str"
  "pg_criticality_to_str = criticality_to_str"
  "pg_edge_kind_to_str = edge_kind_to_str"
  "pg_ledger_event_kind_to_str = ledger_event_kind_to_str"
  "pg_disposition_to_str = disposition_to_str"
proof -
  have "pg_provenance_to_str p = provenance_to_str p" for p by (cases p rule: provenance_to_str.cases) simp_all
  moreover have "pg_cardinality_to_str c = cardinality_to_str c" for c by (cases c) simp_all
  moreover have "pg_criticality_to_str c = criticality_to_str c" for c by (cases c) simp_all
  moreover have "pg_edge_kind_to_str k = edge_kind_to_str k" for k by (cases k) simp_all
  moreover have "pg_ledger_event_kind_to_str k = ledger_event_kind_to_str k" for k by (cases k) simp_all
  moreover have "pg_disposition_to_str d = disposition_to_str d" for d by (cases d) simp_all
  ultimately show
    "pg_provenance_to_str = provenance_to_str"
    "pg_cardinality_to_str = cardinality_to_str"
    "pg_criticality_to_str = criticality_to_str"
    "pg_edge_kind_to_str = edge_kind_to_str"
    "pg_ledger_event_kind_to_str = ledger_event_kind_to_str"
    "pg_disposition_to_str = disposition_to_str"
    by (simp_all add: fun_eq_iff)
qed

section \<open>Rows\<close>

text \<open>\<^verbatim>\<open>INTEGER\<close> columns are signed: a \<^verbatim>\<open>u32\<close> is cast to \<^verbatim>\<open>i32\<close> and back.\<close>

definition pg_claim_to_row :: "claim \<Rightarrow> claim_row" where
  "pg_claim_to_row c = (claim_to_row c)\<lparr>
     rc_derivation_depth := sint (ea_derivation_depth (cl_external_anchor c)),
     rc_snapshot_schema_version := map_option sint (cl_snapshot_schema_version c)\<rparr>"

definition pg_row_to_claim :: "claim_row \<Rightarrow> (postgres_store_error, claim) res" where
  "pg_row_to_claim r =
     and_then (pg_str_to_cardinality (rc_cardinality r)) (\<lambda>cardinality.
     and_then (pg_str_to_provenance (rc_provenance_label r)) (\<lambda>provenance.
     and_then (pg_str_to_criticality (rc_criticality r)) (\<lambda>criticality.
       Inr (claim_of_row cardinality provenance criticality r))))"

definition pg_row_to_assertion :: "assertion_row \<Rightarrow> (postgres_store_error, validity_assertion) res" where
  "pg_row_to_assertion r =
     and_then (pg_str_to_provenance (rv_provenance_label r)) (\<lambda>provenance.
     and_then
       (if rv_assertion_kind r = ''Bound''
        then and_then (ok_or (PgMapping [Lit ''bound_at is NULL for Bound assertion'']) (rv_bound_at r)) (\<lambda>b.
               Inr (Bound b (Option.bind (rv_bound_at_granularity r) str_to_date_granularity)))
        else if rv_assertion_kind r = ''Reopen''
        then and_then (ok_or (PgMapping [Lit ''reopen_at is NULL for Reopen assertion'']) (rv_reopen_at r)) (\<lambda>t.
               Inr (Reopen t))
        else Inl (PgMapping [Lit (''unknown assertion_kind: '' @ rv_assertion_kind r)]))
       (\<lambda>kind. Inr (assertion_of_row provenance kind r)))"

record pg_ledger_row =
  pl_row :: ledger_row
  pl_stream_seq :: int

definition pg_row_to_ledger :: "pg_ledger_row \<Rightarrow> (postgres_store_error, ledger_entry) res" where
  "pg_row_to_ledger r =
     and_then (pg_str_to_ledger_event_kind (rl_event_kind (pl_row r))) (\<lambda>k.
     and_then (pg_str_to_disposition (rl_disposition (pl_row r))) (\<lambda>d. Inr (ledger_of_row k d (pl_row r))))"

definition pg_row_to_edge :: "edge_row \<Rightarrow> (postgres_store_error, claim_edge) res" where
  "pg_row_to_edge r = and_then (pg_str_to_edge_kind (re_edge_kind r)) (\<lambda>k. Inr (edge_of_row k r))"

text \<open>The times of a pending row in the table are microseconds. The driver rounds an instant towards
  2000-01-01, which for the instants of a clock after that is down.\<close>

definition to_micros :: "instant \<Rightarrow> int" where
  "to_micros t = t div 1000"

definition pending_to_pg :: "pending_row \<Rightarrow> pending_row" where
  "pending_to_pg r = r\<lparr>pa_queued_at := to_micros (pa_queued_at r), pa_expires_at := map_option to_micros (pa_expires_at r)\<rparr>"

definition pending_of_pg :: "pending_row \<Rightarrow> pending_row" where
  "pending_of_pg r = r\<lparr>pa_queued_at := 1000 * pa_queued_at r, pa_expires_at := map_option ((*) 1000) (pa_expires_at r)\<rparr>"

definition pg_row_to_pending :: "pending_row \<Rightarrow> (postgres_store_error, pending_row) res" where
  "pg_row_to_pending r =
     (if payload_readable (pa_request r) then Inr (pending_of_pg r)
      else Inl (PgMapping [Lit ''request_payload JSON: invalid type: null, expected f32'']))"

section \<open>Round trips\<close>

lemma pg_row_to_claim_to_row: "pg_row_to_claim (pg_claim_to_row c) = Inr (stored_claim c)"
proof -
  have m: "map_option (word_of_int \<circ> sint) (x :: 32 word option) = x"
    "map_option (word_of_int \<circ> uint) x = x" for x by (cases x; simp)+
  have "claim_of_row k p cr (pg_claim_to_row c) = claim_of_row k p cr (claim_to_row c)" for k p cr
    by (simp add: claim_of_row_def pg_claim_to_row_def claim_to_row_def option.map_comp m)
  moreover have "row_to_claim (claim_to_row c) = Inr (stored_claim c)" by (rule row_to_claim_to_row)
  ultimately show ?thesis
    by (simp add: pg_row_to_claim_def row_to_claim_def pg_decoders pg_claim_to_row_def claim_to_row_def pg_decode_def)
qed

lemma pg_row_to_assertion_to_row: "pg_row_to_assertion (assertion_to_row a) = Inr a"
  using row_to_assertion_to_row[of a]
  by (cases "va_kind a") (simp_all add: pg_row_to_assertion_def row_to_assertion_def row_to_assertion_kind_def
      assertion_to_row_def pg_decoders pg_decode_def)

lemma pg_row_to_ledger_to_row: "pg_row_to_ledger \<lparr>pl_row = ledger_to_row e, pl_stream_seq = n\<rparr> = Inr e"
  using row_to_ledger_to_row[of e] by (simp add: pg_row_to_ledger_def row_to_ledger_def ledger_to_row_def pg_decoders pg_decode_def)

lemma pg_row_to_edge_to_row: "pg_row_to_edge (edge_to_row e) = Inr e"
  using row_to_edge_to_row[of e] by (simp add: pg_row_to_edge_def row_to_edge_def edge_to_row_def pg_decoders pg_decode_def)

lemma micros_bounds: "1000 * to_micros t \<le> t" "t < 1000 * to_micros t + 1000"
  by (simp_all add: to_micros_def)

lemma micros_le: "1000 * s \<le> t \<longleftrightarrow> s \<le> to_micros t"
  by (simp add: to_micros_def) linarith

end
