(* ===== verification/Postgres_Store.thy ===== *)
theory Postgres_Store
  imports Postgres_Codecs Engine_Steps
begin

text \<open>The PostgreSQL adapter: \<^verbatim>\<open>PostgresTxn\<close> (\<^verbatim>\<open>txn.rs\<close>), the \<^verbatim>\<open>PersistencePort\<close> and the
  \<^verbatim>\<open>PendingAdjudicationPort\<close> of \<^verbatim>\<open>store.rs\<close> over the tables of \<^verbatim>\<open>migrations/\<close>, and the
  interpretation of the interfaces on it.

  This theory is the adapter as one caller at a time sees it: a transaction works on the database it
  began with, and a commit publishes it. Transactions of several agents at once are the subject of
  \<^verbatim>\<open>Postgres_Server\<close>. A statement takes the head of the schedule of failures; \<^verbatim>\<open>pw_read_error\<close> says which
  reads fail. A text or a JSON value with a NUL character is refused by the server. After a failed
  statement PostgreSQL refuses the rest of the transaction; every use case stops at its first error and
  rolls back, so that state is not kept. A \<^verbatim>\<open>COMMIT\<close> that reports an error did not commit.

  As for SQLite, ties of an \<^verbatim>\<open>ORDER BY\<close> come in insertion order, and RFC 3339 texts are compared as the
  instants they render.\<close>

section \<open>Tables and constraints\<close>

record pg_db =
  p_claims :: "claim_row list"
  p_assertions :: "assertion_row list"
  p_ledger :: "pg_ledger_row list"
  p_edges :: "edge_row list"
  p_pending :: "pending_row list"

definition empty_pg_db :: pg_db where
  "empty_pg_db = \<lparr>p_claims = [], p_assertions = [], p_ledger = [], p_edges = [], p_pending = []\<rparr>"

text \<open>The columns both adapters have, with the times of the queue as instants.\<close>

definition pg_view :: "pg_db \<Rightarrow> sql_db" where
  "pg_view q = \<lparr>q_claims = p_claims q, q_assertions = p_assertions q, q_ledger = map pl_row (p_ledger q),
     q_edges = p_edges q, q_pending = map pending_of_pg (p_pending q)\<rparr>"

definition text_has_nul :: "string \<Rightarrow> bool" where
  "text_has_nul s = list_ex (\<lambda>c. c = CHR 0x00) s"

text \<open>The debug rendering of a string escapes a NUL.\<close>

fun piece_has_nul :: "text_piece \<Rightarrow> bool" where
  "piece_has_nul (Lit s) = text_has_nul s"
| "piece_has_nul _ = False"

fun json_has_nul :: "json \<Rightarrow> bool" where
  "json_has_nul (JStr s) = text_has_nul s"
| "json_has_nul (JText m) = list_ex piece_has_nul m"
| "json_has_nul (JArr xs) = list_ex json_has_nul xs"
| "json_has_nul (JObj kvs) = list_ex (\<lambda>(k, v). text_has_nul k \<or> json_has_nul v) kvs"
| "json_has_nul _ = False"

definition opt_json_has_nul :: "json option \<Rightarrow> bool" where
  "opt_json_has_nul j = (case j of None \<Rightarrow> False | Some v \<Rightarrow> json_has_nul v)"

definition pg_claim_exists :: "pg_db \<Rightarrow> uuid \<Rightarrow> bool" where
  "pg_claim_exists q r = list_ex (\<lambda>c. rc_claim_id c = r) (p_claims q)"

text \<open>The keys and references of the schema. A NaN is a value of \<^verbatim>\<open>DOUBLE PRECISION\<close>.\<close>

definition pg_claim_constraints :: "pg_db \<Rightarrow> claim_row \<Rightarrow> bool" where
  "pg_claim_constraints q r = (\<not> pg_claim_exists q (rc_claim_id r))"

definition pg_assertion_constraints :: "pg_db \<Rightarrow> assertion_row \<Rightarrow> bool" where
  "pg_assertion_constraints q r =
     (\<not> list_ex (\<lambda>x. rv_assertion_id x = rv_assertion_id r) (p_assertions q)
      \<and> pg_claim_exists q (rv_target_claim_id r))"

definition same_stream_seq :: "pg_ledger_row \<Rightarrow> pg_ledger_row \<Rightarrow> bool" where
  "same_stream_seq x r = (rl_agent_id (pl_row x) = rl_agent_id (pl_row r) \<and> pl_stream_seq x = pl_stream_seq r)"

definition pg_ledger_constraints :: "pg_db \<Rightarrow> pg_ledger_row \<Rightarrow> bool" where
  "pg_ledger_constraints q r =
     (\<not> list_ex (\<lambda>x. rl_entry_id (pl_row x) = rl_entry_id (pl_row r)) (p_ledger q)
      \<and> pg_claim_exists q (rl_claim_id (pl_row r))
      \<and> \<not> list_ex (\<lambda>x. same_stream_seq x r) (p_ledger q))"

definition pg_edge_constraints :: "pg_db \<Rightarrow> edge_row \<Rightarrow> bool" where
  "pg_edge_constraints q r =
     (\<not> list_ex (\<lambda>x. re_edge_id x = re_edge_id r) (p_edges q)
      \<and> pg_claim_exists q (re_from_claim_id r) \<and> pg_claim_exists q (re_to_claim_id r)
      \<and> \<not> list_ex (\<lambda>x. re_agent_id x = re_agent_id r \<and> re_from_claim_id x = re_from_claim_id r
                       \<and> re_to_claim_id x = re_to_claim_id r \<and> re_edge_kind x = re_edge_kind r) (p_edges q))"

section \<open>Connections and transactions\<close>

record pg_world =
  pw_db :: pg_db
  pw_faults :: "postgres_store_error option list"
  pw_read_error :: "read_op \<Rightarrow> postgres_store_error option"

record pg_txn =
  pt_agent_id :: agent_id
  pt_db :: pg_db
  pt_faults :: "postgres_store_error option list"

definition next_error :: "postgres_store_error option list \<Rightarrow> postgres_store_error option" where
  "next_error fs = (case fs of [] \<Rightarrow> None | f # _ \<Rightarrow> f)"

text \<open>Several round trips in a row: the first failure ends them.\<close>

fun round_trips :: "nat \<Rightarrow> postgres_store_error option list \<Rightarrow> postgres_store_error option \<times> postgres_store_error option list" where
  "round_trips 0 fs = (None, fs)"
| "round_trips (Suc n) fs = (case next_error fs of Some e \<Rightarrow> (Some e, tl fs) | None \<Rightarrow> round_trips n (tl fs))"

text \<open>A connection from the pool, \<^verbatim>\<open>BEGIN\<close>, the advisory lock of the agent.\<close>

definition pg_begin_atomic :: "agent_id \<Rightarrow> pg_world \<Rightarrow> (postgres_store_error, pg_txn) res \<times> pg_world" where
  "pg_begin_atomic a w =
     (case round_trips 3 (pw_faults w) of
        (Some e, fs) \<Rightarrow> (Inl e, w\<lparr>pw_faults := fs\<rparr>)
      | (None, fs) \<Rightarrow>
          if text_has_nul a then (Inl (Postgres PgBadText), w\<lparr>pw_faults := fs\<rparr>)
          else (Inr \<lparr>pt_agent_id = a, pt_db = pw_db w, pt_faults = fs\<rparr>, w))"

definition pg_commit :: "pg_txn \<Rightarrow> pg_world \<Rightarrow> (postgres_store_error, unit) res \<times> pg_world" where
  "pg_commit t w =
     (case next_error (pt_faults t) of
        Some e \<Rightarrow> (Inl e, w\<lparr>pw_faults := tl (pt_faults t)\<rparr>)
      | None \<Rightarrow> (Inr (), w\<lparr>pw_db := pt_db t, pw_faults := tl (pt_faults t)\<rparr>))"

definition pg_rollback :: "pg_txn \<Rightarrow> pg_world \<Rightarrow> (postgres_store_error, unit) res \<times> pg_world" where
  "pg_rollback t w =
     (case next_error (pt_faults t) of
        Some e \<Rightarrow> (Inl e, w\<lparr>pw_faults := tl (pt_faults t)\<rparr>)
      | None \<Rightarrow> (Inr (), w\<lparr>pw_faults := tl (pt_faults t)\<rparr>))"

text \<open>One \<^verbatim>\<open>INSERT\<close> on the connection of the transaction.\<close>

definition pg_insert ::
    "bool \<Rightarrow> (pg_db \<Rightarrow> bool) \<Rightarrow> (pg_db \<Rightarrow> pg_db) \<Rightarrow> (pg_txn, postgres_store_error, unit) tx_step" where
  "pg_insert bad_text constraints change t =
     (case next_error (pt_faults t) of
        Some e \<Rightarrow> (Inl e, t\<lparr>pt_faults := tl (pt_faults t)\<rparr>)
      | None \<Rightarrow>
          if bad_text then (Inl (Postgres PgBadText), t\<lparr>pt_faults := tl (pt_faults t)\<rparr>)
          else if \<not> constraints (pt_db t) then (Inl (Postgres PgConstraint), t\<lparr>pt_faults := tl (pt_faults t)\<rparr>)
          else (Inr (), t\<lparr>pt_db := change (pt_db t), pt_faults := tl (pt_faults t)\<rparr>))"

section \<open>Appends\<close>

definition claim_bad_text :: "claim_row \<Rightarrow> bool" where
  "claim_bad_text r = (text_has_nul (rc_agent_id r) \<or> text_has_nul (rc_subject r) \<or> text_has_nul (rc_predicate r)
     \<or> json_has_nul (rc_value r) \<or> opt_json_has_nul (rc_metadata r))"

definition pg_append_claim :: "claim \<Rightarrow> (pg_txn, postgres_store_error, claim_ref) tx_step" where
  "pg_append_claim c =
     (let row = pg_claim_to_row c in
      tx_bind (pg_insert (claim_bad_text row) (\<lambda>q. pg_claim_constraints q row)
                 (\<lambda>q. q\<lparr>p_claims := p_claims q @ [row]\<rparr>))
        (\<lambda>_. tx_return (cl_ref c)))"

definition pg_append_validity_assertion :: "validity_assertion \<Rightarrow> (pg_txn, postgres_store_error, unit) tx_step" where
  "pg_append_validity_assertion a =
     (let row = assertion_to_row a in
      pg_insert (text_has_nul (rv_agent_id row)) (\<lambda>q. pg_assertion_constraints q row)
        (\<lambda>q. q\<lparr>p_assertions := p_assertions q @ [row]\<rparr>))"

text \<open>\<^verbatim>\<open>SELECT COALESCE(MAX(stream_seq), 0) + 1\<close>, in \<^verbatim>\<open>BIGINT\<close>.\<close>

definition agent_seqs :: "agent_id \<Rightarrow> pg_db \<Rightarrow> int list" where
  "agent_seqs a q = map pl_stream_seq (filter (\<lambda>r. rl_agent_id (pl_row r) = a) (p_ledger q))"

definition next_stream_seq :: "agent_id \<Rightarrow> pg_db \<Rightarrow> int" where
  "next_stream_seq a q = (case agent_seqs a q of [] \<Rightarrow> 0 | n # ns \<Rightarrow> foldl max n ns) + 1"

definition pg_query_stream_seq :: "agent_id \<Rightarrow> (pg_txn, postgres_store_error, int) tx_step" where
  "pg_query_stream_seq a t =
     (case next_error (pt_faults t) of
        Some e \<Rightarrow> (Inl e, t\<lparr>pt_faults := tl (pt_faults t)\<rparr>)
      | None \<Rightarrow>
          (if text_has_nul a then Inl (Postgres PgBadText)
           else if next_stream_seq a (pt_db t) \<ge> 2 ^ 63 then Inl (Postgres PgOutOfRange)
           else Inr (next_stream_seq a (pt_db t)),
           t\<lparr>pt_faults := tl (pt_faults t)\<rparr>))"

definition pg_insert_ledger :: "ledger_entry \<Rightarrow> int \<Rightarrow> (pg_txn, postgres_store_error, unit) tx_step" where
  "pg_insert_ledger e stream_seq =
     (let row = \<lparr>pl_row = ledger_to_row e, pl_stream_seq = stream_seq\<rparr> in
      pg_insert (text_has_nul (le_agent_id e) \<or> opt_json_has_nul (le_rationale e))
        (\<lambda>q. pg_ledger_constraints q row) (\<lambda>q. q\<lparr>p_ledger := p_ledger q @ [row]\<rparr>))"

definition pg_append_ledger_entry :: "ledger_entry \<Rightarrow> (pg_txn, postgres_store_error, unit) tx_step" where
  "pg_append_ledger_entry e =
     tx_bind (pg_query_stream_seq (le_agent_id e)) (\<lambda>stream_seq. pg_insert_ledger e stream_seq)"

definition pg_append_claim_edge :: "claim_edge \<Rightarrow> (pg_txn, postgres_store_error, unit) tx_step" where
  "pg_append_claim_edge e =
     (let row = edge_to_row e in
      pg_insert (text_has_nul (re_agent_id row)) (\<lambda>q. pg_edge_constraints q row)
        (\<lambda>q. q\<lparr>p_edges := p_edges q @ [row]\<rparr>))"

section \<open>Reads\<close>

text \<open>Every read takes a connection from the pool and sends one query, its texts bound as parameters.\<close>

definition pg_query :: "pg_world \<Rightarrow> read_op \<Rightarrow> string list \<Rightarrow> (pg_db \<Rightarrow> (postgres_store_error, 'a) res)
    \<Rightarrow> (postgres_store_error, 'a) res" where
  "pg_query w op params f =
     (case pw_read_error w op of
        Some e \<Rightarrow> Inl e
      | None \<Rightarrow> if list_ex text_has_nul params then Inl (Postgres PgBadText) else f (pw_db w))"

definition pg_load_subject_line ::
    "pg_world \<Rightarrow> agent_id \<Rightarrow> string \<Rightarrow> string \<Rightarrow> instant option \<Rightarrow> (postgres_store_error, claim list) res" where
  "pg_load_subject_line w a s p as_of =
     pg_query w (RdLine a s p) [a, s, p] (\<lambda>q.
       collect_res pg_row_to_claim
         (sort_key rc_tx_time
           (filter (\<lambda>r. rc_agent_id r = a \<and> rc_subject r = s \<and> rc_predicate r = p
                        \<and> (case as_of of Some T \<Rightarrow> rc_tx_time r \<le> T | None \<Rightarrow> True)) (p_claims q))))"

definition pg_load_claim :: "pg_world \<Rightarrow> agent_id \<Rightarrow> claim_ref \<Rightarrow> (postgres_store_error, claim option) res" where
  "pg_load_claim w a ref =
     pg_query w (RdClaim ref) [a] (\<lambda>q.
       case find (\<lambda>r. rc_agent_id r = a \<and> rc_claim_id r = ref) (p_claims q) of
         None \<Rightarrow> Inr None
       | Some r \<Rightarrow> and_then (pg_row_to_claim r) (\<lambda>c. Inr (Some c)))"

definition pg_load_validity_assertions_for ::
    "pg_world \<Rightarrow> agent_id \<Rightarrow> claim_ref \<Rightarrow> (postgres_store_error, validity_assertion list) res" where
  "pg_load_validity_assertions_for w a ref =
     pg_query w (RdAssertions ref) [a] (\<lambda>q.
       collect_res pg_row_to_assertion
         (sort_key rv_asserted_at
           (filter (\<lambda>r. rv_agent_id r = a \<and> rv_target_claim_id r = ref) (p_assertions q))))"

text \<open>\<^verbatim>\<open>limit as i64\<close>: a limit of 2 ^ 63 or more is negative, which \<^verbatim>\<open>LIMIT\<close> refuses.\<close>

definition pg_load_ledger ::
    "pg_world \<Rightarrow> agent_id \<Rightarrow> transaction_time option \<Rightarrow> nat \<Rightarrow> (postgres_store_error, ledger_entry list) res" where
  "pg_load_ledger w a from_t limit =
     pg_query w RdLedger [a] (\<lambda>q.
       if limit \<ge> 2 ^ 63 then Inl (Postgres PgOutOfRange)
       else collect_res pg_row_to_ledger
         (take limit
           (sort_key (\<lambda>r. rl_recorded_at (pl_row r))
             (filter (\<lambda>r. rl_agent_id (pl_row r) = a
                          \<and> (case from_t of Some f \<Rightarrow> rl_recorded_at (pl_row r) \<ge> f | None \<Rightarrow> True)) (p_ledger q)))))"

definition pg_load_ledger_for_claims ::
    "pg_world \<Rightarrow> agent_id \<Rightarrow> claim_ref list \<Rightarrow> instant option \<Rightarrow> (postgres_store_error, ledger_entry list) res" where
  "pg_load_ledger_for_claims w a refs as_of =
     (if refs = [] then Inr []
      else pg_query w (RdLedgerFor refs) [a] (\<lambda>q.
        collect_res pg_row_to_ledger
          (sort_key (\<lambda>r. rl_recorded_at (pl_row r))
            (filter (\<lambda>r. rl_agent_id (pl_row r) = a \<and> rl_claim_id (pl_row r) \<in> set refs
                         \<and> (case as_of of Some T \<Rightarrow> rl_recorded_at (pl_row r) \<le> T | None \<Rightarrow> True)) (p_ledger q)))))"

definition pg_load_edges_for :: "pg_world \<Rightarrow> agent_id \<Rightarrow> claim_ref \<Rightarrow> (postgres_store_error, claim_edge list) res" where
  "pg_load_edges_for w a ref =
     pg_query w (RdEdges ref) [a] (\<lambda>q.
       collect_res pg_row_to_edge
         (sort_key re_created_at
           (filter (\<lambda>r. re_agent_id r = a \<and> (re_from_claim_id r = ref \<or> re_to_claim_id r = ref)) (p_edges q))))"

definition pg_load_injected_claims :: "pg_world \<Rightarrow> agent_id \<Rightarrow> (postgres_store_error, claim_ref list) res" where
  "pg_load_injected_claims w a =
     pg_query w RdInjected [a] (\<lambda>q.
       let rows = filter (\<lambda>r. rl_agent_id r = a \<and> rl_event_kind r = ''ServedAsInjected'') (map pl_row (p_ledger q));
           first_seen = (\<lambda>ref. min_time (map rl_recorded_at (filter (\<lambda>r. rl_claim_id r = ref) rows)))
       in Inr (sort_key first_seen (remdups (map rl_claim_id rows))))"

definition pg_load_lineage :: "pg_world \<Rightarrow> agent_id \<Rightarrow> claim_ref \<Rightarrow> (postgres_store_error, claim_edge list) res" where
  "pg_load_lineage w a ref =
     pg_query w (RdLineage ref) [a] (\<lambda>q.
       let derived = filter (\<lambda>e. re_agent_id e = a \<and> re_edge_kind e = ''DerivedFrom'') (p_edges q)
       in collect_res pg_row_to_edge
            (concat (map (sort_key re_created_at)
              (lineage_levels 64 derived (filter (\<lambda>e. re_from_claim_id e = ref) derived)))))"

definition pg_list_predicates_for_subject ::
    "pg_world \<Rightarrow> agent_id \<Rightarrow> string \<Rightarrow> instant option \<Rightarrow> (postgres_store_error, string list) res" where
  "pg_list_predicates_for_subject w a s as_of =
     pg_query w (RdPredicates s) [a, s] (\<lambda>q.
       Inr (remdups (map rc_predicate
         (filter (\<lambda>r. rc_agent_id r = a \<and> rc_subject r = s
                      \<and> (case as_of of Some T \<Rightarrow> rc_tx_time r \<le> T | None \<Rightarrow> True)) (p_claims q)))))"

definition postgres_port :: "(pg_world, pg_txn, postgres_store_error) persistence_port" where
  "postgres_port = \<lparr>
     pp_begin_atomic = pg_begin_atomic,
     pp_append_claim = pg_append_claim,
     pp_append_validity_assertion = pg_append_validity_assertion,
     pp_append_ledger_entry = pg_append_ledger_entry,
     pp_append_claim_edge = pg_append_claim_edge,
     pp_commit = pg_commit,
     pp_rollback = pg_rollback,
     pp_load_subject_line = pg_load_subject_line,
     pp_load_claim = pg_load_claim,
     pp_load_validity_assertions_for = pg_load_validity_assertions_for,
     pp_load_ledger = pg_load_ledger,
     pp_load_ledger_for_claims = pg_load_ledger_for_claims,
     pp_load_edges_for = pg_load_edges_for,
     pp_load_injected_claims = pg_load_injected_claims,
     pp_load_lineage = pg_load_lineage,
     pp_list_predicates_for_subject = pg_list_predicates_for_subject,
     pp_requires_global_write_serialization = False\<rparr>"

section \<open>The pending queue\<close>

text \<open>One statement on a connection of the pool, committed by itself.\<close>

definition pg_direct ::
    "bool \<Rightarrow> (pg_db \<Rightarrow> bool) \<Rightarrow> (pg_db \<Rightarrow> pg_db) \<Rightarrow> pg_world \<Rightarrow> (postgres_store_error, unit) res \<times> pg_world" where
  "pg_direct bad_text constraints change w =
     (case round_trips 2 (pw_faults w) of
        (Some e, fs) \<Rightarrow> (Inl e, w\<lparr>pw_faults := fs\<rparr>)
      | (None, fs) \<Rightarrow>
          if bad_text then (Inl (Postgres PgBadText), w\<lparr>pw_faults := fs\<rparr>)
          else if \<not> constraints (pw_db w) then (Inl (Postgres PgConstraint), w\<lparr>pw_faults := fs\<rparr>)
          else (Inr (), w\<lparr>pw_db := change (pw_db w), pw_faults := fs\<rparr>))"

definition pg_insert_pending :: "pending_row \<Rightarrow> pg_world \<Rightarrow> (postgres_store_error, unit) res \<times> pg_world" where
  "pg_insert_pending row =
     pg_direct (list_ex text_has_nul [pa_agent_id row, pa_subject row, pa_predicate row, pa_status row])
       (\<lambda>q. \<not> list_ex (\<lambda>r. pa_handle_id r = pa_handle_id row) (p_pending q))
       (\<lambda>q. q\<lparr>p_pending := p_pending q @ [pending_to_pg row]\<rparr>)"

definition pg_update_status :: "string \<Rightarrow> uuid \<Rightarrow> pg_db \<Rightarrow> pg_db" where
  "pg_update_status s h q =
     q\<lparr>p_pending := map (\<lambda>r. if pa_handle_id r = h then r\<lparr>pa_status := s\<rparr> else r) (p_pending q)\<rparr>"

definition pg_mark_resolved :: "uuid \<Rightarrow> pg_world \<Rightarrow> (postgres_store_error, unit) res \<times> pg_world" where
  "pg_mark_resolved h = pg_direct False (\<lambda>_. True) (pg_update_status ''resolved'' h)"

definition pg_mark_expired :: "uuid \<Rightarrow> pg_world \<Rightarrow> (postgres_store_error, unit) res \<times> pg_world" where
  "pg_mark_expired h = pg_direct False (\<lambda>_. True) (pg_update_status ''expired'' h)"

definition pg_get_pending :: "pg_world \<Rightarrow> uuid \<Rightarrow> (postgres_store_error, pending_row option) res" where
  "pg_get_pending w h =
     pg_query w (RdPending h) [] (\<lambda>q.
       case find (\<lambda>r. pa_handle_id r = h) (p_pending q) of
         None \<Rightarrow> Inr None
       | Some r \<Rightarrow> and_then (pg_row_to_pending r) (\<lambda>x. Inr (Some x)))"

definition pg_list_pending :: "pg_world \<Rightarrow> agent_id option \<Rightarrow> (postgres_store_error, pending_row list) res" where
  "pg_list_pending w a =
     pg_query w RdListPending (case a of Some x \<Rightarrow> [x] | None \<Rightarrow> []) (\<lambda>q.
       collect_res pg_row_to_pending
         (sort_key pa_queued_at
           (filter (\<lambda>r. (case a of Some x \<Rightarrow> pa_agent_id r = x | None \<Rightarrow> True)
                        \<and> pa_status r = ''pending'') (p_pending q))))"

definition pg_list_expired :: "pg_world \<Rightarrow> instant \<Rightarrow> (postgres_store_error, pending_row list) res" where
  "pg_list_expired w now =
     pg_query w RdListExpired [] (\<lambda>q.
       collect_res pg_row_to_pending
         (sort_key (\<lambda>r. case pa_expires_at r of Some t \<Rightarrow> t | None \<Rightarrow> 0)
           (filter (\<lambda>r. (case pa_expires_at r of Some t \<Rightarrow> t \<le> to_micros now | None \<Rightarrow> False)
                        \<and> pa_status r = ''pending'') (p_pending q))))"

definition pg_list_queued_orphan_claims :: "pg_world \<Rightarrow> (postgres_store_error, orphan list) res" where
  "pg_list_queued_orphan_claims w =
     pg_query w RdOrphans [] (\<lambda>q.
       Inr (map (\<lambda>(l, c). \<lparr>or_agent_id = rl_agent_id l, or_challenger = rl_claim_id l,
                 or_incumbent = find_committed_cheap_claim (pg_view q) (rl_agent_id l) (rc_subject c) (rc_predicate c),
                 or_subject = rc_subject c, or_predicate = rc_predicate c\<rparr>) (orphan_rows (pg_view q))))"

definition postgres_queue :: "(pg_world, postgres_store_error) pending_port" where
  "postgres_queue = \<lparr>pq_insert_pending = pg_insert_pending, pq_get_pending = pg_get_pending,
     pq_list_pending = pg_list_pending, pq_list_expired = pg_list_expired,
     pq_mark_resolved = pg_mark_resolved, pq_mark_expired = pg_mark_expired,
     pq_list_queued_orphan_claims = pg_list_queued_orphan_claims\<rparr>"

section \<open>The logical content, and the same rows in SQLite\<close>

definition pg_disk :: "pg_world \<Rightarrow> db" where
  "pg_disk w = abs_db (pg_view (pw_db w))"

definition pg_work :: "pg_txn \<Rightarrow> db" where
  "pg_work t = abs_db (pg_view (pt_db t))"

definition pg_stored :: "pending_row \<Rightarrow> pending_row" where
  "pg_stored row = pending_of_pg (pending_to_pg row)"

text \<open>A read that succeeds gives what the SQLite adapter gives over the same rows.\<close>

definition as_sqlite :: "pg_world \<Rightarrow> sqlite_world" where
  "as_sqlite w = \<lparr>sw_db = pg_view (pw_db w), sw_conn = True, sw_faults = [], sw_read_fails = (\<lambda>_. False)\<rparr>"

lemma sqlite_disk_as_sqlite [simp]: "sqlite_disk (as_sqlite w) = pg_disk w"
  by (simp add: sqlite_disk_def as_sqlite_def pg_disk_def)

lemma with_conn_as_sqlite [simp]: "with_conn (as_sqlite w) op f = f (pg_view (pw_db w))"
  by (simp add: with_conn_def as_sqlite_def)

lemma pg_view_cols [simp]:
  "q_claims (pg_view q) = p_claims q" "q_assertions (pg_view q) = p_assertions q"
  "q_ledger (pg_view q) = map pl_row (p_ledger q)" "q_edges (pg_view q) = p_edges q"
  "q_pending (pg_view q) = map pending_of_pg (p_pending q)"
  by (simp_all add: pg_view_def)

lemma pg_query_Inr: "pg_query w op params f = Inr x \<Longrightarrow> f (pw_db w) = Inr x"
  by (simp add: pg_query_def split: option.splits if_splits)

lemma collect_res_same:
  assumes "collect_res f xs = Inr ys" "\<And>x y. f x = Inr y \<Longrightarrow> g (h x) = Inr y"
  shows "collect_res g (map h xs) = Inr ys"
  using assms by (induction xs arbitrary: ys) (auto split: sum.splits)

lemmas collect_res_same_rows = collect_res_same[where h = "\<lambda>x. x", simplified]

lemma pg_row_to_claim_sqlite: "pg_row_to_claim r = Inr c \<Longrightarrow> row_to_claim r = Inr c"
  by (auto simp: pg_row_to_claim_def row_to_claim_def and_then_Inr pg_decoders)

lemma pg_row_to_assertion_sqlite: "pg_row_to_assertion r = Inr a \<Longrightarrow> row_to_assertion r = Inr a"
  by (auto simp: pg_row_to_assertion_def row_to_assertion_def row_to_assertion_kind_def and_then_Inr pg_decoders
      ok_or_def split: if_splits option.splits)

lemma pg_row_to_ledger_sqlite: "pg_row_to_ledger r = Inr e \<Longrightarrow> row_to_ledger (pl_row r) = Inr e"
  by (auto simp: pg_row_to_ledger_def row_to_ledger_def and_then_Inr pg_decoders)

lemmas collect_res_ledger = collect_res_same[of pg_row_to_ledger _ _ row_to_ledger pl_row, OF _ pg_row_to_ledger_sqlite]

lemma pg_row_to_edge_sqlite: "pg_row_to_edge r = Inr e \<Longrightarrow> row_to_edge r = Inr e"
  by (auto simp: pg_row_to_edge_def row_to_edge_def and_then_Inr pg_decoders)

lemma pg_row_to_pending_sqlite: "pg_row_to_pending r = Inr x \<Longrightarrow> row_to_pending (pending_of_pg r) = Inr x"
  by (auto simp: pg_row_to_pending_def row_to_pending_def pending_of_pg_def split: if_splits)

text \<open>A stable sort depends on the order of its keys alone.\<close>

lemma insort_key_order:
  "(\<And>x y. k x \<le> k y \<longleftrightarrow> k' x \<le> k' y) \<Longrightarrow> insort_key k x xs = insort_key k' x xs"
  by (induction xs) auto

lemma sort_key_order:
  assumes "\<And>x y. k x \<le> k y \<longleftrightarrow> k' x \<le> k' y"
  shows "sort_key k xs = sort_key k' xs"
  by (induction xs) (simp_all add: sort_key_def insort_key_order[OF assms])

lemma pending_of_pg_cols [simp]:
  "pa_handle_id (pending_of_pg r) = pa_handle_id r" "pa_agent_id (pending_of_pg r) = pa_agent_id r"
  "pa_status (pending_of_pg r) = pa_status r" "pa_queued_at (pending_of_pg r) = 1000 * pa_queued_at r"
  "pa_expires_at (pending_of_pg r) = map_option ((*) 1000) (pa_expires_at r)"
  by (simp_all add: pending_of_pg_def)

lemma load_subject_line_as_sqlite:
  "pg_load_subject_line w a s p as_of = Inr cs \<Longrightarrow> load_subject_line (as_sqlite w) a s p as_of = Inr cs"
  unfolding pg_load_subject_line_def load_subject_line_def
  by (drule pg_query_Inr) (simp add: collect_res_same_rows[OF _ pg_row_to_claim_sqlite])

lemma load_claim_as_sqlite: "pg_load_claim w a ref = Inr co \<Longrightarrow> load_claim (as_sqlite w) a ref = Inr co"
  unfolding pg_load_claim_def load_claim_def
  by (drule pg_query_Inr) (auto simp: and_then_Inr dest: pg_row_to_claim_sqlite split: option.splits)

lemma load_assertions_as_sqlite:
  "pg_load_validity_assertions_for w a ref = Inr vs \<Longrightarrow> load_validity_assertions_for (as_sqlite w) a ref = Inr vs"
  unfolding pg_load_validity_assertions_for_def load_validity_assertions_for_def
  by (drule pg_query_Inr) (simp add: collect_res_same_rows[OF _ pg_row_to_assertion_sqlite])

lemma load_ledger_as_sqlite: "pg_load_ledger w a from_t n = Inr es \<Longrightarrow> load_ledger (as_sqlite w) a from_t n = Inr es"
  unfolding pg_load_ledger_def load_ledger_def
  by (drule pg_query_Inr)
    (simp add: collect_res_ledger filter_map_swap sort_key_map_swap take_map cong: option.case_cong split: if_splits)

lemma load_edges_as_sqlite: "pg_load_edges_for w a ref = Inr eds \<Longrightarrow> load_edges_for (as_sqlite w) a ref = Inr eds"
  unfolding pg_load_edges_for_def load_edges_for_def
  by (drule pg_query_Inr) (simp add: collect_res_same_rows[OF _ pg_row_to_edge_sqlite])

lemma load_injected_as_sqlite: "pg_load_injected_claims w a = Inr rs \<Longrightarrow> load_injected_claims (as_sqlite w) a = Inr rs"
  unfolding pg_load_injected_claims_def load_injected_claims_def
  by (drule pg_query_Inr) (simp add: Let_def)

lemma load_lineage_as_sqlite: "pg_load_lineage w a ref = Inr eds \<Longrightarrow> load_lineage (as_sqlite w) a ref = Inr eds"
  unfolding pg_load_lineage_def load_lineage_def
  by (drule pg_query_Inr) (simp add: Let_def collect_res_same_rows[OF _ pg_row_to_edge_sqlite])

lemma list_predicates_as_sqlite:
  "pg_list_predicates_for_subject w a s as_of = Inr ps \<Longrightarrow> list_predicates_for_subject (as_sqlite w) a s as_of = Inr ps"
  unfolding pg_list_predicates_for_subject_def list_predicates_for_subject_def
  by (drule pg_query_Inr) simp

text \<open>\<^verbatim>\<open>ANY\<close> of an array is one query where the SQLite adapter sends one per chunk.\<close>

lemma load_ledger_for_claims_pg:
  assumes "pg_load_ledger_for_claims w a refs as_of = Inr es"
  shows "es = ledger_of_chunk (pg_disk w) a refs as_of"
proof (cases "refs = []")
  case True
  then show ?thesis using assms by (simp add: pg_load_ledger_for_claims_def ledger_of_chunk_def)
next
  case False
  then have "collect_res pg_row_to_ledger (sort_key (\<lambda>r. rl_recorded_at (pl_row r))
      (filter (\<lambda>r. rl_agent_id (pl_row r) = a \<and> rl_claim_id (pl_row r) \<in> set refs
                   \<and> cutoff as_of (rl_recorded_at (pl_row r))) (p_ledger (pw_db w)))) = Inr es"
    using assms by (auto simp: pg_load_ledger_for_claims_def cutoff_case dest!: pg_query_Inr)
  from collect_res_ledger[OF this] show ?thesis
    by (auto dest!: collect_res_abs[OF _ row_to_ledger_abs]
        simp: ledger_of_chunk_def pg_disk_def abs_db_def filter_map_swap sort_key_map_swap)
qed

lemma get_pending_as_sqlite: "pg_get_pending w h = Inr ro \<Longrightarrow> get_pending (as_sqlite w) h = Inr ro"
  unfolding pg_get_pending_def get_pending_def
  by (drule pg_query_Inr)
    (auto simp: and_then_Inr find_map_swap dest: pg_row_to_pending_sqlite split: option.splits)

lemma collect_pending_as_sqlite:
  assumes "collect_res pg_row_to_pending (sort_key k (filter P rows)) = Inr rs"
    and "\<And>x y. k x \<le> k y \<longleftrightarrow> k' (pending_of_pg x) \<le> k' (pending_of_pg y)"
    and "\<And>x. P x = P' (pending_of_pg x)"
  shows "collect_res row_to_pending (sort_key k' (filter P' (map pending_of_pg rows))) = Inr rs"
proof -
  have "sort_key k' (filter P' (map pending_of_pg rows)) = map pending_of_pg (sort_key k (filter P rows))"
    by (simp add: filter_map_swap sort_key_map_swap ext[of P, OF assms(3)]
        sort_key_order[of k "\<lambda>x. k' (pending_of_pg x)", OF assms(2)])
  then show ?thesis using collect_res_same[of pg_row_to_pending _ rs row_to_pending pending_of_pg, OF assms(1) pg_row_to_pending_sqlite] by simp
qed

lemma list_pending_as_sqlite: "pg_list_pending w a = Inr rs \<Longrightarrow> list_pending (as_sqlite w) a = Inr rs"
  unfolding pg_list_pending_def list_pending_def
  by (drule pg_query_Inr, simp, erule collect_pending_as_sqlite) (simp_all split: option.split)

lemma list_expired_as_sqlite: "pg_list_expired w now = Inr rs \<Longrightarrow> list_expired (as_sqlite w) now = Inr rs"
  unfolding pg_list_expired_def list_expired_def
  by (drule pg_query_Inr, simp, erule collect_pending_as_sqlite) (auto simp: micros_le to_micros_def split: option.split)

lemma list_orphans_as_sqlite:
  "pg_list_queued_orphan_claims w = Inr os \<Longrightarrow> list_queued_orphan_claims (as_sqlite w) = Inr os"
  unfolding pg_list_queued_orphan_claims_def list_queued_orphan_claims_def
  by (drule pg_query_Inr) simp

section \<open>The interfaces hold of the adapter\<close>

lemmas postgres_port_ops = postgres_port_def persistence_port.simps

lemmas postgres_queue_ops = postgres_queue_def pending_port.simps

lemma pg_insert_ok:
  "pg_insert bad cons ch t = (Inr u, t') \<Longrightarrow> pt_db t' = ch (pt_db t) \<and> cons (pt_db t) \<and> pt_agent_id t' = pt_agent_id t"
  by (auto simp: pg_insert_def split: if_splits option.splits)

lemma pg_insert_err: "pg_insert bad cons ch t = (Inl e, t') \<Longrightarrow> pt_db t' = pt_db t"
  by (auto simp: pg_insert_def split: if_splits option.splits)

lemma pg_direct_ok: "pg_direct bad cons ch w = (Inr u, w') \<Longrightarrow> pw_db w' = ch (pw_db w) \<and> cons (pw_db w)"
  by (auto simp: pg_direct_def split: if_splits prod.splits option.splits)

lemma pg_direct_err: "pg_direct bad cons ch w = (Inl e, w') \<Longrightarrow> pw_db w' = pw_db w"
  by (auto simp: pg_direct_def split: if_splits prod.splits option.splits)

lemma abs_pg_claim_to_row [simp]: "abs_claim (pg_claim_to_row c) = stored_claim c"
  using row_to_claim_abs[OF pg_row_to_claim_sqlite[OF pg_row_to_claim_to_row]] by simp

lemma pg_append_claim_cases:
  "pg_append_claim c t = (Inr r, t') \<Longrightarrow>
     r = cl_ref c \<and> pg_work t' = add_claim c (pg_work t) \<and> cl_ref c \<notin> cl_ref ` set (db_claims (pg_work t))"
  "pg_append_claim c t = (Inl e, t') \<Longrightarrow> pg_work t' = pg_work t"
proof -
  have key: "rc_claim_id (pg_claim_to_row c) = cl_ref c"
    using abs_claim_cols(1)[of "pg_claim_to_row c"] by simp
  show "pg_append_claim c t = (Inr r, t') \<Longrightarrow>
     r = cl_ref c \<and> pg_work t' = add_claim c (pg_work t) \<and> cl_ref c \<notin> cl_ref ` set (db_claims (pg_work t))"
    by (auto simp: pg_append_claim_def Let_def tx_bind_Inr_iff pg_work_def abs_db_def add_claim_def
        pg_claim_constraints_def pg_claim_exists_def list_ex_iff key dest!: pg_insert_ok)
  show "pg_append_claim c t = (Inl e, t') \<Longrightarrow> pg_work t' = pg_work t"
    by (auto simp: pg_append_claim_def Let_def pg_work_def elim!: tx_bind_cases dest: pg_insert_err)
qed

lemma pg_append_assertion_cases:
  "pg_append_validity_assertion a t = (Inr u, t') \<Longrightarrow>
     pg_work t' = add_assertion a (pg_work t)
     \<and> va_assertion_ref a \<notin> va_assertion_ref ` set (db_assertions (pg_work t))"
  "pg_append_validity_assertion a t = (Inl e, t') \<Longrightarrow> pg_work t' = pg_work t"
proof -
  have key: "rv_assertion_id (assertion_to_row a) = va_assertion_ref a"
    using abs_assertion_cols(1)[of "assertion_to_row a"] by simp
  show "pg_append_validity_assertion a t = (Inr u, t') \<Longrightarrow>
     pg_work t' = add_assertion a (pg_work t)
     \<and> va_assertion_ref a \<notin> va_assertion_ref ` set (db_assertions (pg_work t))"
    by (auto simp: pg_append_validity_assertion_def Let_def pg_work_def abs_db_def add_assertion_def
        pg_assertion_constraints_def list_ex_iff key dest!: pg_insert_ok)
  show "pg_append_validity_assertion a t = (Inl e, t') \<Longrightarrow> pg_work t' = pg_work t"
    by (auto simp: pg_append_validity_assertion_def Let_def pg_work_def dest!: pg_insert_err)
qed

lemma pg_query_seq_ok:
  "pg_query_stream_seq a t = (Inr n, t') \<Longrightarrow> pt_db t' = pt_db t \<and> n = next_stream_seq a (pt_db t) \<and> n < 2 ^ 63
     \<and> pt_agent_id t' = pt_agent_id t"
  by (auto simp: pg_query_stream_seq_def split: if_splits option.splits)

lemma pg_query_seq_err: "pg_query_stream_seq a t = (Inl e, t') \<Longrightarrow> pt_db t' = pt_db t"
  by (auto simp: pg_query_stream_seq_def split: if_splits option.splits)

lemma pg_append_ledger_cases:
  "pg_append_ledger_entry e t = (Inr u, t') \<Longrightarrow>
     pt_db t' = (pt_db t)\<lparr>p_ledger := p_ledger (pt_db t)
       @ [\<lparr>pl_row = ledger_to_row e, pl_stream_seq = next_stream_seq (le_agent_id e) (pt_db t)\<rparr>]\<rparr>"
  "pg_append_ledger_entry e t = (Inl er, t') \<Longrightarrow> pt_db t' = pt_db t"
   apply (auto simp: pg_append_ledger_entry_def pg_insert_ledger_def tx_bind_Inr_iff Let_def dest!: pg_query_seq_ok pg_insert_ok)[1]
  apply (auto simp: pg_append_ledger_entry_def pg_insert_ledger_def Let_def elim!: tx_bind_cases
      dest!: pg_query_seq_ok pg_query_seq_err pg_insert_err)
  done

interpretation postgres: persistence postgres_port pg_disk pg_work
proof unfold_locales
  fix a w t w' e
  show "pp_begin_atomic postgres_port a w = (Inr t, w') \<Longrightarrow> pg_work t = pg_disk w \<and> pg_disk w' = pg_disk w"
    by (auto simp: postgres_port_ops pg_begin_atomic_def pg_work_def pg_disk_def split: if_splits prod.splits option.splits)
  show "pp_begin_atomic postgres_port a w = (Inl e, w') \<Longrightarrow> pg_disk w' = pg_disk w"
    by (auto simp: postgres_port_ops pg_begin_atomic_def pg_disk_def split: if_splits prod.splits option.splits)
next
  fix c t r t' e
  show "pp_append_claim postgres_port c t = (Inr r, t') \<Longrightarrow>
     r = cl_ref c \<and> pg_work t' = add_claim c (pg_work t) \<and> cl_ref c \<notin> cl_ref ` set (db_claims (pg_work t))"
    using pg_append_claim_cases(1)[of c t r t'] by (simp add: postgres_port_ops)
  show "pp_append_claim postgres_port c t = (Inl e, t') \<Longrightarrow> pg_work t' = pg_work t"
    using pg_append_claim_cases(2)[of c t e t'] by (simp add: postgres_port_ops)
next
  fix a t u t' e
  show "pp_append_validity_assertion postgres_port a t = (Inr u, t') \<Longrightarrow>
     pg_work t' = add_assertion a (pg_work t)
     \<and> va_assertion_ref a \<notin> va_assertion_ref ` set (db_assertions (pg_work t))"
    using pg_append_assertion_cases(1)[of a t u t'] by (simp add: postgres_port_ops)
  show "pp_append_validity_assertion postgres_port a t = (Inl e, t') \<Longrightarrow> pg_work t' = pg_work t"
    using pg_append_assertion_cases(2)[of a t e t'] by (simp add: postgres_port_ops)
next
  fix le t u t' e
  show "pp_append_ledger_entry postgres_port le t = (Inr u, t') \<Longrightarrow> pg_work t' = add_ledger le (pg_work t)"
    using pg_append_ledger_cases(1)[of le t u t']
    by (simp add: postgres_port_ops pg_work_def abs_db_def add_ledger_def)
  show "pp_append_ledger_entry postgres_port le t = (Inl e, t') \<Longrightarrow> pg_work t' = pg_work t"
    using pg_append_ledger_cases(2)[of le t e t'] by (simp add: postgres_port_ops pg_work_def)
next
  fix ed t u t' e
  show "pp_append_claim_edge postgres_port ed t = (Inr u, t') \<Longrightarrow> pg_work t' = add_edge ed (pg_work t)"
    by (auto simp: postgres_port_ops pg_append_claim_edge_def Let_def pg_work_def abs_db_def add_edge_def
        dest!: pg_insert_ok)
  show "pp_append_claim_edge postgres_port ed t = (Inl e, t') \<Longrightarrow> pg_work t' = pg_work t"
    by (auto simp: postgres_port_ops pg_append_claim_edge_def Let_def pg_work_def dest!: pg_insert_err)
next
  fix t w u w' e
  show "pp_commit postgres_port t w = (Inr u, w') \<Longrightarrow> pg_disk w' = pg_work t"
    by (auto simp: postgres_port_ops pg_commit_def pg_disk_def pg_work_def split: option.splits)
  show "pp_commit postgres_port t w = (Inl e, w') \<Longrightarrow> pg_disk w' = pg_disk w"
    by (auto simp: postgres_port_ops pg_commit_def pg_disk_def split: option.splits)
  show "pg_disk (snd (pp_rollback postgres_port t w)) = pg_disk w"
    by (simp add: postgres_port_ops pg_rollback_def pg_disk_def split: option.split)
next
  fix w a s p as_of cs
  show "pp_load_subject_line postgres_port w a s p as_of = Inr cs \<Longrightarrow> cs = line_of (pg_disk w) a s p as_of"
    by (auto simp: postgres_port_ops dest!: load_subject_line_as_sqlite load_subject_line_spec)
next
  fix w a r co
  show "pp_load_claim postgres_port w a r = Inr co \<Longrightarrow> co = claim_of (pg_disk w) a r"
    by (auto simp: postgres_port_ops dest!: load_claim_as_sqlite load_claim_spec)
next
  fix w a r vs
  show "pp_load_validity_assertions_for postgres_port w a r = Inr vs \<Longrightarrow> vs = assertions_of (pg_disk w) a r"
    by (auto simp: postgres_port_ops dest!: load_assertions_as_sqlite load_assertions_spec)
next
  fix w a from_t n es
  show "pp_load_ledger postgres_port w a from_t n = Inr es \<Longrightarrow> es = ledger_page (pg_disk w) a from_t n"
    by (auto simp: postgres_port_ops dest!: load_ledger_as_sqlite load_ledger_spec)
next
  fix w a refs as_of es
  assume "pp_load_ledger_for_claims postgres_port w a refs as_of = Inr es"
  then have es: "es = ledger_of_chunk (pg_disk w) a refs as_of"
    by (intro load_ledger_for_claims_pg) (simp add: postgres_port_ops)
  show "(\<forall>r \<in> set refs. filter (\<lambda>e. le_claim_ref e = r) es = ledger_of_chunk (pg_disk w) a [r] as_of)
     \<and> le_claim_ref ` set es \<subseteq> set refs"
    by (auto simp: es filter_ledger_of_chunk) (auto simp: ledger_of_chunk_def)
next
  fix w a r eds
  show "pp_load_edges_for postgres_port w a r = Inr eds \<Longrightarrow> eds = edges_of (pg_disk w) a r"
    by (auto simp: postgres_port_ops dest!: load_edges_as_sqlite load_edges_spec)
next
  fix w a s as_of ps
  show "pp_list_predicates_for_subject postgres_port w a s as_of = Inr ps \<Longrightarrow>
     distinct ps \<and> set ps = predicates_of (pg_disk w) a s as_of"
    using list_predicates_spec[of "as_sqlite w" a s as_of ps] by (simp add: postgres_port_ops list_predicates_as_sqlite)
qed

lemma abs_pg_update_status: "abs_db (pg_view (pg_update_status s h q)) = set_pending_status s h (abs_db (pg_view q))"
  by (simp add: pg_update_status_def set_pending_status_def abs_db_def comp_def pending_of_pg_def cong: map_cong)

interpretation postgres_q: pending_queue postgres_queue pg_disk pg_stored
proof unfold_locales
  fix row :: pending_row
  show "pg_stored row = row\<lparr>pa_queued_at := pa_queued_at (pg_stored row), pa_expires_at := pa_expires_at (pg_stored row)\<rparr>"
    by (simp add: pg_stored_def pending_of_pg_def pending_to_pg_def)
  show "pa_queued_at (pg_stored row) \<le> pa_queued_at row \<and> pa_queued_at row < pa_queued_at (pg_stored row) + 1000"
    using micros_bounds by (simp add: pg_stored_def pending_to_pg_def)
  show "rel_option (\<lambda>s t. s \<le> t \<and> t < s + 1000) (pa_expires_at (pg_stored row)) (pa_expires_at row)"
    using micros_bounds by (cases "pa_expires_at row") (simp_all add: pg_stored_def pending_to_pg_def)
next
  fix row w u w' e
  show "pq_insert_pending postgres_queue row w = (Inr u, w') \<Longrightarrow>
     pg_disk w' = add_pending (pg_stored row) (pg_disk w)
     \<and> pa_handle_id row \<notin> pa_handle_id ` set (db_pending (pg_disk w))"
    by (auto simp: postgres_queue_ops pg_insert_pending_def pg_disk_def abs_db_def add_pending_def list_ex_iff
        pg_stored_def dest!: pg_direct_ok)
  show "pq_insert_pending postgres_queue row w = (Inl e, w') \<Longrightarrow> pg_disk w' = pg_disk w"
    by (auto simp: postgres_queue_ops pg_insert_pending_def pg_disk_def dest!: pg_direct_err)
next
  fix h w u w' e
  show "pq_mark_resolved postgres_queue h w = (Inr u, w') \<Longrightarrow>
     pg_disk w' = set_pending_status ''resolved'' h (pg_disk w)"
    by (auto simp: postgres_queue_ops pg_mark_resolved_def pg_disk_def abs_pg_update_status dest!: pg_direct_ok)
  show "pq_mark_resolved postgres_queue h w = (Inl e, w') \<Longrightarrow> pg_disk w' = pg_disk w"
    by (auto simp: postgres_queue_ops pg_mark_resolved_def pg_disk_def dest!: pg_direct_err)
  show "pq_mark_expired postgres_queue h w = (Inr u, w') \<Longrightarrow>
     pg_disk w' = set_pending_status ''expired'' h (pg_disk w)"
    by (auto simp: postgres_queue_ops pg_mark_expired_def pg_disk_def abs_pg_update_status dest!: pg_direct_ok)
  show "pq_mark_expired postgres_queue h w = (Inl e, w') \<Longrightarrow> pg_disk w' = pg_disk w"
    by (auto simp: postgres_queue_ops pg_mark_expired_def pg_disk_def dest!: pg_direct_err)
next
  fix w h ro
  show "pq_get_pending postgres_queue w h = Inr ro \<Longrightarrow> ro = pending_of (pg_disk w) h"
    using sqlite_q.read_pending[of "as_sqlite w" h ro] get_pending_as_sqlite[of w h ro]
    by (simp add: postgres_queue_ops sqlite_queue_ops)
next
  fix w now rs
  show "pq_list_expired postgres_queue w now = Inr rs \<Longrightarrow> rs = expired_of (pg_disk w) now"
    using sqlite_q.read_expired[of "as_sqlite w" now rs] list_expired_as_sqlite[of w now rs]
    by (simp add: postgres_queue_ops sqlite_queue_ops)
next
  fix w os
  show "pq_list_queued_orphan_claims postgres_queue w = Inr os \<Longrightarrow> orphan_key ` set os = orphans_of (pg_disk w)"
    using sqlite_q.read_orphans[of "as_sqlite w" os] list_orphans_as_sqlite[of w os]
    by (simp add: postgres_queue_ops sqlite_queue_ops)
qed

interpretation postgres_engine: engine_store postgres_port postgres_queue pg_disk pg_work pg_stored ..

text \<open>The database is unchanged while the failures to come are not.\<close>

definition pg_same_store :: "pg_world \<Rightarrow> pg_world \<Rightarrow> bool" where
  "pg_same_store w w' = (pw_db w' = pw_db w)"

abbreviation pg_engine_run :: "engine_config \<Rightarrow> instant \<Rightarrow> pg_world \<Rightarrow> instant \<Rightarrow> pg_world \<Rightarrow> bool" where
  "pg_engine_run \<equiv> port_run postgres_port postgres_queue pg_same_store"

interpretation postgres_runs: engine_runs postgres_port postgres_queue pg_disk pg_work pg_stored pg_same_store
  by unfold_locales (simp add: pg_same_store_def pg_disk_def)

end
