(* ===== verification/Postgres_Server.thy ===== *)
theory Postgres_Server
  imports Postgres_Store
begin

text \<open>The write transactions of several agents, and of several processes, at the same time on one
  PostgreSQL database (isolation level READ COMMITTED): a step is one statement of one session. A
  statement sees the committed rows of that moment and the session's own. \<^verbatim>\<open>append_ledger_entry\<close> is two
  statements, the query of the next sequence number and the insert, so another session can run in between.

  The parameter \<^verbatim>\<open>key\<close> is the advisory lock a session takes after \<^verbatim>\<open>BEGIN\<close>: \<^verbatim>\<open>Some (hashtext agent)\<close> in
  \<^verbatim>\<open>txn.rs\<close>, two agents may share one; \<^verbatim>\<open>None\<close> stands for a session that takes no lock. A session
  that waits for a lock has no row and no lock, so \<^verbatim>\<open>BEGIN\<close> and the lock are one step.

  Every use case writes rows of the agent it began the transaction for.\<close>

section \<open>Sessions\<close>

datatype pg_stmt =
    InsertClaim claim
  | InsertAssertion validity_assertion
  | QuerySeq
  | InsertLedger ledger_entry
  | InsertEdge claim_edge

record pg_session =
  ss_agent :: agent_id
  ss_new :: pg_db
  ss_seq :: "int option"
  ss_aborted :: bool

record pg_server =
  sv_db :: pg_db
  sv_sessions :: "nat \<Rightarrow> pg_session option"
  sv_locks :: "int \<Rightarrow> nat option"

definition pg_union :: "pg_db \<Rightarrow> pg_db \<Rightarrow> pg_db" where
  "pg_union q n = \<lparr>p_claims = p_claims q @ p_claims n, p_assertions = p_assertions q @ p_assertions n,
     p_ledger = p_ledger q @ p_ledger n, p_edges = p_edges q @ p_edges n, p_pending = p_pending q @ p_pending n\<rparr>"

text \<open>The rows after those of \<^verbatim>\<open>q\<close>.\<close>

definition pg_rest :: "pg_db \<Rightarrow> pg_db \<Rightarrow> pg_db" where
  "pg_rest q u = \<lparr>p_claims = drop (length (p_claims q)) (p_claims u),
     p_assertions = drop (length (p_assertions q)) (p_assertions u),
     p_ledger = drop (length (p_ledger q)) (p_ledger u), p_edges = drop (length (p_edges q)) (p_edges u),
     p_pending = drop (length (p_pending q)) (p_pending u)\<rparr>"

definition session_txn :: "pg_db \<Rightarrow> pg_session \<Rightarrow> postgres_store_error option list \<Rightarrow> pg_txn" where
  "session_txn q ss fs = \<lparr>pt_agent_id = ss_agent ss, pt_db = pg_union q (ss_new ss), pt_faults = fs\<rparr>"

fun stmt_agent :: "agent_id \<Rightarrow> pg_stmt \<Rightarrow> agent_id" where
  "stmt_agent a (InsertClaim c) = cl_agent_id c"
| "stmt_agent a (InsertAssertion v) = va_agent_id v"
| "stmt_agent a QuerySeq = a"
| "stmt_agent a (InsertLedger e) = le_agent_id e"
| "stmt_agent a (InsertEdge e) = ed_agent_id e"

text \<open>One statement on the transaction: the number it returns, if it is the query. An insert into the ledger
  takes the number last queried.\<close>

fun run_stmt :: "pg_stmt \<Rightarrow> int option \<Rightarrow> (pg_txn, postgres_store_error, int option) tx_step" where
  "run_stmt (InsertClaim c) seq = tx_bind (pg_append_claim c) (\<lambda>_. tx_return None)"
| "run_stmt (InsertAssertion v) seq = tx_bind (pg_append_validity_assertion v) (\<lambda>_. tx_return None)"
| "run_stmt QuerySeq seq = (\<lambda>t. tx_bind (pg_query_stream_seq (pt_agent_id t)) (\<lambda>n. tx_return (Some n)) t)"
| "run_stmt (InsertLedger e) seq =
     (case seq of None \<Rightarrow> (\<lambda>t. (Inl (Postgres PgOther), t))
      | Some n \<Rightarrow> tx_bind (pg_insert_ledger e n) (\<lambda>_. tx_return None))"
| "run_stmt (InsertEdge e) seq = tx_bind (pg_append_claim_edge e) (\<lambda>_. tx_return None)"

text \<open>A failed statement aborts the transaction: its rows are gone, and nothing but its end is accepted.\<close>

definition session_after ::
    "pg_db \<Rightarrow> pg_session \<Rightarrow> (postgres_store_error, int option) res \<times> pg_txn \<Rightarrow> pg_session" where
  "session_after q ss res =
     (case res of
        (Inr seq, t) \<Rightarrow> ss\<lparr>ss_new := pg_rest q (pt_db t), ss_seq := seq\<rparr>
      | (Inl _, _) \<Rightarrow> ss\<lparr>ss_new := empty_pg_db, ss_seq := None, ss_aborted := True\<rparr>)"

definition release_locks :: "nat \<Rightarrow> (int \<Rightarrow> nat option) \<Rightarrow> int \<Rightarrow> nat option" where
  "release_locks i locks = (\<lambda>k. if locks k = Some i then None else locks k)"

definition end_session :: "nat \<Rightarrow> pg_server \<Rightarrow> pg_server" where
  "end_session i s = s\<lparr>sv_sessions := (sv_sessions s)(i := None), sv_locks := release_locks i (sv_locks s)\<rparr>"

definition begin_session :: "(agent_id \<Rightarrow> int option) \<Rightarrow> nat \<Rightarrow> agent_id \<Rightarrow> pg_server \<Rightarrow> pg_server" where
  "begin_session key i a s = s\<lparr>sv_sessions := (sv_sessions s)(i \<mapsto>
       \<lparr>ss_agent = a, ss_new = empty_pg_db, ss_seq = None, ss_aborted = False\<rparr>),
     sv_locks := (case key a of None \<Rightarrow> sv_locks s | Some k \<Rightarrow> (sv_locks s)(k \<mapsto> i))\<rparr>"

definition run_in_session ::
    "nat \<Rightarrow> pg_stmt \<Rightarrow> postgres_store_error option list \<Rightarrow> pg_session \<Rightarrow> pg_server \<Rightarrow> pg_server" where
  "run_in_session i st fs ss s = s\<lparr>sv_sessions := (sv_sessions s)(i \<mapsto>
     session_after (sv_db s) ss (run_stmt st (ss_seq ss) (session_txn (sv_db s) ss fs)))\<rparr>"

definition commit_session :: "nat \<Rightarrow> pg_session \<Rightarrow> pg_server \<Rightarrow> pg_server" where
  "commit_session i ss s = end_session i (s\<lparr>sv_db := pg_union (sv_db s) (ss_new ss)\<rparr>)"

section \<open>Steps\<close>

text \<open>A lock that is held is waited for. A commit of an aborted transaction has nothing to publish; a lost
  connection is a rollback.\<close>

inductive server_step :: "(agent_id \<Rightarrow> int option) \<Rightarrow> pg_server \<Rightarrow> pg_server \<Rightarrow> bool"
  for key s where
  begin_step: "sv_sessions s i = None \<Longrightarrow> (\<forall>k. key a = Some k \<longrightarrow> sv_locks s k = None) \<Longrightarrow>
     server_step key s (begin_session key i a s)"
| stmt_step: "sv_sessions s i = Some ss \<Longrightarrow> \<not> ss_aborted ss \<Longrightarrow> stmt_agent (ss_agent ss) st = ss_agent ss \<Longrightarrow>
     server_step key s (run_in_session i st fs ss s)"
| commit_step: "sv_sessions s i = Some ss \<Longrightarrow> server_step key s (commit_session i ss s)"
| rollback_step: "sv_sessions s i = Some ss \<Longrightarrow> server_step key s (end_session i s)"

inductive server_run :: "(agent_id \<Rightarrow> int option) \<Rightarrow> pg_server \<Rightarrow> pg_server \<Rightarrow> bool"
  for key s where
  server_refl: "server_run key s s"
| server_next: "server_run key s s1 \<Longrightarrow> server_step key s1 s2 \<Longrightarrow> server_run key s s2"

definition idle_server :: "pg_db \<Rightarrow> pg_server" where
  "idle_server q = \<lparr>sv_db = q, sv_sessions = (\<lambda>_. None), sv_locks = (\<lambda>_. None)\<rparr>"

section \<open>The sequence numbers of an agent\<close>

definition gapless :: "agent_id \<Rightarrow> pg_db \<Rightarrow> bool" where
  "gapless a q = (agent_seqs a q = map int [1..<Suc (length (agent_seqs a q))])"

lemma foldl_max_upt: "a < b \<Longrightarrow> foldl max (int a) (map int [a..<b]) = int (b - 1)"
  by (induction b) (auto simp: less_Suc_eq)

lemma next_stream_seq_gapless:
  assumes "gapless a q"
  shows "next_stream_seq a q = int (length (agent_seqs a q)) + 1"
proof (cases "length (agent_seqs a q)")
  case (Suc n)
  then have "agent_seqs a q = map int [1..<Suc (Suc n)]" using assms by (simp add: gapless_def)
  also have "\<dots> = 1 # map int [2..<Suc (Suc n)]" by (simp add: upt_conv_Cons numeral_2_eq_2 del: upt_Suc)
  finally have e: "agent_seqs a q = 1 # map int [2..<Suc (Suc n)]" .
  have "foldl max 1 (map int [1..<Suc (Suc n)]) = int (Suc n)" using foldl_max_upt[of 1 "Suc (Suc n)"] by simp
  then have "foldl max 1 (map int [2..<Suc (Suc n)]) = int (Suc n)"
    by (simp add: upt_conv_Cons numeral_2_eq_2 del: upt_Suc)
  then show ?thesis using Suc by (simp add: next_stream_seq_def e)
qed (simp add: next_stream_seq_def)

lemma agent_seqs_union [simp]: "agent_seqs a (pg_union q n) = agent_seqs a q @ agent_seqs a n"
  by (simp add: agent_seqs_def pg_union_def)

lemma agent_seqs_empty [simp]: "agent_seqs a empty_pg_db = []"
  by (simp add: agent_seqs_def empty_pg_db_def)

lemma gapless_extend:
  assumes "gapless a q" "agent_seqs a u = agent_seqs a q @ [next_stream_seq a q]"
  shows "gapless a u"
  using assms(1) unfolding gapless_def assms(2) next_stream_seq_gapless[OF assms(1)] by simp

lemma gapless_cong: "agent_seqs a u = agent_seqs a q \<Longrightarrow> gapless a u \<longleftrightarrow> gapless a q"
  by (simp add: gapless_def)

lemma next_stream_seq_cong: "agent_seqs a u = agent_seqs a q \<Longrightarrow> next_stream_seq a u = next_stream_seq a q"
  by (simp add: next_stream_seq_def)

lemma gapless_fresh:
  assumes "gapless a q" "r \<in> set (p_ledger q)" "rl_agent_id (pl_row r) = a"
  shows "pl_stream_seq r < next_stream_seq a q"
proof -
  have "pl_stream_seq r \<in> set (agent_seqs a q)" using assms(2,3) by (auto simp: agent_seqs_def)
  also have "set (agent_seqs a q) = int ` {1..<Suc (length (agent_seqs a q))}"
    using assms(1) unfolding gapless_def by (metis set_map set_upt)
  finally show ?thesis by (auto simp: next_stream_seq_gapless[OF assms(1)])
qed

section \<open>What a statement does to the rows\<close>

lemma pg_rest_union: "pg_rest q (pg_union (pg_union q n) x) = pg_union n x"
  by (simp add: pg_rest_def pg_union_def)

definition rows_of_agent :: "agent_id \<Rightarrow> pg_db \<Rightarrow> bool" where
  "rows_of_agent a q = list_all (\<lambda>r. rl_agent_id (pl_row r) = a) (p_ledger q)"

lemma rows_of_agent_seqs: "rows_of_agent a n \<Longrightarrow> b \<noteq> a \<Longrightarrow> agent_seqs b n = []"
  by (auto simp: rows_of_agent_def agent_seqs_def list_all_iff filter_empty_conv)

lemma rows_of_agent_union [simp]: "rows_of_agent a (pg_union n x) \<longleftrightarrow> rows_of_agent a n \<and> rows_of_agent a x"
  by (simp add: rows_of_agent_def pg_union_def)

lemma rows_of_agent_empty [simp]: "rows_of_agent a empty_pg_db"
  by (simp add: rows_of_agent_def empty_pg_db_def)

text \<open>A statement adds rows of its agent; if it inserts a ledger row, one with the number last queried.\<close>

lemma run_stmt_ok:
  assumes "run_stmt st seq t = (Inr seq', t')" "stmt_agent a st = a" "a = pt_agent_id t"
  obtains x where "pt_db t' = pg_union (pt_db t) x" "rows_of_agent a x"
    "seq' = None \<and> agent_seqs a x = [] \<or> seq' = None \<and> (\<exists>n. seq = Some n \<and> agent_seqs a x = [n])
       \<or> seq' = Some (next_stream_seq a (pt_db t)) \<and> agent_seqs a x = []"
proof (cases st)
  case (InsertClaim c)
  then have "pt_db t' = pg_union (pt_db t) (empty_pg_db\<lparr>p_claims := [pg_claim_to_row c]\<rparr>)" "seq' = None"
    using assms by (auto simp: pg_append_claim_def Let_def tx_bind_Inr_iff pg_union_def empty_pg_db_def dest!: pg_insert_ok)
  then show ?thesis by (intro that) (auto simp: rows_of_agent_def agent_seqs_def empty_pg_db_def)
next
  case (InsertAssertion v)
  then have "pt_db t' = pg_union (pt_db t) (empty_pg_db\<lparr>p_assertions := [assertion_to_row v]\<rparr>)" "seq' = None"
    using assms by (auto simp: pg_append_validity_assertion_def Let_def tx_bind_Inr_iff pg_union_def empty_pg_db_def
        dest!: pg_insert_ok)
  then show ?thesis by (intro that) (auto simp: rows_of_agent_def agent_seqs_def empty_pg_db_def)
next
  case QuerySeq
  then have "pt_db t' = pg_union (pt_db t) empty_pg_db" "seq' = Some (next_stream_seq a (pt_db t))"
    using assms by (auto simp: tx_bind_Inr_iff pg_union_def empty_pg_db_def dest!: pg_query_seq_ok)
  then show ?thesis by (intro that) auto
next
  case (InsertLedger e)
  then obtain n where n: "seq = Some n" using assms by (cases seq) auto
  then have "pt_db t' = pg_union (pt_db t)
      (empty_pg_db\<lparr>p_ledger := [\<lparr>pl_row = ledger_to_row e, pl_stream_seq = n\<rparr>]\<rparr>)" "seq' = None"
    using assms InsertLedger
    by (auto simp: pg_insert_ledger_def Let_def tx_bind_Inr_iff pg_union_def empty_pg_db_def dest!: pg_insert_ok)
  then show ?thesis using n assms(2) InsertLedger
    by (intro that) (auto simp: rows_of_agent_def agent_seqs_def empty_pg_db_def ledger_to_row_def)
next
  case (InsertEdge e)
  then have "pt_db t' = pg_union (pt_db t) (empty_pg_db\<lparr>p_edges := [edge_to_row e]\<rparr>)" "seq' = None"
    using assms by (auto simp: pg_append_claim_edge_def Let_def tx_bind_Inr_iff pg_union_def empty_pg_db_def
        dest!: pg_insert_ok)
  then show ?thesis by (intro that) (auto simp: rows_of_agent_def agent_seqs_def empty_pg_db_def)
qed

section \<open>The invariant\<close>

definition session_ok :: "pg_db \<Rightarrow> pg_session \<Rightarrow> bool" where
  "session_ok q ss =
     (rows_of_agent (ss_agent ss) (ss_new ss) \<and> gapless (ss_agent ss) (pg_union q (ss_new ss))
      \<and> (\<forall>n. ss_seq ss = Some n \<longrightarrow> n = next_stream_seq (ss_agent ss) (pg_union q (ss_new ss))))"

definition server_inv :: "(agent_id \<Rightarrow> int option) \<Rightarrow> pg_server \<Rightarrow> bool" where
  "server_inv key s =
     ((\<forall>a. gapless a (sv_db s))
      \<and> (\<forall>i ss. sv_sessions s i = Some ss \<longrightarrow>
           session_ok (sv_db s) ss \<and> (\<exists>k. key (ss_agent ss) = Some k \<and> sv_locks s k = Some i)))"

lemma session_ok_begin: "gapless a q \<Longrightarrow>
    session_ok q \<lparr>ss_agent = a, ss_new = empty_pg_db, ss_seq = None, ss_aborted = ab\<rparr>"
  by (simp add: session_ok_def gapless_def)

lemma session_ok_stmt:
  assumes "session_ok q ss" "gapless (ss_agent ss) q" "stmt_agent (ss_agent ss) st = ss_agent ss"
  shows "session_ok q (session_after q ss (run_stmt st (ss_seq ss) (session_txn q ss fs)))"
proof -
  let ?a = "ss_agent ss" and ?t = "session_txn q ss fs"
  obtain r t' where r: "run_stmt st (ss_seq ss) ?t = (r, t')" by (cases "run_stmt st (ss_seq ss) ?t")
  show ?thesis
  proof (cases r)
    case (Inl e)
    then show ?thesis using assms(2) r by (simp add: session_after_def session_ok_def gapless_def)
  next
    case (Inr seq')
    have t: "pt_db ?t = pg_union q (ss_new ss)" "pt_agent_id ?t = ?a" by (simp_all add: session_txn_def)
    obtain x where x': "pt_db t' = pg_union (pt_db ?t) x" "rows_of_agent ?a x"
      "seq' = None \<and> agent_seqs ?a x = [] \<or> seq' = None \<and> (\<exists>n. ss_seq ss = Some n \<and> agent_seqs ?a x = [n])
         \<or> seq' = Some (next_stream_seq ?a (pt_db ?t)) \<and> agent_seqs ?a x = []"
      by (rule run_stmt_ok[OF r[unfolded Inr] assms(3) t(2)[symmetric]])
    note x = x'[unfolded t(1)]
    have g: "gapless ?a (pg_union q (ss_new ss))"
      and n: "\<And>n. ss_seq ss = Some n \<Longrightarrow> n = next_stream_seq ?a (pg_union q (ss_new ss))"
      and o: "rows_of_agent ?a (ss_new ss)"
      using assms(1) by (simp_all add: session_ok_def)
    have "gapless ?a (pg_union q (pg_union (ss_new ss) x))
        \<and> (seq' \<noteq> None \<longrightarrow> agent_seqs ?a x = [] \<and> seq' = Some (next_stream_seq ?a (pg_union q (ss_new ss))))"
      using x(3)
    proof (elim disjE conjE exE)
      fix m assume m: "seq' = None" "ss_seq ss = Some m" "agent_seqs ?a x = [m]"
      have "gapless ?a (pg_union q (pg_union (ss_new ss) x))"
        by (rule gapless_extend[OF g]) (simp add: m n[OF m(2), symmetric])
      then show ?thesis using m(1) by simp
    qed (use gapless_cong[of ?a "pg_union q (pg_union (ss_new ss) x)" "pg_union q (ss_new ss)"] g in simp_all)
    moreover have "next_stream_seq ?a (pg_union q (pg_union (ss_new ss) x)) = next_stream_seq ?a (pg_union q (ss_new ss))"
      if "agent_seqs ?a x = []" using that by (intro next_stream_seq_cong) simp
    ultimately show ?thesis using r Inr x(1,2) o
      by (auto simp: session_after_def session_ok_def pg_rest_union)
  qed
qed

text \<open>Rows of another agent change nothing for a session.\<close>

lemma session_ok_other:
  assumes "session_ok q ss" "rows_of_agent b n" "b \<noteq> ss_agent ss"
  shows "session_ok (pg_union q n) ss"
proof -
  let ?a = "ss_agent ss"
  have "agent_seqs ?a (pg_union (pg_union q n) (ss_new ss)) = agent_seqs ?a (pg_union q (ss_new ss))"
    using rows_of_agent_seqs[OF assms(2), of ?a] assms(3) by simp
  then show ?thesis using assms(1) gapless_cong next_stream_seq_cong unfolding session_ok_def by metis
qed

lemma server_inv_step:
  assumes "server_step key s s'" "server_inv key s" "\<And>a. key a \<noteq> None"
  shows "server_inv key s'"
  using assms(1)
proof cases
  case (begin_step i a)
  obtain k where k: "key a = Some k" using assms(3) by auto
  then have free: "sv_locks s k = None" using begin_step(3) by simp
  have inv: "\<And>b. gapless b (sv_db s)" "\<And>j ss. sv_sessions s j = Some ss \<Longrightarrow>
      session_ok (sv_db s) ss \<and> (\<exists>k. key (ss_agent ss) = Some k \<and> sv_locks s k = Some j)"
    using assms(2) by (auto simp: server_inv_def)
  have "\<exists>k'. key (ss_agent ss) = Some k' \<and> ((sv_locks s)(k \<mapsto> i)) k' = Some j"
    if "sv_sessions s j = Some ss" "j \<noteq> i" for j ss
    using inv(2)[OF that(1)] free by (cases "key (ss_agent ss) = Some k") auto
  then show ?thesis
    using inv session_ok_begin[of a "sv_db s" False] k unfolding server_inv_def begin_step(1) begin_session_def by simp
next
  case (stmt_step i ss st fs)
  have ok: "session_ok (sv_db s) ss" "gapless (ss_agent ss) (sv_db s)"
    using assms(2) stmt_step(2) by (auto simp: server_inv_def)
  have "ss_agent (session_after q ss r) = ss_agent ss" for q r
    by (simp add: session_after_def split: prod.split sum.split)
  then show ?thesis
    using assms(2) stmt_step(1,2) session_ok_stmt[OF ok stmt_step(4)] by (auto simp: server_inv_def run_in_session_def)
next
  case (commit_step i ss)
  have ok: "session_ok (sv_db s) ss" and lock: "\<exists>k. key (ss_agent ss) = Some k \<and> sv_locks s k = Some i"
    using assms(2) commit_step(2) by (auto simp: server_inv_def)
  have own: "rows_of_agent (ss_agent ss) (ss_new ss)" using ok by (simp add: session_ok_def)
  have "gapless a (pg_union (sv_db s) (ss_new ss))" for a
  proof (cases "a = ss_agent ss")
    case False
    then have "agent_seqs a (pg_union (sv_db s) (ss_new ss)) = agent_seqs a (sv_db s)"
      using rows_of_agent_seqs[OF own] by simp
    then show ?thesis using assms(2) gapless_cong by (metis server_inv_def)
  qed (use ok in \<open>simp add: session_ok_def\<close>)
  moreover have "session_ok (pg_union (sv_db s) (ss_new ss)) sj
      \<and> (\<exists>k. key (ss_agent sj) = Some k \<and> release_locks i (sv_locks s) k = Some j)"
    if j: "sv_sessions s j = Some sj" "j \<noteq> i" for j sj
  proof -
    have oj: "session_ok (sv_db s) sj" "\<exists>k. key (ss_agent sj) = Some k \<and> sv_locks s k = Some j"
      using assms(2) j(1) by (auto simp: server_inv_def)
    then have "ss_agent ss \<noteq> ss_agent sj" using lock j(2) by auto
    moreover have "release_locks i (sv_locks s) k = Some j" if "sv_locks s k = Some j" for k
      using that j(2) by (simp add: release_locks_def)
    ultimately show ?thesis using session_ok_other[OF oj(1) own] oj(2) by blast
  qed
  ultimately show ?thesis
    using commit_step(1) by (auto simp: server_inv_def commit_session_def end_session_def split: if_splits)
next
  case (rollback_step i ss)
  have "release_locks i (sv_locks s) k = Some j" if "sv_locks s k = Some j" "j \<noteq> i" for k j
    using that by (simp add: release_locks_def)
  then show ?thesis
    using assms(2) unfolding server_inv_def rollback_step(1) end_session_def by simp blast
qed

lemma server_inv_run:
  assumes "server_run key s s'" "server_inv key s" "\<And>a. key a \<noteq> None"
  shows "server_inv key s'"
  using assms by (induction rule: server_run.induct) (auto intro: server_inv_step)

lemma server_inv_idle: "(\<And>a. gapless a q) \<Longrightarrow> server_inv key (idle_server q)"
  by (simp add: server_inv_def idle_server_def)

end
