(* ===== verification/Postgres_Properties.thy ===== *)
theory Postgres_Properties
  imports Postgres_Server Samples
begin

text \<open>Properties of the PostgreSQL adapter: the sequence numbers of concurrent transactions, the
  rows, the expiry of pending rows, the runs of the engine, and the agreement with the SQLite adapter.\<close>

section \<open>Samples\<close>

definition pg_fresh :: pg_world where
  "pg_fresh = \<lparr>pw_db = empty_pg_db, pw_faults = [], pw_read_error = (\<lambda>_. None)\<rparr>"

definition pg_world1 :: pg_world where
  "pg_world1 = snd (ingest_execute postgres_port (Some postgres_queue) (Some sample_oracle) sample_config
     (sample_ids 1) (sample_request ''x'' None) 10 pg_fresh)"

definition pg_world2 :: pg_world where
  "pg_world2 = snd (ingest_execute postgres_port (Some postgres_queue) (Some sample_oracle) sample_config
     (sample_ids 11) (sample_request ''y'' None) 20 pg_world1)"

lemma pg_fresh_wf: "db_wf (pg_disk pg_fresh)"
  by (simp add: pg_disk_def pg_fresh_def abs_db_def empty_pg_db_def db_wf_def)

lemma pg_sample_runs:
  "pg_engine_run sample_config 10 pg_fresh 10 pg_world1"
  "pg_engine_run sample_config 20 pg_world1 20 pg_world2"
  unfolding pg_world1_def pg_world2_def by (rule run_step[OF run_refl _ step_ingest]; simp)+

lemma pg_sample_wf: "db_wf (pg_disk pg_world1)" "db_wf (pg_disk pg_world2)"
  using postgres_runs.run_wf pg_sample_runs pg_fresh_wf by blast+

text \<open>The tables without the queue, whose times are rounded.\<close>

definition without_queue :: "db \<Rightarrow> db" where
  "without_queue d = d\<lparr>db_pending := []\<rparr>"

lemma recall_spec_without_queue: "recall_spec cfg (without_queue d) req now = recall_spec cfg d req now"
proof -
  have "line_of (without_queue d) = line_of d" "assertions_of (without_queue d) = assertions_of d"
    "ledger_slice (without_queue d) = ledger_slice d"
    by (intro ext, simp add: without_queue_def line_of_def assertions_of_def ledger_slice_def ledger_of_chunk_def)+
  then show ?thesis by (simp add: recall_spec_def recall_fold_def recall_line_def)
qed

lemma pg_sample_same: "without_queue (pg_disk pg_world2) = without_queue (sqlite_disk world2)"
  by code_simp

definition pg_sample_recall :: "pg_world \<Rightarrow> belief_projection" where
  "pg_sample_recall w = projr (query_memory_execute postgres_port sample_config (sample_query None None) 30 w)"

definition pg_sample_row :: pending_row where
  "pg_sample_row = (hd (db_pending (sqlite_disk world2)))\<lparr>pa_handle_id := 91, pa_expires_at := Some 2500\<rparr>"

text \<open>Two sessions of two agents, their statements interleaved.\<close>

definition sample_pg_claim :: "agent_id \<Rightarrow> uuid \<Rightarrow> claim" where
  "sample_pg_claim a u = (request_claim (sample_request ''x'' None) 10 u)\<lparr>cl_agent_id := a\<rparr>"

definition sample_pg_entry :: "agent_id \<Rightarrow> uuid \<Rightarrow> ledger_entry" where
  "sample_pg_entry a u = \<lparr>le_entry_id = u + 100, le_agent_id = a, le_claim_ref = u, le_event_kind = ClaimCommitted,
     le_disposition = CommittedCheap, le_rationale = None, le_recorded_at = 10\<rparr>"

definition sample_key :: "agent_id \<Rightarrow> int option" where
  "sample_key a = Some (if a = ''a'' then 1 else 2)"

definition session_of :: "nat \<Rightarrow> pg_server \<Rightarrow> pg_session" where
  "session_of i s = the (sv_sessions s i)"

definition do_stmt :: "nat \<Rightarrow> pg_stmt \<Rightarrow> pg_server \<Rightarrow> pg_server" where
  "do_stmt i st s = run_in_session i st [] (session_of i s) s"

definition takes :: "nat \<Rightarrow> pg_stmt \<Rightarrow> pg_server \<Rightarrow> bool" where
  "takes i st s = (sv_sessions s i \<noteq> None \<and> \<not> ss_aborted (session_of i s)
     \<and> stmt_agent (ss_agent (session_of i s)) st = ss_agent (session_of i s))"

lemma do_stmt_run: "server_run key s0 s \<Longrightarrow> takes i st s \<Longrightarrow> server_run key s0 (do_stmt i st s)"
  unfolding do_stmt_def by (erule server_next, rule stmt_step) (auto simp: takes_def session_of_def)

definition sample_started :: "(agent_id \<Rightarrow> int option) \<Rightarrow> agent_id \<Rightarrow> agent_id \<Rightarrow> pg_server" where
  "sample_started key a b = begin_session key 1 b (begin_session key 0 a (idle_server empty_pg_db))"

definition sample_interleaved :: pg_server where
  "sample_interleaved =
     do_stmt 0 QuerySeq (do_stmt 0 (InsertLedger (sample_pg_entry ''a'' 1)) (do_stmt 1 QuerySeq (do_stmt 0 QuerySeq
       (do_stmt 1 (InsertClaim (sample_pg_claim ''b'' 2)) (do_stmt 0 (InsertClaim (sample_pg_claim ''a'' 1))
         (sample_started sample_key ''a'' ''b''))))))"

lemma sample_started_run:
  assumes "\<And>k. key b = Some k \<Longrightarrow> key a \<noteq> Some k"
  shows "server_run key (idle_server empty_pg_db) (sample_started key a b)"
  unfolding sample_started_def
  by (intro server_next[OF server_next[OF server_refl begin_step] begin_step])
    (use assms in \<open>auto simp: idle_server_def begin_session_def split: option.splits\<close>)

lemma sample_interleaved_run: "server_run sample_key (idle_server empty_pg_db) sample_interleaved"
  unfolding sample_interleaved_def
  by (intro do_stmt_run sample_started_run) (simp add: sample_key_def, code_simp+)

lemma sample_session: "sv_sessions sample_interleaved 0 = Some (session_of 0 sample_interleaved)"
  "ss_seq (session_of 0 sample_interleaved) = Some 2" "ss_agent (session_of 0 sample_interleaved) = ''a''"
  "p_ledger (ss_new (session_of 0 sample_interleaved)) = [\<lparr>pl_row = ledger_to_row (sample_pg_entry ''a'' 1), pl_stream_seq = 1\<rparr>]"
proof -
  have "sv_sessions sample_interleaved 0 \<noteq> None" by code_simp
  then show "sv_sessions sample_interleaved 0 = Some (session_of 0 sample_interleaved)"
    by (auto simp: session_of_def)
qed code_simp+

section \<open>Concurrent transactions\<close>

text \<open>C20. The sequence numbers of an agent's ledger are 1, 2, 3 and so on without a gap, in the order
  of commit, after any interleaving of the statements, commits and rollbacks of any number of sessions, as
  long as every session takes the advisory lock of its agent.\<close>

theorem stream_seqs_have_no_gap:
  assumes "server_run key (idle_server q) s" "\<forall>a. key a \<noteq> None" "\<forall>a. agent_seqs a q = []"
  shows "agent_seqs a (sv_db s) = map int [1..<Suc (length (agent_seqs a (sv_db s)))]"
proof -
  have "gapless b q" for b using assms(3) by (simp add: gapless_def)
  then have "server_inv key s" using server_inv_run[OF assms(1) server_inv_idle] assms(2) by blast
  then show ?thesis by (simp add: server_inv_def gapless_def)
qed

text \<open>C23. The constraint UNIQUE(agent_id, stream_seq) is never in the way: while a session holds a number
  it has queried, no row of the agent with that number exists, committed or not.\<close>

theorem occ_constraint_never_fires:
  assumes "server_run key (idle_server q) s" "\<forall>a. key a \<noteq> None" "\<forall>a. agent_seqs a q = []"
    and "sv_sessions s i = Some ss" "ss_seq ss = Some n"
    and "r \<in> set (p_ledger (sv_db s)) \<or> (\<exists>j sj. sv_sessions s j = Some sj \<and> r \<in> set (p_ledger (ss_new sj)))"
    and "rl_agent_id (pl_row r) = ss_agent ss"
  shows "pl_stream_seq r < n"
proof -
  have "gapless b q" for b using assms(3) by (simp add: gapless_def)
  then have inv: "server_inv key s" using server_inv_run[OF assms(1) server_inv_idle] assms(2) by blast
  then have ok: "session_ok (sv_db s) ss" using assms(4) by (simp add: server_inv_def)
  have "r \<in> set (p_ledger (pg_union (sv_db s) (ss_new ss)))"
    using assms(6)
  proof (elim disjE exE conjE)
    fix j sj assume j: "sv_sessions s j = Some sj" "r \<in> set (p_ledger (ss_new sj))"
    have "ss_agent sj = ss_agent ss"
      using inv j assms(7) by (auto simp: server_inv_def session_ok_def rows_of_agent_def list_all_iff)
    then have "j = i" using inv j(1) assms(4) unfolding server_inv_def by (metis option.inject)
    then show ?thesis using j assms(4) by (simp add: pg_union_def)
  qed (simp add: pg_union_def)
  then show ?thesis using gapless_fresh[of "ss_agent ss" _ r] ok assms(5,7) by (auto simp: session_ok_def)
qed

theorem stream_seqs_have_no_gap_witness:
  "agent_seqs ''a'' (sv_db (commit_session 0 (session_of 0 sample_interleaved) sample_interleaved)) = [1]"
proof -
  let ?s = "commit_session 0 (session_of 0 sample_interleaved) sample_interleaved"
  have "server_run sample_key (idle_server empty_pg_db) ?s"
    by (rule server_next[OF sample_interleaved_run commit_step[OF sample_session(1)]])
  from stream_seqs_have_no_gap[OF this, of "''a''"]
  have "agent_seqs ''a'' (sv_db ?s) = map int [1..<Suc (length (agent_seqs ''a'' (sv_db ?s)))]"
    by (simp add: sample_key_def)
  moreover have "length (agent_seqs ''a'' (sv_db ?s)) = 1" by code_simp
  ultimately show ?thesis by simp
qed

theorem occ_constraint_never_fires_witness:
  "pl_stream_seq (hd (p_ledger (ss_new (session_of 0 sample_interleaved)))) < 2"
proof -
  have "pl_stream_seq \<lparr>pl_row = ledger_to_row (sample_pg_entry ''a'' 1), pl_stream_seq = 1\<rparr> < 2"
    by (rule occ_constraint_never_fires[OF sample_interleaved_run _ _ sample_session(1,2)])
      (use sample_session in \<open>auto simp: sample_key_def ledger_to_row_def sample_pg_entry_def intro: exI[of _ 0]\<close>)
  then show ?thesis by (simp add: sample_session(4))
qed

text \<open>The lock is what this rests on. Without it two sessions of one agent query the same number, and the
  second insert is refused.\<close>

definition sample_unlocked :: pg_server where
  "sample_unlocked =
     do_stmt 1 QuerySeq (do_stmt 0 QuerySeq
       (do_stmt 1 (InsertClaim (sample_pg_claim ''a'' 2)) (do_stmt 0 (InsertClaim (sample_pg_claim ''a'' 1))
         (sample_started (\<lambda>_. None) ''a'' ''a''))))"

definition sample_refused :: pg_server where
  "sample_refused = do_stmt 1 (InsertLedger (sample_pg_entry ''a'' 2))
     (let s = do_stmt 0 (InsertLedger (sample_pg_entry ''a'' 1)) sample_unlocked in commit_session 0 (session_of 0 s) s)"

theorem max_plus_one_needs_the_lock:
  "\<exists>s ss. server_run (\<lambda>_. None) (idle_server empty_pg_db) s \<and> sv_sessions s 1 = Some ss \<and> ss_aborted ss"
proof -
  let ?s = "do_stmt 0 (InsertLedger (sample_pg_entry ''a'' 1)) sample_unlocked"
  have some: "sv_sessions ?s 0 \<noteq> None" by code_simp
  have "server_run (\<lambda>_. None) (idle_server empty_pg_db) ?s"
    unfolding sample_unlocked_def by (intro do_stmt_run sample_started_run) (simp, code_simp+)
  then have "server_run (\<lambda>_. None) (idle_server empty_pg_db) (commit_session 0 (session_of 0 ?s) ?s)"
    by (rule server_next, intro commit_step) (use some in \<open>auto simp: session_of_def\<close>)
  then have "server_run (\<lambda>_. None) (idle_server empty_pg_db) sample_refused"
    unfolding sample_refused_def Let_def by (rule do_stmt_run) code_simp
  moreover have "sv_sessions sample_refused 1 \<noteq> None" "ss_aborted (the (sv_sessions sample_refused 1))" by code_simp+
  ultimately show ?thesis by force
qed

section \<open>Rows and times\<close>

text \<open>Rows read back as in the SQLite adapter, and the two 32-bit numbers of a claim fit the signed columns.\<close>

theorem postgres_rows_roundtrip:
  "pg_row_to_claim (pg_claim_to_row c) = Inr (stored_claim c)
   \<and> - (2 ^ 31) \<le> rc_derivation_depth (pg_claim_to_row c) \<and> rc_derivation_depth (pg_claim_to_row c) < 2 ^ 31
   \<and> pg_row_to_assertion (assertion_to_row a) = Inr a
   \<and> pg_row_to_ledger \<lparr>pl_row = ledger_to_row e, pl_stream_seq = n\<rparr> = Inr e
   \<and> pg_row_to_edge (edge_to_row ed) = Inr ed"
proof -
  have "- (2 ^ 31) \<le> sint (x :: 32 word)" "sint x < 2 ^ 31" for x
    using sint_ge[of x] sint_lt[of x] by simp_all
  then show ?thesis
    by (simp add: pg_row_to_claim_to_row pg_row_to_assertion_to_row pg_row_to_ledger_to_row pg_row_to_edge_to_row)
      (simp add: pg_claim_to_row_def)
qed

text \<open>C40. The queue keeps times to the microsecond: a row inserted with an expiry is listed as expired
  from its expiry on, and at most one microsecond before.\<close>

theorem expiry_is_never_late:
  assumes "pg_insert_pending row w = (Inr (), w')" "pa_expires_at row = Some t" "pa_status row = ''pending''"
    and "pg_list_expired w' now = Inr rs"
  shows "(t \<le> now \<longrightarrow> pg_stored row \<in> set rs) \<and> (pg_stored row \<in> set rs \<longrightarrow> t < now + 1000)"
proof -
  have disk: "pg_disk w' = add_pending (pg_stored row) (pg_disk w)"
    using postgres_q.insert_ok[of row w "()" w'] assms(1) by (simp add: postgres_queue_ops)
  have rs: "rs = expired_of (pg_disk w') now"
    using postgres_q.read_expired[of w' now rs] assms(4) by (simp add: postgres_queue_ops)
  have "pg_stored row \<in> set rs \<longleftrightarrow> 1000 * to_micros t \<le> now"
    by (auto simp: rs expired_of_def disk add_pending_def assms(2,3) pg_stored_def pending_to_pg_def)
  then show ?thesis using micros_bounds[of t] by auto
qed

theorem expiry_is_never_late_witness:
  "pg_stored pg_sample_row \<in> set (projr (pg_list_expired (snd (pg_insert_pending pg_sample_row pg_fresh)) 2500))"
proof -
  let ?w = "snd (pg_insert_pending pg_sample_row pg_fresh)"
  have "fst (pg_insert_pending pg_sample_row pg_fresh) = Inr ()" by code_simp
  then have i: "pg_insert_pending pg_sample_row pg_fresh = (Inr (), ?w)" by (simp add: prod_eq_iff)
  have "\<not> isl (pg_list_expired ?w 2500)" by code_simp
  then have l: "pg_list_expired ?w 2500 = Inr (projr (pg_list_expired ?w 2500))" by simp
  have "pa_expires_at pg_sample_row = Some 2500" "pa_status pg_sample_row = ''pending''" by code_simp+
  from expiry_is_never_late[OF i this l] show ?thesis by simp
qed

section \<open>The engine over PostgreSQL\<close>





end
