(* ===== verification/Facade.thy ===== *)
theory Facade
  imports Engine_Locks
begin

text \<open>The facade crate: \<^verbatim>\<open>mempill-facade/src/ergonomic.rs\<close> and \<^verbatim>\<open>date.rs\<close>, and the lenient dates of
  \<^verbatim>\<open>mempill-types/src/time.rs\<close>. The seam traits (\<^verbatim>\<open>CanIngestClaim\<close> and the others) are arguments, the functions
  \<^verbatim>\<open>_ergo\<close>; \<^verbatim>\<open>handle_ingest_ergo\<close> and the others are their implementation by \<^verbatim>\<open>EngineHandle\<close>, one complete call on
  the world of that moment.

  The calendar is chrono's, which is not in the repository: \<^verbatim>\<open>date_parsers\<close> holds its parsers. Texts are ASCII
  here. The hints of the errors are constants and left out.\<close>

section \<open>Dates\<close>

record date_parsers =
  dp_datetime :: "string \<Rightarrow> instant option"
  dp_ymd :: "string \<Rightarrow> instant option"
  dp_year :: "int \<Rightarrow> instant option"

definition is_space :: "char \<Rightarrow> bool" where
  "is_space c = (of_char c = (32 :: nat) \<or> (9 \<le> (of_char c :: nat) \<and> (of_char c :: nat) \<le> 13))"

definition trim :: "string \<Rightarrow> string" where
  "trim s = rev (dropWhile is_space (rev (dropWhile is_space s)))"

definition is_digit :: "char \<Rightarrow> bool" where
  "is_digit c = (48 \<le> (of_char c :: nat) \<and> (of_char c :: nat) \<le> 57)"

definition parse_digits :: "string \<Rightarrow> int" where
  "parse_digits s = foldl (\<lambda>n c. 10 * n + (int (of_char c) - 48)) 0 s"

definition char_at :: "string \<Rightarrow> nat \<Rightarrow> char option" where
  "char_at s n = (if n < length s then Some (s ! n) else None)"

definition day_form :: "string \<Rightarrow> bool" where
  "day_form s = (length s = 10 \<and> char_at s 4 = Some CHR ''-'' \<and> char_at s 7 = Some CHR ''-'')"

definition month_form :: "string \<Rightarrow> bool" where
  "month_form s = (length s = 7 \<and> char_at s 4 = Some CHR ''-'')"

definition year_form :: "string \<Rightarrow> bool" where
  "year_form s = (length s = 4 \<and> list_all is_digit s)"

definition parse_valid_time_date :: "date_parsers \<Rightarrow> string \<Rightarrow> (instant \<times> date_granularity) option" where
  "parse_valid_time_date D input =
     (let s = trim input;
          year = (if year_form s then map_option (\<lambda>t. (t, Year)) (dp_year D (parse_digits s)) else None);
          month = (case (if month_form s then dp_ymd D (s @ ''-01'') else None) of
                     Some t \<Rightarrow> Some (t, Month) | None \<Rightarrow> year);
          day = (case (if day_form s then dp_ymd D s else None) of Some t \<Rightarrow> Some (t, Day) | None \<Rightarrow> month)
      in case dp_datetime D s of Some t \<Rightarrow> Some (t, Instant) | None \<Rightarrow> day)"

section \<open>Errors and options\<close>

datatype 'e dx_error =
    UnparsableDate string
  | IncoherentDates message message
  | EngineError "'e mem_error"
  | NoLiveClaimForClose string string

definition parse_lenient_date :: "date_parsers \<Rightarrow> string \<Rightarrow> ('e dx_error, instant) res" where
  "parse_lenient_date D input =
     (let s = trim input
      in if s = [] then Inl (UnparsableDate s)
         else ok_or (UnparsableDate s) (map_option fst (parse_valid_time_date D s)))"

record remember_options =
  ro_valid_from :: "string option"
  ro_valid_until :: "string option"
  ro_confidence :: "f32 option"
  ro_criticality :: "criticality option"
  ro_derived_from :: "claim_ref list"

definition remember_options_new :: remember_options where
  "remember_options_new = \<lparr>ro_valid_from = None, ro_valid_until = None, ro_confidence = None,
     ro_criticality = None, ro_derived_from = []\<rparr>"

record request_builder =
  ib_agent_id :: agent_id
  ib_subject :: string
  ib_predicate :: string
  ib_value :: json
  ib_valid_from :: "string option"
  ib_valid_until :: "string option"
  ib_confidence :: "f32 option"
  ib_cardinality :: "cardinality option"
  ib_provenance :: "provenance_label option"
  ib_criticality :: "criticality option"
  ib_derived_from :: "claim_ref list"

definition request_builder_of :: "agent_id \<Rightarrow> string \<Rightarrow> string \<Rightarrow> json \<Rightarrow> request_builder" where
  "request_builder_of a s p v = \<lparr>ib_agent_id = a, ib_subject = s, ib_predicate = p, ib_value = v,
     ib_valid_from = None, ib_valid_until = None, ib_confidence = None, ib_cardinality = None,
     ib_provenance = None, ib_criticality = None, ib_derived_from = []\<rparr>"

text \<open>An endpoint with its precision; no text, no endpoint.\<close>

definition parse_endpoint ::
    "date_parsers \<Rightarrow> string option \<Rightarrow> ('e dx_error, instant option \<times> date_granularity option) res" where
  "parse_endpoint D s =
     (case s of
        None \<Rightarrow> Inr (None, None)
      | Some t \<Rightarrow> and_then (ok_or (UnparsableDate t) (parse_valid_time_date D t)) (\<lambda>(dt, g). Inr (Some dt, Some g)))"

definition user_asserted :: provenance_label where
  "user_asserted = External UserAsserted"

definition opt_or :: "'a \<Rightarrow> 'a option \<Rightarrow> 'a" where
  "opt_or d x = (case x of Some y \<Rightarrow> y | None \<Rightarrow> d)"

definition build_request :: "date_parsers \<Rightarrow> request_builder \<Rightarrow> ('e dx_error, ingest_request) res" where
  "build_request D b =
     (let value_confidence = opt_or (F32 1) (ib_confidence b);
          has_dates = (ib_valid_from b \<noteq> None \<or> ib_valid_until b \<noteq> None);
          vtc = (if has_dates then value_confidence else F32 0)
      in and_then (parse_endpoint D (ib_valid_from b)) (\<lambda>(start, start_granularity).
         and_then (parse_endpoint D (ib_valid_until b)) (\<lambda>(end', end_granularity).
         and_then (case (start, end') of
                     (Some s, Some e) \<Rightarrow> if s \<ge> e then Inl (IncoherentDates [Rfc3339 s] [Rfc3339 e]) else Inr ()
                   | _ \<Rightarrow> Inr ()) (\<lambda>_.
         Inr \<lparr>iq_agent_id = ib_agent_id b, iq_subject = ib_subject b, iq_predicate = ib_predicate b,
              iq_value = ib_value b, iq_provenance = opt_or user_asserted (ib_provenance b),
              iq_cardinality = opt_or Functional (ib_cardinality b),
              iq_valid_time =
                (if has_dates
                 then Some \<lparr>vt_start = start, vt_end = end', vt_confidence = vtc,
                            vt_start_granularity = start_granularity, vt_end_granularity = end_granularity\<rparr>
                 else None),
              iq_confidence = \<lparr>cf_value_confidence = value_confidence, cf_valid_time_confidence = vtc\<rparr>,
              iq_criticality = opt_or Medium (ib_criticality b),
              iq_derived_from = ib_derived_from b\<rparr>))))"

section \<open>Results\<close>

record remember_receipt =
  rr_claim_ref :: claim_ref
  rr_disposition :: disposition
  rr_contested_with :: "claim_ref list"

record belief_detail =
  bd_claim_ref :: claim_ref
  bd_value :: json
  bd_valid_from :: "instant option"
  bd_valid_until :: "instant option"
  bd_valid_from_granularity :: "date_granularity option"
  bd_valid_until_granularity :: "date_granularity option"
  bd_value_confidence :: f32
  bd_provenance :: string
  bd_corroboration_count :: "32 word"

record contest_candidate =
  cc_value :: json
  cc_claim_ref :: claim_ref
  cc_valid_from :: "instant option"
  cc_detail :: belief_detail

record recall_result =
  rc_result_value :: "json option"
  rc_status :: belief_status
  rc_candidates :: "contest_candidate list"
  rc_currency :: currency_state
  rc_is_stale :: bool
  rc_primary :: "belief_detail option"

fun json_as_str :: "json \<Rightarrow> string option" where
  "json_as_str (JStr s) = Some s"
| "json_as_str _ = None"

definition as_str :: "recall_result \<Rightarrow> string option" where
  "as_str r = Option.bind (rc_result_value r) json_as_str"

definition is_contested :: "recall_result \<Rightarrow> bool" where
  "is_contested r = (rc_status r = BS_Contested \<or> rc_status r = BS_Conflict)"

definition is_empty_result :: "recall_result \<Rightarrow> bool" where
  "is_empty_result r = (rc_status r = BS_NoBelief)"

definition history_is_empty :: "history_entry list \<Rightarrow> bool" where
  "history_is_empty entries = (entries = [])"

section \<open>Remember, recall, history\<close>

text \<open>\<^verbatim>\<open>serde_json::to_value\<close> of the host's value is the argument \<^verbatim>\<open>value\<close>.\<close>

definition then_if :: "'o option \<Rightarrow> ('b \<Rightarrow> 'o \<Rightarrow> 'b) \<Rightarrow> 'b \<Rightarrow> 'b" where
  "then_if x f b = (case x of Some v \<Rightarrow> f b v | None \<Rightarrow> b)"

definition remember_builder :: "agent_id \<Rightarrow> string \<Rightarrow> string \<Rightarrow> json \<Rightarrow> remember_options \<Rightarrow> request_builder" where
  "remember_builder a s p v opts =
     (let b0 = request_builder_of a s p v;
          b1 = then_if (ro_valid_from opts) (\<lambda>b x. b\<lparr>ib_valid_from := Some x\<rparr>) b0;
          b2 = then_if (ro_valid_until opts) (\<lambda>b x. b\<lparr>ib_valid_until := Some x\<rparr>) b1;
          b3 = then_if (ro_confidence opts) (\<lambda>b x. b\<lparr>ib_confidence := Some x\<rparr>) b2;
          b4 = then_if (ro_criticality opts) (\<lambda>b x. b\<lparr>ib_criticality := Some x\<rparr>) b3
      in b4\<lparr>ib_derived_from := ro_derived_from opts\<rparr>)"

definition remember ::
    "(ingest_request \<Rightarrow> 'w \<Rightarrow> ('e mem_error, ingest_response) res \<times> 'w) \<Rightarrow> date_parsers \<Rightarrow> agent_id \<Rightarrow> string \<Rightarrow> string
       \<Rightarrow> (message, json) res \<Rightarrow> remember_options \<Rightarrow> 'w \<Rightarrow> ('e dx_error, remember_receipt) res \<times> 'w" where
  "remember ingest_ergo D a s p value opts w =
     (case value of
        Inl reason \<Rightarrow> (Inl (EngineError (MalformedFact reason)), w)
      | Inr v \<Rightarrow>
          (case build_request D (remember_builder a s p v opts) of
             Inl e \<Rightarrow> (Inl e, w)
           | Inr req \<Rightarrow>
               (case ingest_ergo req w of
                  (Inl e, w') \<Rightarrow> (Inl (EngineError e), w')
                | (Inr resp, w') \<Rightarrow>
                    (Inr \<lparr>rr_claim_ref = ir_claim_ref resp, rr_disposition = ir_disposition resp,
                          rr_contested_with = ir_contested_with resp\<rparr>, w'))))"

fun provenance_label_str :: "provenance_label \<Rightarrow> string" where
  "provenance_label_str (External UserAsserted) = ''External/UserAsserted''"
| "provenance_label_str (External ExternalFirstHand) = ''External/ExternalFirstHand''"
| "provenance_label_str RecallReEntry = ''RecallReEntry''"
| "provenance_label_str ModelDerived = ''ModelDerived''"

definition make_detail :: "belief \<Rightarrow> belief_detail" where
  "make_detail b = \<lparr>bd_claim_ref = be_claim_ref b, bd_value = fa_value (be_fact b),
     bd_valid_from = vt_start (be_valid_time b), bd_valid_until = vt_end (be_valid_time b),
     bd_valid_from_granularity = vt_start_granularity (be_valid_time b),
     bd_valid_until_granularity = vt_end_granularity (be_valid_time b),
     bd_value_confidence = cf_value_confidence (be_confidence b),
     bd_provenance = provenance_label_str (be_provenance b),
     bd_corroboration_count = cs_corroboration_count (be_currency_signal b)\<rparr>"

definition make_candidate :: "belief \<Rightarrow> contest_candidate" where
  "make_candidate b = \<lparr>cc_value = fa_value (be_fact b), cc_claim_ref = be_claim_ref b,
     cc_valid_from = vt_start (be_valid_time b), cc_detail = make_detail b\<rparr>"

definition recall_result_of :: "belief_projection \<Rightarrow> recall_result" where
  "recall_result_of bp =
     (let (value, candidates, primary) =
        (case bp_status bp of
           BS_Contested \<Rightarrow> (None, map make_candidate (List.map_filter id [bp_primary bp] @ bp_alternatives bp), None)
         | BS_Conflict \<Rightarrow> (None, map make_candidate (List.map_filter id [bp_primary bp] @ bp_alternatives bp), None)
         | BS_NoBelief \<Rightarrow> (None, [], None)
         | BS_TimingUncertain \<Rightarrow> (map_option (\<lambda>b. fa_value (be_fact b)) (bp_primary bp), [],
             map_option make_detail (bp_primary bp))
         | BS_Resolved \<Rightarrow> (map_option (\<lambda>b. fa_value (be_fact b)) (bp_primary bp), [],
             map_option make_detail (bp_primary bp)))
      in \<lparr>rc_result_value = value, rc_status = bp_status bp, rc_candidates = candidates,
          rc_currency = bp_currency bp, rc_is_stale = sf_is_stale (bp_staleness bp), rc_primary = primary\<rparr>)"

definition recall_request :: "agent_id \<Rightarrow> string \<Rightarrow> string \<Rightarrow> query_memory_request" where
  "recall_request a s p = \<lparr>qm_agent_id = a, qm_subject = s, qm_predicate = p, qm_as_of_tx_time = None, qm_valid_at = None\<rparr>"

definition recall ::
    "(query_memory_request \<Rightarrow> 'w \<Rightarrow> ('e mem_error, belief_projection) res) \<Rightarrow> agent_id \<Rightarrow> string \<Rightarrow> string \<Rightarrow> 'w
       \<Rightarrow> ('e dx_error, recall_result) res" where
  "recall query_ergo a s p w =
     and_then (map_err EngineError (query_ergo (recall_request a s p) w)) (\<lambda>bp. Inr (recall_result_of bp))"

definition history ::
    "(query_history_request \<Rightarrow> 'w \<Rightarrow> ('e mem_error, history_entry list) res) \<Rightarrow> agent_id \<Rightarrow> string \<Rightarrow> string \<Rightarrow> 'w
       \<Rightarrow> ('e dx_error, history_entry list) res" where
  "history query_history_ergo a s p w =
     map_err EngineError (query_history_ergo \<lparr>qh_agent_id = a, qh_subject = s, qh_predicate = p\<rparr> w)"

section \<open>Ending a fact\<close>

record end_fact_options =
  eo_provenance :: "provenance_label option"
  eo_confidence :: "f32 option"

definition end_fact_options_new :: end_fact_options where
  "end_fact_options_new = \<lparr>eo_provenance = None, eo_confidence = None\<rparr>"

record end_fact_receipt =
  er_claim_ref :: claim_ref
  er_disposition :: disposition
  er_effective_at :: instant
  er_no_op :: bool

definition assert_validity ::
    "(assert_validity_request \<Rightarrow> 'w \<Rightarrow> ('e mem_error, assert_validity_response) res \<times> 'w) \<Rightarrow> assert_validity_request \<Rightarrow> 'w
       \<Rightarrow> ('e dx_error, assert_validity_response) res \<times> 'w" where
  "assert_validity assert_ergo req w = (case assert_ergo req w of (r, w') \<Rightarrow> (map_err EngineError r, w'))"

definition bound_request ::
    "agent_id \<Rightarrow> claim_ref \<Rightarrow> instant \<times> date_granularity \<Rightarrow> end_fact_options \<Rightarrow> assert_validity_request" where
  "bound_request a target bound opts =
     (let value_confidence = opt_or (F32 1) (eo_confidence opts)
      in \<lparr>aq_agent_id = a, aq_target = target, aq_assertion = AI_Bound (fst bound) (Some (snd bound)),
          aq_provenance = opt_or user_asserted (eo_provenance opts),
          aq_confidence = \<lparr>cf_value_confidence = value_confidence, cf_valid_time_confidence = value_confidence\<rparr>\<rparr>)"

text \<open>Between the resolution and the assertion, which waits for the agent's lock, other calls may run:
  \<^verbatim>\<open>others\<close> is what they make of the world.\<close>

definition end_fact ::
    "(agent_id \<Rightarrow> string \<Rightarrow> string \<Rightarrow> 'w \<Rightarrow> ('e mem_error, live_claim_resolution) res)
       \<Rightarrow> (assert_validity_request \<Rightarrow> 'w \<Rightarrow> ('e mem_error, assert_validity_response) res \<times> 'w)
       \<Rightarrow> date_parsers \<Rightarrow> agent_id \<Rightarrow> string \<Rightarrow> string \<Rightarrow> string \<Rightarrow> end_fact_options \<Rightarrow> ('w \<Rightarrow> 'w) \<Rightarrow> 'w
       \<Rightarrow> ('e dx_error, end_fact_receipt) res \<times> 'w" where
  "end_fact resolve_ergo assert_ergo D a s p at_str opts others w =
     (case parse_valid_time_date D at_str of
        None \<Rightarrow> (Inl (UnparsableDate at_str), w)
      | Some bound \<Rightarrow>
          (case resolve_ergo a s p w of
             Inl e \<Rightarrow> (Inl (EngineError e), w)
           | Inr LR_Empty \<Rightarrow> (Inl (NoLiveClaimForClose s p), w)
           | Inr (LR_Ambiguous n) \<Rightarrow> (Inl (EngineError (AmbiguousLineForClose s p n)), w)
           | Inr (LR_Single target) \<Rightarrow>
               (case assert_ergo (bound_request a target bound opts) (others w) of
                  (Inl e, w') \<Rightarrow> (Inl (EngineError e), w')
                | (Inr resp, w') \<Rightarrow>
                    (Inr \<lparr>er_claim_ref = as_claim_ref resp, er_disposition = as_disposition resp,
                          er_effective_at = opt_or (fst bound) (as_effective_at resp), er_no_op = as_no_op resp\<rparr>, w'))))"

section \<open>The engine behind the seams\<close>

definition handle_ingest_ergo ::
    "('w, 't, 'e) engine_handle \<Rightarrow> (nat \<Rightarrow> uuid) \<Rightarrow> instant \<Rightarrow> ingest_request \<Rightarrow> 'w \<Rightarrow> ('e mem_error, ingest_response) res \<times> 'w" where
  "handle_ingest_ergo H ids now req w =
     ingest_execute (eh_persistence H) (eh_pending_store H) (eh_oracle H) (eh_config H) ids req now w"

definition handle_query_ergo ::
    "('w, 't, 'e) engine_handle \<Rightarrow> instant \<Rightarrow> query_memory_request \<Rightarrow> 'w \<Rightarrow> ('e mem_error, belief_projection) res" where
  "handle_query_ergo H now req w = handle_query_memory H req now w"

definition handle_history_ergo ::
    "('w, 't, 'e) engine_handle \<Rightarrow> instant \<Rightarrow> query_history_request \<Rightarrow> 'w \<Rightarrow> ('e mem_error, history_entry list) res" where
  "handle_history_ergo H now req w = handle_query_history H req now w"

definition handle_resolve_ergo ::
    "('w, 't, 'e) engine_handle \<Rightarrow> instant \<Rightarrow> agent_id \<Rightarrow> string \<Rightarrow> string \<Rightarrow> 'w \<Rightarrow> ('e mem_error, live_claim_resolution) res" where
  "handle_resolve_ergo H now a s p w = handle_resolve_live_claim H a s p now w"

definition handle_assert_ergo ::
    "('w, 't, 'e) engine_handle \<Rightarrow> (nat \<Rightarrow> uuid) \<Rightarrow> instant \<Rightarrow> assert_validity_request \<Rightarrow> 'w
       \<Rightarrow> ('e mem_error, assert_validity_response) res \<times> 'w" where
  "handle_assert_ergo H ids now req w = assert_validity_execute (eh_persistence H) ids req now w"

end
