(* ===== verification/Facade_Properties.thy ===== *)
theory Facade_Properties
  imports Facade Write_Facts Samples
begin

text \<open>Properties of the facade: the requests it builds, what it makes of a projection, a fact remembered
  and recalled, a fact ended.\<close>

section \<open>Samples\<close>

text \<open>A calendar with years only, the year 20 being the instant 20; a line with a fact until 20 and its successor,
  ended at 30.\<close>

definition sample_dates :: date_parsers where
  "sample_dates = \<lparr>dp_datetime = (\<lambda>_. None), dp_ymd = (\<lambda>_. None), dp_year = Some\<rparr>"

definition sample_handle :: "(sqlite_world, sqlite_txn, sqlite_store_error) engine_handle" where
  "sample_handle = new_handle sqlite_port None sample_config"

definition sample_options :: "string option \<Rightarrow> string option \<Rightarrow> remember_options" where
  "sample_options from until = remember_options_new\<lparr>ro_valid_from := from, ro_valid_until := until\<rparr>"

definition sample_remember :: "nat \<Rightarrow> instant \<Rightarrow> string \<Rightarrow> string option \<Rightarrow> string option \<Rightarrow> sqlite_world
    \<Rightarrow> (sqlite_store_error dx_error, remember_receipt) res \<times> sqlite_world" where
  "sample_remember base now v from until = remember (handle_ingest_ergo sample_handle (sample_ids base) now) sample_dates
     ''a'' ''s'' ''p'' (Inr (JStr v)) (sample_options from until)"

definition sample_recall_at :: "instant \<Rightarrow> sqlite_world \<Rightarrow> (sqlite_store_error dx_error, recall_result) res" where
  "sample_recall_at now = recall (handle_query_ergo sample_handle now) ''a'' ''s'' ''p''"

definition sample_end :: "nat \<Rightarrow> instant \<Rightarrow> sqlite_world \<Rightarrow> (sqlite_store_error dx_error, end_fact_receipt) res \<times> sqlite_world" where
  "sample_end base now = end_fact (handle_resolve_ergo sample_handle now) (handle_assert_ergo sample_handle (sample_ids base) now)
     sample_dates ''a'' ''s'' ''p'' ''0030'' end_fact_options_new (\<lambda>w. w)"

definition facade_world1 :: sqlite_world where
  "facade_world1 = snd (sample_remember 1 10 ''x'' (Some ''0000'') (Some ''0020'') fresh_world)"

definition facade_world2 :: sqlite_world where
  "facade_world2 = snd (sample_remember 11 25 ''y'' (Some ''0020'') None facade_world1)"

definition facade_world3 :: sqlite_world where
  "facade_world3 = snd (sample_end 21 40 facade_world2)"

lemma facade_world_readable:
  "assertions_readable sqlite_port facade_world1 a" "assertions_readable sqlite_port facade_world2 a"
proof -
  have 1: "sw_conn facade_world1 \<and> \<not> sw_read_fails facade_world1 x \<and> q_assertions (sw_db facade_world1) = []" for x
    by code_simp
  have 2: "sw_conn facade_world2 \<and> \<not> sw_read_fails facade_world2 x \<and> q_assertions (sw_db facade_world2) = []" for x
    by code_simp
  show "assertions_readable sqlite_port facade_world1 a" "assertions_readable sqlite_port facade_world2 a"
    using 1 2 by (simp_all add: assertions_readable_def sqlite_port_ops load_validity_assertions_for_def with_conn_def)
qed

lemma facade_world2_wf: "db_wf (sqlite_disk facade_world2)"
  by (simp add: db_wf_def) code_simp

section \<open>Requests\<close>

lemma parse_endpoint_Inr:
  "parse_endpoint D s = Inr (t, g) \<longleftrightarrow>
     (case s of None \<Rightarrow> t = None \<and> g = None
      | Some x \<Rightarrow> \<exists>t' g'. parse_valid_time_date D x = Some (t', g') \<and> t = Some t' \<and> g = Some g')"
  by (auto simp: parse_endpoint_def ok_or_def and_then_Inr split: option.splits)

lemma build_request_Inr:
  assumes "build_request D b = (Inr req :: ('e dx_error, ingest_request) res)"
  obtains start sg end' eg where
    "parse_endpoint D (ib_valid_from b) = (Inr (start, sg) :: ('e dx_error, _) res)"
    "parse_endpoint D (ib_valid_until b) = (Inr (end', eg) :: ('e dx_error, _) res)"
    "\<forall>s e. start = Some s \<longrightarrow> end' = Some e \<longrightarrow> s < e"
    "iq_valid_time req = (if ib_valid_from b \<noteq> None \<or> ib_valid_until b \<noteq> None
       then Some \<lparr>vt_start = start, vt_end = end', vt_confidence = opt_or (F32 1) (ib_confidence b),
                  vt_start_granularity = sg, vt_end_granularity = eg\<rparr> else None)"
    "iq_confidence req = \<lparr>cf_value_confidence = opt_or (F32 1) (ib_confidence b),
       cf_valid_time_confidence = (if ib_valid_from b \<noteq> None \<or> ib_valid_until b \<noteq> None
         then opt_or (F32 1) (ib_confidence b) else F32 0)\<rparr>"
    "iq_provenance req = opt_or user_asserted (ib_provenance b)" "iq_value req = ib_value b"
proof -
  obtain start sg end' eg where p: "parse_endpoint D (ib_valid_from b) = (Inr (start, sg) :: ('e dx_error, _) res)"
    "parse_endpoint D (ib_valid_until b) = (Inr (end', eg) :: ('e dx_error, _) res)"
    using assms by (auto simp: build_request_def Let_def and_then_Inr)
  have lt: "\<forall>s e. start = Some s \<longrightarrow> end' = Some e \<longrightarrow> s < e"
    using assms by (auto simp: build_request_def Let_def p and_then_def split: if_splits)
  show thesis
    by (rule that[OF p lt])
      (use assms in \<open>auto simp: build_request_def Let_def p and_then_Inr split: if_splits option.splits\<close>)
qed



section \<open>Results\<close>

text \<open>C39. What recall makes of the claims served. One claim without conflict is the value, with its detail;
  with a conflict every claim served is a candidate and there is no value; with no claim the result is empty.
  Several claims without a conflict, the members of a set-valued line, are in none of these cases: the result
  has no value and no candidate, and counts neither as contested nor as empty.\<close>

theorem recall_result_is_exact:
  "let served = map (live_belief now cfg) (fr_live_claims fr);
       conflict = (contested \<or> fr_has_conflict fr);
       r = recall_result_of (project fr ledger now cfg contested)
   in rc_primary r = (if length served = 1 \<and> \<not> conflict then Some (make_detail (hd served)) else None)
    \<and> rc_result_value r = map_option bd_value (rc_primary r)
    \<and> rc_candidates r = (if conflict then map make_candidate served else [])
    \<and> (is_contested r \<longleftrightarrow> conflict \<and> served \<noteq> []) \<and> (is_empty_result r \<longleftrightarrow> served = [])"
proof (cases "fr_live_claims fr")
  case Nil
  then show ?thesis
    by (simp add: recall_result_of_def project_def is_contested_def is_empty_result_def Let_def)
next
  case (Cons cs rest)
  then show ?thesis
    by (cases rest; cases "contested \<or> fr_has_conflict fr")
      (auto simp: recall_result_of_def project_def is_contested_def is_empty_result_def make_detail_def Let_def
        List.map_filter_simps split: if_splits)
qed

section \<open>Remember, then recall\<close>

lemma recall_request_simps [simp]:
  "qm_agent_id (recall_request a s p) = a" "qm_subject (recall_request a s p) = s"
  "qm_predicate (recall_request a s p) = p" "qm_as_of_tx_time (recall_request a s p) = None"
  "qm_valid_at (recall_request a s p) = None"
  by (simp_all add: recall_request_def)

context engine_store
begin

text \<open>On an empty line a remembered claim that is live at once is what recall serves.\<close>

lemma remembered_is_recalled:
  assumes ingest: "Qo \<in> {None, Some Q}" "ingest_execute P Qo oracle cfg ids req now w = (Inr resp, w')"
    and req: "iq_provenance req \<noteq> RecallReEntry" "ec_quarantine_burst_threshold cfg \<noteq> 0"
    and line: "line_of (disk w) (iq_agent_id req) (iq_subject req) (iq_predicate req) None = []"
    and store: "db_wf (disk w)" "assertions_of (disk w) (iq_agent_id req) (ids 0) = []"
      "claim_entries (disk w) (iq_agent_id req) (ids 0) = []"
    and live: "\<not> is_non_live_disposition (ir_disposition resp)" "ir_disposition resp \<noteq> Contested"
    and query: "query_memory_execute P cfg (recall_request (iq_agent_id req) (iq_subject req) (iq_predicate req)) later w' = Inr bp"
    and later: "now \<le> later" "assertions_readable P w' (iq_agent_id req)"
  shows "ir_claim_ref resp = ids 0 \<and> (\<exists>fr le. bp = project fr le later cfg False \<and> \<not> fr_has_conflict fr
     \<and> map cw_claim (fr_live_claims fr) = [stored_claim (request_claim req now (ids 0))])"
  using ingest
proof (cases rule: ingest_outcomes)
  case Nothing
  then show ?thesis using req by auto
next
  case (Committed claims ledger inc dec rows)
  let ?a = "iq_agent_id req" and ?c = "stored_claim (request_claim req now (ids 0))"
  let ?q = "recall_request ?a (iq_subject req) (iq_predicate req)"
  let ?d = "committed_db ids (request_claim req now (ids 0)) dec ?a now (disk w)"
  have t: "db_claims (disk w') = db_claims (disk w) @ [?c]" "db_ledger (disk w') = db_ledger ?d"
    "db_assertions (disk w') = db_assertions (disk w)"
    using Committed(5) by (simp_all add: committed_db_tables)
  have resp: "ir_claim_ref resp = ids 0" "ir_disposition resp = gd_disposition dec" using Committed(8)[OF refl] by auto
  have "grows now (disk w) (disk w')" using ingest_grows[OF ingest(1)] ingest(2) by (metis snd_conv)
  then have wf: "db_wf (disk w')" using store(1) by (simp add: grows_def)
  have none: "filter (\<lambda>x. cl_agent_id x = ?a \<and> fa_subject (cl_fact x) = iq_subject req
      \<and> fa_predicate (cl_fact x) = iq_predicate req) (db_claims (disk w)) = []"
    using arg_cong[OF line, of set] by (simp add: line_of_def filter_empty_conv)
  then have nil: "filter (\<lambda>x. cl_agent_id x = ?a \<and> fa_subject (cl_fact x) = iq_subject req
      \<and> fa_predicate (cl_fact x) = iq_predicate req \<and> cl_transaction_time x \<le> later) (db_claims (disk w)) = []"
    by (auto simp: filter_empty_conv)
  have cl: "recall_line (disk w') ?q later = [?c]"
    by (simp add: recall_line_def line_of_def t(1) nil later(1)) (simp add: request_claim_def)
  let ?ledger = "ledger_slice (disk w') ?a [ids 0] (Some later)"
  have "ledger_of_chunk (disk w') ?a [ids 0] (Some later) = [committed_entry (ids 1) ?a (ids 0) dec now]"
  proof -
    have "filter (\<lambda>e. le_agent_id e = ?a \<and> le_claim_ref e = ids 0 \<and> le_recorded_at e \<le> later) (db_ledger (disk w)) = []"
      using store(3) by (auto simp: claim_entries_def filter_empty_conv)
    then show ?thesis using later(1) by (simp add: ledger_of_chunk_def t(2) committed_db_tables)
  qed
  then have disp: "build_latest_disposition_map ?ledger (ids 0) = Some (ir_disposition resp)"
    by (simp add: build_latest_disposition_map_at ledger_slice_def latest_upd_def resp(2))
  have "assertions_of (disk w') ?a (ids 0) = []" using store(2) by (simp add: assertions_of_def t(3))
  then have fold: "recall_fold cfg (disk w') ?q later = \<lparr>
      fr_live_claims = [with_status (assertions_of (disk w') ?a) later (build_latest_disposition_map ?ledger) ?c],
      fr_has_conflict = False, fr_succession_selected = False,
      fr_all_claims = [with_status (assertions_of (disk w') ?a) later (build_latest_disposition_map ?ledger) ?c]\<rparr>"
    using live(1) disp
    by (simp add: recall_fold_def cl query_memory_fold_def fold_claims_def narrow_succession_def
        structural_conflict_def with_status_live Let_def)
  have "bp = recall_spec cfg (disk w') ?q later"
    by (rule query_memory_spec[OF query wf]) (use later(2) in simp)
  also have "\<dots> = query_memory_project cfg later [?c] (ledger_slice (disk w') ?a [ids 0] (Some later))
      (recall_fold cfg (disk w') ?q later)"
    by (simp add: recall_spec_def recall_as_of_def Let_def cl)
  finally show ?thesis
    using resp(1) disp live(2) by (auto simp: query_memory_project_def fold)
qed

end

lemma remember_builder_simps [simp]:
  "ib_agent_id (remember_builder a s p v opts) = a" "ib_subject (remember_builder a s p v opts) = s"
  "ib_predicate (remember_builder a s p v opts) = p" "ib_value (remember_builder a s p v opts) = v"
  "ib_provenance (remember_builder a s p v opts) = None"
  by (simp_all add: remember_builder_def request_builder_of_def then_if_def Let_def split: option.split)

lemma build_request_keys:
  assumes "build_request D b = Inr req"
  shows "iq_agent_id req = ib_agent_id b" "iq_subject req = ib_subject b" "iq_predicate req = ib_predicate b"
    "iq_value req = ib_value b" "iq_provenance req = opt_or user_asserted (ib_provenance b)"
  using assms by (auto simp: build_request_def Let_def and_then_Inr)

lemma remember_Inr:
  fixes H :: "('w, 't, 'e) engine_handle"
  assumes "remember (handle_ingest_ergo H ids now) D a s p (Inr v) opts w = (Inr receipt, w')"
  obtains req resp where "iq_agent_id req = a" "iq_subject req = s" "iq_predicate req = p" "iq_value req = v"
    "iq_provenance req = user_asserted" "rr_claim_ref receipt = ir_claim_ref resp"
    "rr_disposition receipt = ir_disposition resp"
    "ingest_execute (eh_persistence H) (eh_pending_store H) (eh_oracle H) (eh_config H) ids req now w = (Inr resp, w')"
proof -
  obtain req where req: "build_request D (remember_builder a s p v opts) = (Inr req :: ('e dx_error, ingest_request) res)"
    using assms by (auto simp: remember_def split: sum.splits)
  obtain resp where "ingest_execute (eh_persistence H) (eh_pending_store H) (eh_oracle H) (eh_config H) ids req now w
      = (Inr resp, w')" "rr_claim_ref receipt = ir_claim_ref resp" "rr_disposition receipt = ir_disposition resp"
    using assms by (auto simp: remember_def req handle_ingest_ergo_def split: sum.splits prod.splits)
  then show ?thesis
    using build_request_keys[OF req] by (intro that[of req resp]) (auto simp: opt_or_def)
qed



section \<open>Ending a fact\<close>

context persistence
begin

lemma tx_map_err_Inl: "tx_map_err Persistence m t = (Inl e, t') \<Longrightarrow> \<exists>pe. e = Persistence pe"
  by (cases "m t") (auto simp: tx_map_err_def map_err_def split: sum.splits)

lemma write_validity_error: "write_validity_and_ledger P x e t = (Inl er, t') \<Longrightarrow> \<exists>pe. er = Persistence pe"
  unfolding write_validity_and_ledger_def by (erule tx_bind_cases) (auto dest: tx_map_err_Inl)

lemma write_assertion_error: "write_assertion P ids req kind q x eff now w = (Inl e, w') \<Longrightarrow> \<exists>pe. e = Persistence pe"
  unfolding write_assertion_def in_txn_def
  by (auto split: prod.splits sum.splits dest: write_validity_error)

lemma resolve_error: "resolve_live_claim_for_line P cfg a s p now w = Inl e \<Longrightarrow> \<exists>pe. e = Persistence pe"
  by (auto simp: resolve_live_claim_for_line_def and_then_def map_err_def Let_def split: sum.splits)

lemma assert_bound_not_already:
  "assert_bound P ids req b g c None now w = (Inl e, w') \<Longrightarrow> e \<noteq> AlreadyBound r m"
  by (auto simp: assert_bound_def split: sum.splits if_splits option.splits dest!: write_assertion_error)

lemma assert_validity_not_already:
  assumes "assert_validity_execute P ids req now w = (Inl e, w')" "aq_assertion req = AI_Bound b g"
    and "active_bound_at (assertions_of (disk w) (aq_agent_id req) (aq_target req)) now = None"
  shows "e \<noteq> AlreadyBound r m"
proof -
  have "latest_active_bound vs now = None"
    if "pp_load_validity_assertions_for P w (aq_agent_id req) (aq_target req) = Inr vs" for vs
    using read_assertions[OF that] assms(3) by (simp add: latest_active_bound_def)
  then show ?thesis
    using assms(1,2) by (auto simp: assert_validity_execute_def Let_def split: if_splits sum.splits option.splits
        dest: assert_bound_not_already)
qed

text \<open>The claim a line resolves to has no active bound.\<close>

lemma resolved_is_unbounded:
  assumes "resolve_live_claim_for_line P cfg a s p now w = Inr (LR_Single r)" "db_wf (disk w)" "assertions_readable P w a"
  shows "active_bound_at (assertions_of (disk w) a r) now = None"
proof -
  let ?req = "\<lparr>qm_agent_id = a, qm_subject = s, qm_predicate = p, qm_as_of_tx_time = None, qm_valid_at = None\<rparr>"
  obtain cs where cs: "fr_live_claims (recall_fold cfg (disk w) ?req now) = [cs]" "r = cl_ref (cw_claim cs)"
    using resolve_live_spec[OF assms] by (auto split: list.splits)
  have "cs \<in> set (fr_live_claims (fold_claims (recall_line (disk w) ?req now) (assertions_of (disk w) a) now None cfg
      (build_latest_disposition_map (ledger_slice (disk w) a (map cl_ref (recall_line (disk w) ?req now)) (Some now)))))"
    using cs(1) by (simp add: recall_fold_def query_memory_fold_def Let_def)
  from fold_live_sound(2)[OF this] show ?thesis by (simp add: cs(2))
qed

lemma assert_validity_error: "assert_validity_execute P ids req now w = (Inl e, w') \<Longrightarrow> disk w' = disk w"
  by (elim assert_validity_cases assert_bound_cases write_assertion_cases) auto

lemma assert_bound_ok:
  assumes "assert_bound P ids req b g c None now w = (Inr resp, w')"
  shows "(\<exists>e. vt_end (cl_valid_time c) = Some e \<and> e \<le> b \<and> w' = w
       \<and> resp = \<lparr>as_claim_ref = aq_target req, as_assertion_ref = None,
             as_kind = Bound e (vt_end_granularity (cl_valid_time c)), as_effective_at = Some e,
             as_disposition = Superseded, as_no_op = True\<rparr>)
     \<or> write_assertion P ids req (Bound b g) Superseded (bound_rationale b) b now w = (Inr resp, w')"
  using assms by (auto simp: assert_bound_def split: sum.splits if_splits option.splits)

lemma end_fact_cases:
  assumes "end_fact (\<lambda>a s p. resolve_live_claim_for_line P cfg a s p now) (\<lambda>req. assert_validity_execute P ids req now)
      D a s p x opts (\<lambda>w. w) w = (r, w')" "db_wf (disk w)" "assertions_readable P w a"
  obtains (Refused) e where "r = Inl e" "disk w' = disk w" "\<And>c m. e \<noteq> EngineError (AlreadyBound c m)"
    | (Ended) target b g where "parse_valid_time_date D x = Some (b, g)"
        "resolve_live_claim_for_line P cfg a s p now w = Inr (LR_Single target)"
        "r = Inr \<lparr>er_claim_ref = target, er_disposition = Superseded, er_effective_at = b, er_no_op = False\<rparr>"
        "disk w' = asserted_db ids (bound_request a target (b, g) opts) (Bound b (Some g)) Superseded
           (bound_rationale b) now (disk w)"
    | (Over) target b g c e where "parse_valid_time_date D x = Some (b, g)"
        "resolve_live_claim_for_line P cfg a s p now w = Inr (LR_Single target)"
        "claim_of (disk w) a target = Some c" "vt_end (cl_valid_time c) = Some e" "e \<le> b"
        "r = Inr \<lparr>er_claim_ref = target, er_disposition = Superseded, er_effective_at = e, er_no_op = True\<rparr>"
        "disk w' = disk w"
proof (cases "\<exists>b g target. parse_valid_time_date D x = Some (b, g)
    \<and> resolve_live_claim_for_line P cfg a s p now w = Inr (LR_Single target)")
  case False
  then have "(\<exists>e. r = Inl e \<and> (\<forall>c m. e \<noteq> EngineError (AlreadyBound c m))) \<and> w' = w"
    using assms(1)
    by (auto simp: end_fact_def split: option.splits sum.splits live_claim_resolution.splits dest: resolve_error)
  then show ?thesis using Refused by blast
next
  case True
  then obtain b g target where t: "parse_valid_time_date D x = Some (b, g)"
    "resolve_live_claim_for_line P cfg a s p now w = Inr (LR_Single target)" by blast
  let ?req = "bound_request a target (b, g) opts"
  have none: "active_bound_at (assertions_of (disk w) a target) now = None"
    by (rule resolved_is_unbounded[OF t(2) assms(2,3)])
  have req: "aq_agent_id ?req = a" "aq_target ?req = target" "aq_assertion ?req = AI_Bound b (Some g)"
    by (simp_all add: bound_request_def Let_def)
  obtain ra wa where ra: "assert_validity_execute P ids ?req now w = (ra, wa)"
    by (cases "assert_validity_execute P ids ?req now w")
  have unfolded: "r = (case ra of Inl e \<Rightarrow> Inl (EngineError e) | Inr resp \<Rightarrow>
      Inr \<lparr>er_claim_ref = as_claim_ref resp, er_disposition = as_disposition resp,
        er_effective_at = opt_or b (as_effective_at resp), er_no_op = as_no_op resp\<rparr>)" "w' = wa"
    using assms(1) by (auto simp: end_fact_def t ra split: sum.splits)
  show ?thesis
  proof (cases ra)
    case (Inl e)
    then have "disk wa = disk w" using assert_validity_error ra by blast
    moreover have "e \<noteq> AlreadyBound c m" for c m
      using assert_validity_not_already[of ids ?req now w e wa b "Some g"] ra none req Inl by simp
    ultimately show ?thesis using unfolded Inl by (intro Refused[of "EngineError e"]) simp_all
  next
    case (Inr resp)
    from ra[unfolded Inr] show ?thesis
    proof (cases rule: assert_validity_cases)
      case (Bounding b' g' c)
      have c: "b' = b" "g' = Some g" "claim_of (disk w) a target = Some c"
        using Bounding(1) Bounding(3)[unfolded req(1,2)] by (simp_all add: req(3))
      have "assert_bound P ids ?req b (Some g) c None now w = (Inr resp, wa)"
        using Bounding(4) none by (simp add: c(1,2) req latest_active_bound_def)
      from assert_bound_ok[OF this] show ?thesis
      proof (elim disjE exE conjE)
        fix e assume e: "vt_end (cl_valid_time c) = Some e" "e \<le> b" "wa = w"
          "resp = \<lparr>as_claim_ref = aq_target ?req, as_assertion_ref = None,
             as_kind = Bound e (vt_end_granularity (cl_valid_time c)), as_effective_at = Some e,
             as_disposition = Superseded, as_no_op = True\<rparr>"
        show ?thesis
          by (rule Over[OF t c(3) e(1,2)]) (simp_all add: unfolded Inr e(3,4) opt_or_def req)
      next
        assume "write_assertion P ids ?req (Bound b (Some g)) Superseded (bound_rationale b) b now w = (Inr resp, wa)"
        then show ?thesis
        proof (cases rule: write_assertion_cases)
          case Written
          then show ?thesis by (intro Ended[OF t]) (simp_all add: unfolded Inr opt_or_def req)
        qed simp
      qed
    qed (auto simp: req)
  qed
qed

end



text \<open>Ending the current fact of a succession brings its predecessor back: recall then serves the previous fact,
  whose own window has ended, as resolved and not stale, while the history has no current entry. Repeating the
  call does not report an empty line; it succeeds as a no-op on the predecessor.\<close>

theorem ended_fact_gives_way_to_its_predecessor:
  "rc_result_value (projr (sample_recall_at 30 facade_world2)) = Some (JStr ''y'')
   \<and> rc_result_value (projr (sample_recall_at 50 facade_world3)) = Some (JStr ''x'')
   \<and> rc_status (projr (sample_recall_at 50 facade_world3)) = BS_Resolved
   \<and> history_current (projr (history (handle_history_ergo sample_handle 50) ''a'' ''s'' ''p'' facade_world3)) = None
   \<and> er_no_op (projr (fst (sample_end 31 50 facade_world3)))"
proof -
  have "rc_result_value (projr (sample_recall_at 30 facade_world2)) = Some (JStr ''y'')" by code_simp
  moreover have "case (facade_world3, ()) of (w, _) \<Rightarrow>
      (case sample_recall_at 50 w of Inl _ \<Rightarrow> False
       | Inr r \<Rightarrow> rc_result_value r = Some (JStr ''x'') \<and> rc_status r = BS_Resolved)
      \<and> history_current (projr (history (handle_history_ergo sample_handle 50) ''a'' ''s'' ''p'' w)) = None
      \<and> er_no_op (projr (fst (sample_end 31 50 w)))"
    by code_simp
  ultimately show ?thesis by (auto split: sum.splits)
qed

end
