(* ===== verification/Python_Bindings.thy ===== *)
theory Python_Bindings
  imports Facade
begin

text \<open>The Rust crate of the Python bindings: the oracle bridge and the methods of the engine classes
  (\<^verbatim>\<open>mempill-python/src/oracle.rs\<close>, \<^verbatim>\<open>engine.rs\<close>), the exception classes (\<^verbatim>\<open>errors.rs\<close>) and the display texts
  (\<^verbatim>\<open>display.rs\<close>). \<^verbatim>\<open>PyEngine\<close> and \<^verbatim>\<open>PyOracleEngine\<close> have the same methods; they differ in the engine handle.

  Python objects, their conversion (pythonize, extract) and the parser of UUIDs are third-party code and
  arguments. A method is one complete call of the engine on the world of that moment. The text of an exception
  is the error it renders.\<close>

section \<open>Exceptions\<close>

datatype py_class = ValidationError | NotFoundError | ConflictError | StorageError | ConfigError | InternalError

datatype 'e py_text = BadRequest message | MemErrorText "'e mem_error"

datatype 'e py_err = PyErr py_class "'e py_text" | PythonizeFailed message

fun mem_error_class :: "'e mem_error \<Rightarrow> py_class" where
  "mem_error_class MissingProvenance = ValidationError"
| "mem_error_class (WriteAuthorityViolation _) = ValidationError"
| "mem_error_class (MalformedFact _) = ValidationError"
| "mem_error_class (IncoherentTemporalWindow _ _) = ValidationError"
| "mem_error_class (InsufficientProvenanceForOverturn _) = ValidationError"
| "mem_error_class (AmbiguousLineForClose _ _ _) = ValidationError"
| "mem_error_class (TargetUnderAdjudication _) = ValidationError"
| "mem_error_class (ClaimNotFound _) = NotFoundError"
| "mem_error_class (UnknownAgentId _) = NotFoundError"
| "mem_error_class (AdjudicationHandleNotFound _) = NotFoundError"
| "mem_error_class (WriteLockContention _) = ConflictError"
| "mem_error_class (AlreadyBound _ _) = ConflictError"
| "mem_error_class (Persistence _) = StorageError"
| "mem_error_class (PragmaInitFailed _) = StorageError"
| "mem_error_class (PendingStore _) = StorageError"
| "mem_error_class (ConfigurationError _ _ _) = ConfigError"
| "mem_error_class (OracleError _) = ConfigError"
| "mem_error_class (SpawnBlocking _) = InternalError"
| "mem_error_class (AtomicCommitViolation _) = InternalError"
| "mem_error_class (MonotonicityViolation _) = InternalError"
| "mem_error_class BeliefCacheInconsistency = InternalError"

definition mem_err_to_pyerr :: "'e mem_error \<Rightarrow> 'e py_err" where
  "mem_err_to_pyerr e = PyErr (mem_error_class e) (MemErrorText e)"

section \<open>The oracle bridge\<close>

datatype bridge_error = PythonException message | InvalidHandle message | Serialise message

fun bridge_display :: "bridge_error \<Rightarrow> message" where
  "bridge_display (PythonException m) = Lit ''Python oracle raised an exception: '' # m"
| "bridge_display (InvalidHandle m) = Lit ''Oracle returned an invalid handle UUID: '' # m"
| "bridge_display (Serialise m) = Lit ''Serialisation error passing request to Python oracle: '' # m"

text \<open>The Python side of a request: its conversion to a dict \<^verbatim>\<open>'d\<close>, the call, which returns an object \<^verbatim>\<open>'o\<close> or
  raises, the extraction of a string, and the parser of UUIDs.\<close>

record ('d, 'o) python_oracle =
  po_pythonize :: "adjudication_request \<Rightarrow> (message, 'd) res"
  po_call_method :: "agent_id \<Rightarrow> 'd \<Rightarrow> (message, 'o) res"
  po_extract :: "'o \<Rightarrow> (message, string) res"
  po_parse_uuid :: "string \<Rightarrow> (message, uuid) res"

definition bridge_request_adjudication ::
    "('d, 'o) python_oracle \<Rightarrow> agent_id \<Rightarrow> adjudication_request \<Rightarrow> (bridge_error, uuid) res" where
  "bridge_request_adjudication O' a request =
     and_then (map_err Serialise (po_pythonize O' request)) (\<lambda>request_dict.
     and_then (map_err PythonException (po_call_method O' a request_dict)) (\<lambda>result.
     and_then (map_err PythonException (po_extract O' result)) (\<lambda>handle_str.
       map_err (\<lambda>e. InvalidHandle (e @ [Lit '': got '', DebugStr handle_str])) (po_parse_uuid O' handle_str))))"

text \<open>The bridge as the engine sees it: the text of the error, or the handle, which is its own UUID.\<close>

definition bridge_oracle :: "('d, 'o) python_oracle \<Rightarrow> oracle_port" where
  "bridge_oracle O' a request = map_err bridge_display (bridge_request_adjudication O' a request)"

section \<open>Display texts\<close>

record enriched_belief =
  eb_core :: belief
  eb_valid_from_display :: "display option"
  eb_valid_until_display :: "display option"

record enriched_belief_projection =
  ep_status :: belief_status
  ep_primary :: "enriched_belief option"
  ep_alternatives :: "enriched_belief list"
  ep_currency :: currency_state
  ep_criticality :: criticality
  ep_staleness :: staleness_flag
  ep_markers :: "marker list"

definition enrich_belief :: "belief \<Rightarrow> enriched_belief" where
  "enrich_belief b = \<lparr>eb_core = b,
     eb_valid_from_display = format_valid_time_endpoint (vt_start (be_valid_time b)) (vt_start_granularity (be_valid_time b)),
     eb_valid_until_display = format_valid_time_endpoint (vt_end (be_valid_time b)) (vt_end_granularity (be_valid_time b))\<rparr>"

definition enrich_query_memory :: "belief_projection \<Rightarrow> enriched_belief_projection" where
  "enrich_query_memory bp = \<lparr>ep_status = bp_status bp, ep_primary = map_option enrich_belief (bp_primary bp),
     ep_alternatives = map enrich_belief (bp_alternatives bp), ep_currency = bp_currency bp,
     ep_criticality = bp_criticality bp, ep_staleness = bp_staleness bp, ep_markers = bp_markers bp\<rparr>"

record enriched_history_entry =
  hx_core :: history_entry
  hx_valid_from_display :: "display option"
  hx_valid_until_display :: "display option"

definition enrich_history_entry :: "history_entry \<Rightarrow> enriched_history_entry" where
  "enrich_history_entry e = \<lparr>hx_core = e,
     hx_valid_from_display = format_valid_time_endpoint (he_valid_from e) (he_valid_from_granularity e),
     hx_valid_until_display = format_valid_time_endpoint (he_valid_until e) (he_valid_until_granularity e)\<rparr>"

definition enrich_query_history :: "history_entry list \<Rightarrow> enriched_history_entry list" where
  "enrich_query_history entries = map enrich_history_entry entries"

section \<open>The methods of the engine classes\<close>

text \<open>Convert the argument, run the engine without the GIL, convert the answer.\<close>

definition engine_method ::
    "string \<Rightarrow> ('d \<Rightarrow> (message, 'q) res) \<Rightarrow> ('q \<Rightarrow> 'w \<Rightarrow> ('e mem_error, 'r) res \<times> 'w)
       \<Rightarrow> ('r \<Rightarrow> (message, 'p) res) \<Rightarrow> 'd \<Rightarrow> 'w \<Rightarrow> ('e py_err, 'p) res \<times> 'w" where
  "engine_method bad depythonize run pythonize request w =
     (case depythonize request of
        Inl e \<Rightarrow> (Inl (PyErr ValidationError (BadRequest (Lit bad # e))), w)
      | Inr req \<Rightarrow>
          (case run req w of
             (Inl e, w') \<Rightarrow> (Inl (mem_err_to_pyerr e), w')
           | (Inr resp, w') \<Rightarrow> (map_err PythonizeFailed (pythonize resp), w')))"

definition py_ingest_claim ::
    "('d \<Rightarrow> (message, ingest_request) res) \<Rightarrow> (ingest_response \<Rightarrow> (message, 'p) res) \<Rightarrow> ('w, 't, 'e) engine_handle
       \<Rightarrow> (nat \<Rightarrow> uuid) \<Rightarrow> instant \<Rightarrow> 'd \<Rightarrow> 'w \<Rightarrow> ('e py_err, 'p) res \<times> 'w" where
  "py_ingest_claim depythonize pythonize H ids now =
     engine_method ''bad request: '' depythonize (handle_ingest_ergo H ids now) pythonize"

definition py_query_memory ::
    "('d \<Rightarrow> (message, query_memory_request) res) \<Rightarrow> (enriched_belief_projection \<Rightarrow> (message, 'p) res)
       \<Rightarrow> ('w, 't, 'e) engine_handle \<Rightarrow> instant \<Rightarrow> 'd \<Rightarrow> 'w \<Rightarrow> ('e py_err, 'p) res \<times> 'w" where
  "py_query_memory depythonize pythonize H now =
     engine_method ''bad request: '' depythonize (\<lambda>req w. (handle_query_memory H req now w, w))
       (\<lambda>bp. pythonize (enrich_query_memory bp))"

definition py_reconcile ::
    "('d \<Rightarrow> (message, reconcile_request) res) \<Rightarrow> (reconcile_response \<Rightarrow> (message, 'p) res) \<Rightarrow> ('w, 't, 'e) engine_handle
       \<Rightarrow> (nat \<Rightarrow> uuid) \<Rightarrow> instant \<Rightarrow> 'd \<Rightarrow> 'w \<Rightarrow> ('e py_err, 'p) res \<times> 'w" where
  "py_reconcile depythonize pythonize H ids now =
     engine_method ''bad request: '' depythonize
       (\<lambda>req. reconcile_execute (eh_persistence H) (eh_oracle H) (eh_config H) ids req now) pythonize"

definition py_query_history ::
    "('d \<Rightarrow> (message, query_history_request) res) \<Rightarrow> (enriched_history_entry list \<Rightarrow> (message, 'p) res)
       \<Rightarrow> ('w, 't, 'e) engine_handle \<Rightarrow> instant \<Rightarrow> 'd \<Rightarrow> 'w \<Rightarrow> ('e py_err, 'p) res \<times> 'w" where
  "py_query_history depythonize pythonize H now =
     engine_method ''bad request: '' depythonize (\<lambda>req w. (handle_query_history H req now w, w))
       (\<lambda>entries. pythonize (enrich_query_history entries))"

definition py_query_audit ::
    "('d \<Rightarrow> (message, audit_query) res) \<Rightarrow> (ledger_entry list \<Rightarrow> (message, 'p) res) \<Rightarrow> ('w, 't, 'e) engine_handle
       \<Rightarrow> 'd \<Rightarrow> 'w \<Rightarrow> ('e py_err, 'p) res \<times> 'w" where
  "py_query_audit depythonize pythonize H =
     engine_method ''bad request: '' depythonize (\<lambda>req w. (query_audit H req w, w)) pythonize"

definition py_query_subject ::
    "('d \<Rightarrow> (message, query_subject_request) res) \<Rightarrow> (subject_fact_entry list \<Rightarrow> (message, 'p) res)
       \<Rightarrow> ('w, 't, 'e) engine_handle \<Rightarrow> instant \<Rightarrow> 'd \<Rightarrow> 'w \<Rightarrow> ('e py_err, 'p) res \<times> 'w" where
  "py_query_subject depythonize pythonize H now =
     engine_method ''bad request: '' depythonize (\<lambda>req w. (handle_query_subject H req now w, w)) pythonize"

definition py_assert_validity ::
    "('d \<Rightarrow> (message, assert_validity_request) res) \<Rightarrow> (assert_validity_response \<Rightarrow> (message, 'p) res)
       \<Rightarrow> ('w, 't, 'e) engine_handle \<Rightarrow> (nat \<Rightarrow> uuid) \<Rightarrow> instant \<Rightarrow> 'd \<Rightarrow> 'w \<Rightarrow> ('e py_err, 'p) res \<times> 'w" where
  "py_assert_validity depythonize pythonize H ids now =
     engine_method ''bad request: '' depythonize (handle_assert_ergo H ids now) pythonize"

text \<open>A dict built key by key.\<close>

fun resolution_dict :: "live_claim_resolution \<Rightarrow> json" where
  "resolution_dict LR_Empty = JObj [(''status'', JStr ''empty''), (''claim_ref'', JNull), (''live_count'', JNull)]"
| "resolution_dict (LR_Single r) =
     JObj [(''status'', JStr ''single''), (''claim_ref'', JText [UuidStr r]), (''live_count'', JNull)]"
| "resolution_dict (LR_Ambiguous n) =
     JObj [(''status'', JStr ''ambiguous''), (''claim_ref'', JNull), (''live_count'', JInt (int n))]"

definition py_resolve_live_claim_for_line ::
    "('w, 't, 'e) engine_handle \<Rightarrow> instant \<Rightarrow> string \<Rightarrow> string \<Rightarrow> string \<Rightarrow> 'w \<Rightarrow> ('e py_err, json) res" where
  "py_resolve_live_claim_for_line H now a s p w =
     and_then (map_err mem_err_to_pyerr (handle_resolve_live_claim H a s p now w)) (\<lambda>r. Inr (resolution_dict r))"

definition date_granularity_of :: "date_parsers \<Rightarrow> string \<Rightarrow> string option" where
  "date_granularity_of D value = map_option (\<lambda>(_, g). date_granularity_to_str g) (parse_valid_time_date D value)"

section \<open>The methods of the oracle queue\<close>

text \<open>\<^verbatim>\<open>EngineHandle::submit_adjudication\<close> without another call in between: the row is looked up for its
  agent, then the use case reads it again.\<close>

definition handle_submit ::
    "('w, 't, 'e) engine_handle \<Rightarrow> (nat \<Rightarrow> uuid) \<Rightarrow> instant \<Rightarrow> adjudication_response \<Rightarrow> 'w
       \<Rightarrow> ('e mem_error, adjudication_outcome) res \<times> 'w" where
  "handle_submit H ids now resp w =
     (let handle_id = ap_handle_id resp in
      case eh_pending_store H of
        None \<Rightarrow> (Inl (AdjudicationHandleNotFound handle_id), w)
      | Some Q \<Rightarrow>
          (case pq_get_pending Q w handle_id of
             Inl e \<Rightarrow> (Inl (PendingStore e), w)
           | Inr None \<Rightarrow> (Inl (AdjudicationHandleNotFound handle_id), w)
           | Inr (Some _) \<Rightarrow> submit_execute (eh_persistence H) Q (eh_config H) ids handle_id resp now w))"

definition py_submit_adjudication ::
    "('d \<Rightarrow> (message, adjudication_response) res) \<Rightarrow> (adjudication_outcome \<Rightarrow> (message, 'p) res)
       \<Rightarrow> ('w, 't, 'e) engine_handle \<Rightarrow> (nat \<Rightarrow> uuid) \<Rightarrow> instant \<Rightarrow> 'd \<Rightarrow> 'w \<Rightarrow> ('e py_err, 'p) res \<times> 'w" where
  "py_submit_adjudication depythonize pythonize H ids now =
     engine_method ''bad response: '' depythonize (handle_submit H ids now) pythonize"

definition py_sweep_expired_adjudications ::
    "('w, 't, 'e) engine_handle \<Rightarrow> (nat \<Rightarrow> uuid) \<Rightarrow> instant \<Rightarrow> 'w \<Rightarrow> ('e py_err, nat) res \<times> 'w" where
  "py_sweep_expired_adjudications H ids now w =
     (case sweep_expired_adjudications (eh_persistence H) (eh_pending_store H) ids now w of
        (r, w') \<Rightarrow> (map_err mem_err_to_pyerr r, w'))"

definition pending_dict :: "(adjudication_request \<Rightarrow> json) \<Rightarrow> pending_row \<Rightarrow> json" where
  "pending_dict request_json row =
     JObj [(''handle_id'', JText [UuidStr (pa_handle_id row)]), (''agent_id'', JStr (pa_agent_id row)),
           (''subject'', JStr (pa_subject row)), (''predicate'', JStr (pa_predicate row)),
           (''incumbent_value'', fa_value (be_fact (ar_incumbent (pa_request row)))),
           (''challenger_value'', fa_value (cl_fact (ar_challenger (pa_request row)))),
           (''queued_at'', JText [Rfc3339 (pa_queued_at row)]),
           (''expires_at'', (case pa_expires_at row of Some t \<Rightarrow> JText [Rfc3339 t] | None \<Rightarrow> JNull)),
           (''status'', JStr (pa_status row)), (''request_payload'', request_json (pa_request row))]"

definition py_list_pending_adjudications ::
    "(adjudication_request \<Rightarrow> json) \<Rightarrow> ('w, 't, 'e) engine_handle \<Rightarrow> agent_id option \<Rightarrow> 'w \<Rightarrow> ('e py_err, json) res" where
  "py_list_pending_adjudications request_json H a w =
     and_then (map_err mem_err_to_pyerr (list_pending_adjudications H a w)) (\<lambda>rows.
       Inr (JArr (map (pending_dict request_json) rows)))"

end
