(* ===== verification/Python_Properties.thy ===== *)
theory Python_Properties
  imports Python_Bindings Write_Facts Samples
begin

text \<open>What a Python caller learns from the class of an exception.\<close>

section \<open>Errors inside a transaction\<close>

text \<open>A step of a transaction fails with an error of the store only.\<close>

definition storage_only :: "('t, 'e mem_error, 'a) tx_step \<Rightarrow> bool" where
  "storage_only m = (\<forall>t e t'. m t = (Inl e, t') \<longrightarrow> (\<exists>x. e = Persistence x))"

lemma storage_only_return [intro!]: "storage_only (tx_return x)"
  by (simp add: storage_only_def tx_return_def)

lemma storage_only_bind [intro!]: "storage_only m \<Longrightarrow> (\<And>x. storage_only (f x)) \<Longrightarrow> storage_only (tx_bind m f)"
  unfolding storage_only_def tx_bind_def by (fastforce split: prod.splits sum.splits)

lemma storage_only_map_err [intro!]: "storage_only (tx_map_err Persistence m)"
  unfolding storage_only_def tx_map_err_def by (auto simp: map_err_def split: prod.splits sum.splits)

lemma storage_only_foreach [intro!]: "(\<And>x. storage_only (f x)) \<Longrightarrow> storage_only (tx_foreach f xs)"
  by (induction xs) auto

lemma storage_only_append: "storage_only (append_within_txn P ids c dec inc a now)"
  unfolding append_within_txn_def by auto

lemma storage_only_bound: "storage_only (bound_claim P ids a target ov bound_at gran now es v)"
  unfolding bound_claim_def supersession_execute_def by auto

lemma storage_only_verdict: "storage_only (apply_verdict_within_txn P ids v ev a ch inc now bound_at gran ies ces)"
  unfolding apply_verdict_within_txn_def by (cases v) (auto intro: storage_only_bound)

lemma in_txn_storage:
  assumes "in_txn P a body w = (Inl e, w')" "storage_only body"
  shows "\<exists>x. e = Persistence x"
  using assms by (auto simp: in_txn_def storage_only_def split: prod.splits sum.splits)

section \<open>The errors of a submission\<close>

text \<open>A handle can be used when its row has not expired and its challenger is still queued.\<close>

definition usable_handle :: "db \<Rightarrow> uuid \<Rightarrow> instant \<Rightarrow> bool" where
  "usable_handle d handle now =
     (\<exists>row c. pending_of d handle = Some row \<and> (case pa_expires_at row of Some x \<Rightarrow> now < x | None \<Rightarrow> True)
        \<and> latest_in d (pa_agent_id row) (pa_challenger row) = Some QueuedForAdjudication
        \<and> claim_of d (pa_agent_id row) (pa_challenger row) = Some c)"

definition storage_error :: "'e mem_error \<Rightarrow> bool" where
  "storage_error e = ((\<exists>x. e = Persistence x) \<or> (\<exists>x. e = PendingStore x))"

definition not_found :: "'e mem_error \<Rightarrow> bool" where
  "not_found e = ((\<exists>h. e = AdjudicationHandleNotFound h) \<or> (\<exists>r. e = ClaimNotFound r))"

context engine_store
begin

lemma submit_verdict_error:
  assumes "submit_verdict P Q cfg ids row handle resp ies ces c now w = (Inl e, w')"
  shows "storage_error e"
proof -
  have "storage_error e'" if "in_txn P (pa_agent_id row) (apply_verdict_within_txn P ids (ap_verdict resp)
      (ap_evidence_provenance resp) (pa_agent_id row) (pa_challenger row) (pa_incumbent row) now x y ies ces) w
      = (Inl e', w1)" for x y e' w1
    using in_txn_storage[OF that storage_only_verdict] by (auto simp: storage_error_def)
  then show ?thesis
    using assms by (auto simp: submit_verdict_def storage_error_def split: prod.splits sum.splits)
qed

lemma submit_queued_error:
  assumes "submit_queued P Q cfg ids row handle resp now w = (Inl e, w')"
  shows "storage_error e \<or> not_found e
    \<and> \<not> (\<exists>c. latest_in (disk w) (pa_agent_id row) (pa_challenger row) = Some QueuedForAdjudication
           \<and> claim_of (disk w) (pa_agent_id row) (pa_challenger row) = Some c)"
proof (cases "pp_load_ledger_for_claims P w (pa_agent_id row) [pa_challenger row] None")
  case (Inl x)
  then show ?thesis using assms by (auto simp: submit_queued_def Let_def storage_error_def)
next
  case (Inr ledger)
  note q = read_latest[OF Inr]
  show ?thesis
  proof (cases "latest_in (disk w) (pa_agent_id row) (pa_challenger row) = Some QueuedForAdjudication")
    case False
    then show ?thesis using assms Inr q by (auto simp: submit_queued_def Let_def not_found_def)
  next
    case True
    show ?thesis
    proof (cases "pp_load_claim P w (pa_agent_id row) (pa_challenger row)")
      case (Inl x)
      then show ?thesis using assms Inr q True \<open>pp_load_ledger_for_claims _ _ _ _ _ = _\<close>
        by (auto simp: submit_queued_def Let_def storage_error_def split: sum.splits)
    next
      case (Inr co)
      note c = read_claim[OF Inr]
      show ?thesis
      proof (cases co)
        case None
        then show ?thesis
          using assms q True Inr c \<open>pp_load_ledger_for_claims _ _ _ _ _ = _\<close>
          by (auto simp: submit_queued_def Let_def storage_error_def not_found_def split: sum.splits)
      next
        case (Some cl)
        then show ?thesis
          using assms q True Inr \<open>pp_load_ledger_for_claims _ _ _ _ _ = _\<close>
          by (auto simp: submit_queued_def Let_def storage_error_def
              dest!: submit_verdict_error[unfolded storage_error_def] split: sum.splits)
      qed
    qed
  qed
qed

lemma expire_lazily_error:
  assumes "expire_lazily P Q ids row handle x now w = (r, w')"
  shows "\<exists>e. r = Inl e \<and> (storage_error e \<or> not_found e)"
proof -
  have "storage_error e'" if "in_txn P (pa_agent_id row)
      (tx_map_err Persistence (pp_append_ledger_entry P (lazy_expiry_entry (ids 0) row handle x now))) w = (Inl e', w1)" for e' w1
    using in_txn_storage[OF that] by (auto simp: storage_error_def)
  then show ?thesis
    using assms by (auto simp: expire_lazily_def storage_error_def not_found_def split: prod.splits sum.splits if_splits)
qed

lemma submit_execute_error:
  assumes "submit_execute P Q cfg ids handle resp now w = (Inl e, w')"
  shows "storage_error e \<or> not_found e \<and> \<not> usable_handle (disk w) handle now"
proof (cases "pq_get_pending Q w handle")
  case (Inl x)
  then show ?thesis using assms by (auto simp: submit_execute_def storage_error_def)
next
  case (Inr ro)
  note p = read_pending[OF Inr]
  show ?thesis
  proof (cases ro)
    case None
    then show ?thesis using assms Inr p by (auto simp: submit_execute_def not_found_def usable_handle_def)
  next
    case (Some row)
    show ?thesis
    proof (cases "\<exists>x. pa_expires_at row = Some x \<and> x \<le> now")
      case True
      then obtain x where x: "pa_expires_at row = Some x" "x \<le> now" by blast
      then have "expire_lazily P Q ids row handle x now w = (Inl e, w')"
        using assms Inr Some by (simp add: submit_execute_def)
      moreover have "\<not> usable_handle (disk w) handle now"
        using x p Some by (auto simp: usable_handle_def)
      ultimately show ?thesis using expire_lazily_error by blast
    next
      case False
      then have "submit_queued P Q cfg ids row handle resp now w = (Inl e, w')"
        using assms Inr Some by (auto simp: submit_execute_def split: option.splits if_splits)
      then show ?thesis using submit_queued_error[of cfg ids row handle resp now w e w'] p Some
        by (auto simp: usable_handle_def)
    qed
  qed
qed

end

section \<open>The errors of an ingest\<close>

lemma ingest_error:
  assumes "ingest_execute P Qo oracle cfg ids req now w = (Inl e, w')"
  shows "storage_error e \<or> (\<exists>m. e = OracleError m)"
proof -
  have "storage_error e' \<or> (\<exists>m. e' = OracleError m)"
    if "ingest_classified P Qo oracle cfg ids req now c claims ledger w = (Inl e', w')" for e' c claims ledger
    using that by (auto simp: ingest_classified_def enqueue_adjudication_def storage_error_def Let_def
        dest!: in_txn_storage[OF _ storage_only_append] split: prod.splits sum.splits if_splits option.splits)
  then show ?thesis
    using assms by (auto simp: ingest_execute_def storage_error_def split: sum.splits firewall_verdict.splits)
qed

section \<open>A claim whose enqueueing failed\<close>

context engine_store
begin

lemma sweep_contests:
  assumes "sweep_expired_adjudications P (Some Q) ids now w = (Inr n, w')" "ledger_until now (disk w)"
    and "k \<in> orphans_of (disk w)" "\<not> unqueued (disk w) k"
  shows "latest_in (disk w') (fst k) (snd k) = Some Contested"
proof -
  from assms(1,2) obtain w1 where "sweep_rel now (disk w) (disk w1)" "sweep_rel now (disk w1) (disk w')"
    by (rule sweep_ok)
  then obtain es where es: "db_ledger (disk w') = db_ledger (disk w) @ es"
      "\<forall>e \<in> set es. le_disposition e = Contested \<and> le_recorded_at e = now"
    using sweep_rel_trans by (metis sweep_rel_def)
  let ?mine = "filter (\<lambda>e. le_agent_id e = fst k \<and> le_claim_ref e = snd k) es"
  have "unqueued (disk w') k" using sweep_recovers(2)[OF assms(1,2)] assms(3) by blast
  moreover have "le_disposition (last ?mine) = Contested" if "?mine \<noteq> []"
    using last_in_set[OF that] es(2) by simp
  ultimately show ?thesis
    using latest_in_append[of now "disk w" es "disk w'" "fst k" "snd k"] es assms(2,4)
    by (auto simp: unqueued_def Let_def split: if_splits)
qed

text \<open>An ingest that ends with the error of the oracle has stored its claim as queued, without a pending row.\<close>

lemma ingest_oracle_error:
  assumes "Qo \<in> {None, Some Q}" "ingest_execute P Qo oracle cfg ids req now w = (Inl (OracleError m), w')"
  defines "a \<equiv> iq_agent_id req" and "c \<equiv> request_claim req now (ids 0)"
  obtains dec where "disk w' = committed_db ids c dec a now (disk w)" "gd_disposition dec = QueuedForAdjudication"
    "ids 0 \<notin> cl_ref ` set (db_claims (disk w))"
proof -
  obtain claims ledger where i: "ingest_classified P Qo oracle cfg ids req now c claims ledger w = (Inl (OracleError m), w')"
    using assms(2) by (auto simp: ingest_execute_def c_def split: sum.splits firewall_verdict.splits)
  let ?dec = "ingest_decide cfg (oracle \<noteq> None) req c
    (fold_claims claims (assertions_for P w a) now None cfg (build_latest_disposition_map ledger)) ledger"
  obtain resp w1 where t: "in_txn P a (append_within_txn P ids c (snd ?dec) (fst ?dec) a now) w = (Inr resp, w1)"
      "enqueue_adjudication Qo oracle cfg req (fst ?dec) c resp now w1 = (Inl (OracleError m), w')"
    using i by (auto simp: ingest_classified_def a_def Let_def
        dest!: in_txn_storage[OF _ storage_only_append] split: prod.splits sum.splits)
  from t(1) obtain t0 t1 where tt: "work t0 = disk w" "disk w1 = work t1"
      "append_within_txn P ids c (snd ?dec) (fst ?dec) a now t0 = (Inr resp, t1)"
    by (metis in_txn_ok)
  note stored = append_within_txn_ok[OF tt(3)] and untouched = enqueue_tables(6)[OF assms(1) t(2) refl]
  show thesis
    by (rule that[of "snd ?dec"]) (use stored untouched tt(1,2) in \<open>auto simp: c_def\<close>)
qed

end

lemma committed_orphan:
  assumes "ledger_until now d" "cl_ref c \<notin> cl_ref ` set (db_claims d)" "cl_agent_id c = a"
    and "\<forall>row \<in> set (db_pending d). pa_challenger row \<noteq> cl_ref c" "gd_disposition dec = QueuedForAdjudication"
  shows "(a, cl_ref c) \<in> orphans_of (committed_db ids c dec a now d)"
proof -
  let ?e = "committed_entry (ids 1) a (cl_ref c) dec now"
  have "orphan_entry_of (committed_db ids c dec a now d) ?e"
    using assms committed_db_claim[OF assms(2,3), of ids dec now]
    by (auto simp: orphan_entry_of_def committed_db_tables ledger_until_def)
  moreover have "?e \<in> set (db_ledger (committed_db ids c dec a now d))" by (simp add: committed_db_tables)
  ultimately show ?thesis unfolding orphans_of_def by force
qed

section \<open>What the exception of a call means\<close>

lemma engine_method_PyErr:
  assumes "engine_method bad dep run pyt d w = (Inl (PyErr cls txt), w')" "dep d = Inr req"
  obtains e where "run req w = (Inl e, w')" "cls = mem_error_class e"
  using assms by (auto simp: engine_method_def mem_err_to_pyerr_def map_err_def split: prod.splits sum.splits)

lemma storage_error_class: "storage_error e \<Longrightarrow> mem_error_class e = StorageError"
  by (auto simp: storage_error_def)

lemma not_found_class: "not_found e \<Longrightarrow> mem_error_class e = NotFoundError"
  by (auto simp: not_found_def)

text \<open>C37. A verdict submitted from Python: it is accepted only for a handle whose row has not expired and
  whose challenger is still queued, and NotFoundError is raised only for another handle; the one other
  exception of the engine is StorageError.\<close>

theorem python_submit_exceptions:
  assumes "eh_persistence H = sqlite_port" "eh_pending_store H = Some sqlite_queue" "depythonize d = Inr resp"
    and "py_submit_adjudication depythonize pythonize H ids now d w = (r, w')"
  shows "case r of
      Inl (PyErr cls txt) \<Rightarrow> cls = StorageError \<or> cls = NotFoundError \<and> \<not> usable_handle (sqlite_disk w) (ap_handle_id resp) now
    | _ \<Rightarrow> usable_handle (sqlite_disk w) (ap_handle_id resp) now"
proof -
  let ?h = "ap_handle_id resp"
  have err: "storage_error e \<or> not_found e \<and> \<not> usable_handle (sqlite_disk w) ?h now"
    if "handle_submit H ids now resp w = (Inl e, w1)" for e w1
  proof (cases "pq_get_pending sqlite_queue w ?h")
    case (Inl x)
    then show ?thesis using that assms(2) by (auto simp: handle_submit_def storage_error_def)
  next
    case (Inr ro)
    show ?thesis
    proof (cases ro)
      case None
      then have "pending_of (sqlite_disk w) ?h = None" using sqlite_q.read_pending[OF Inr] by simp
      then show ?thesis using that assms(2) Inr None by (auto simp: handle_submit_def not_found_def usable_handle_def)
    next
      case (Some row)
      then have "submit_execute sqlite_port sqlite_queue (eh_config H) ids ?h resp now w = (Inl e, w1)"
        using that assms(1,2) Inr by (simp add: handle_submit_def)
      then show ?thesis by (rule sqlite_engine.submit_execute_error)
    qed
  qed
  have ok: "usable_handle (sqlite_disk w) ?h now" if "handle_submit H ids now resp w = (Inr out, w1)" for out w1
  proof -
    have "submit_execute sqlite_port sqlite_queue (eh_config H) ids ?h resp now w = (Inr out, w1)"
      using that assms(1,2) by (auto simp: handle_submit_def Let_def split: sum.splits option.splits)
    then show ?thesis
      by (rule sqlite_engine.submit_success) (auto simp: usable_handle_def unqueued_def row_key_def)
  qed
  obtain r1 w1 where s: "handle_submit H ids now resp w = (r1, w1)" by (cases "handle_submit H ids now resp w")
  show ?thesis
  proof (cases r1)
    case (Inl e)
    then have "r = Inl (mem_err_to_pyerr e)"
      using assms(3,4) s by (simp add: py_submit_adjudication_def engine_method_def)
    then show ?thesis
      using err[of e w1] s Inl by (auto simp: mem_err_to_pyerr_def storage_error_class not_found_class)
  next
    case (Inr out)
    then have "r = map_err PythonizeFailed (pythonize out)"
      using assms(3,4) s by (simp add: py_submit_adjudication_def engine_method_def)
    then show ?thesis using ok s Inr by (auto simp: map_err_def split: sum.splits)
  qed
qed


section \<open>Sample calls from Python\<close>

definition raising_oracle :: "(unit, unit) python_oracle" where
  "raising_oracle = \<lparr>po_pythonize = (\<lambda>_. Inr ()), po_call_method = (\<lambda>_ _. Inl [Lit ''ValueError'']),
     po_extract = (\<lambda>_. Inr []), po_parse_uuid = (\<lambda>_. Inr 0)\<rparr>"

definition raising_handle :: "(sqlite_world, sqlite_txn, sqlite_store_error) engine_handle" where
  "raising_handle = new_with_pending_store sqlite_port (Some (bridge_oracle raising_oracle)) sqlite_queue sample_config"

lemma raising_handle_ports [simp]:
  "eh_persistence raising_handle = sqlite_port" "eh_pending_store raising_handle = Some sqlite_queue"
  by (simp_all add: raising_handle_def new_with_pending_store_def)

definition py_sample_ingest :: "(sqlite_store_error py_err, unit) res \<times> sqlite_world" where
  "py_sample_ingest = py_ingest_claim Inr (\<lambda>_. Inr ()) raising_handle (sample_ids 11) 20 (sample_request ''y'' None) world1"

definition py_sample_sweep :: "(sqlite_store_error py_err, nat) res \<times> sqlite_world" where
  "py_sample_sweep = py_sweep_expired_adjudications raising_handle (sample_ids 200) 30 (snd py_sample_ingest)"

definition affirm_90 :: adjudication_response where
  "affirm_90 = \<lparr>ap_handle_id = 90, ap_verdict = Affirm, ap_evidence_provenance = External ExternalFirstHand\<rparr>"

definition py_sample_submit :: "instant \<Rightarrow> (sqlite_store_error py_err, unit) res \<times> sqlite_world" where
  "py_sample_submit now =
     py_submit_adjudication Inr (\<lambda>_. Inr ()) raising_handle (sample_ids 300) now affirm_90 world2"

lemma py_sample_ingest_raises:
  "fst py_sample_ingest = Inl (PyErr ConfigError (MemErrorText (OracleError
     [Lit ''Python oracle raised an exception: '', Lit ''ValueError''])))"
  by code_simp


theorem python_submit_exceptions_witness:
  "usable_handle (sqlite_disk world2) 90 21 \<and> \<not> usable_handle (sqlite_disk world2) 90 25"
proof -
  have r: "fst (py_sample_submit 21) = Inr ()"
    "fst (py_sample_submit 25) = Inl (PyErr NotFoundError (MemErrorText (AdjudicationHandleNotFound 90)))" by code_simp+
  have h: "ap_handle_id affirm_90 = 90" by (simp add: affirm_90_def)
  have "case fst (py_sample_submit t) of
      Inl (PyErr cls txt) \<Rightarrow> cls = StorageError \<or> cls = NotFoundError \<and> \<not> usable_handle (sqlite_disk world2) (ap_handle_id affirm_90) t
    | _ \<Rightarrow> usable_handle (sqlite_disk world2) (ap_handle_id affirm_90) t" for t
    by (rule python_submit_exceptions[where depythonize = Inr and d = affirm_90 and pythonize = "\<lambda>_. Inr ()" and
        H = raising_handle and ids = "sample_ids 300" and now = t and w' = "snd (py_sample_submit t)"])
      (simp_all add: py_sample_submit_def)
  from this[of 21] this[of 25] show ?thesis using r h by simp
qed

end
