(* ===== verification/Noop_Ports.thy ===== *)
theory Noop_Ports
  imports Write_Facts Samples
begin

text \<open>The stubs of \<^verbatim>\<open>mempill-core/src/noop.rs\<close> and the vector port of \<^verbatim>\<open>ports/embedding.rs\<close>, which has no
  caller. The UUID drawn for a handle is an argument.\<close>

definition no_op_oracle :: "uuid \<Rightarrow> oracle_port" where
  "no_op_oracle fresh a request = Inr fresh"

record ('w, 'e) vector_port =
  vp_store_embedding :: "agent_id \<Rightarrow> claim_ref \<Rightarrow> f32 list \<Rightarrow> string \<Rightarrow> 'w \<Rightarrow> ('e, unit) res \<times> 'w"
  vp_search :: "'w \<Rightarrow> agent_id \<Rightarrow> f32 list \<Rightarrow> nat \<Rightarrow> string \<Rightarrow> ('e, claim_ref list) res"

definition no_op_vector :: "('w, 'e) vector_port" where
  "no_op_vector = \<lparr>vp_store_embedding = (\<lambda>a r v m w. (Inr (), w)), vp_search = (\<lambda>w a v k m. Inr [])\<rparr>"

section \<open>Waiting for a verdict that never comes\<close>

text \<open>With the no-op oracle and no time to live, a contradiction waits for ever: once it is queued no sweep,
  at any time and whatever fails, gives it another disposition.\<close>

theorem no_op_oracle_waits_forever:
  assumes "ingest_execute sqlite_port (Some sqlite_queue) (Some (no_op_oracle h)) cfg ids req now w = (Inr resp, w')"
    and "ir_disposition resp = QueuedForAdjudication" "ec_default_adjudication_ttl cfg = None"
    and "iq_provenance req \<noteq> RecallReEntry" "ec_quarantine_burst_threshold cfg \<noteq> 0"
    and "db_wf (sqlite_disk w)" "ledger_until now (sqlite_disk w)"
    and "\<forall>row \<in> set (db_pending (sqlite_disk w)). pa_challenger row \<noteq> ids 0"
    and "sweep_expired_adjudications sqlite_port (Some sqlite_queue) ids' later w' = (r, w'')"
  shows "latest_in (sqlite_disk w'') (iq_agent_id req) (ir_claim_ref resp) = Some QueuedForAdjudication"
proof -
  let ?a = "iq_agent_id req" and ?c = "request_claim req now (ids 0)"
  have "engine_run cfg now w now w'"
    using run_step[OF run_refl _ step_ingest[of "Some sqlite_queue" sqlite_queue]] assms(1) by (metis insertCI order_refl snd_conv)
  then have wf: "db_wf (sqlite_disk w')" using assms(6) by (rule engine_run_wf)
  have Q: "Some sqlite_queue \<in> {None, Some sqlite_queue}" by simp
  from Q assms(1) show ?thesis
  proof (cases rule: sqlite_engine.ingest_outcomes)
    case Nothing
    then show ?thesis using assms(4,5) by auto
  next
    case (Committed claims ledger inc dec rows)
    have resp: "ir_claim_ref resp = ids 0" "gd_disposition dec = QueuedForAdjudication" "rows \<noteq> []"
      using Committed(8)[OF refl] assms(2) by simp_all
    then obtain row where row: "rows = [row]" "pa_agent_id row = ?a" "pa_challenger row = ids 0"
        "pa_status row = ''pending''" "pa_expires_at row = None"
      using Committed(7) assms(3) by (auto simp: pending_row_of_def)
    have pending: "db_pending (sqlite_disk w') = db_pending (sqlite_disk w) @ [row]"
      using Committed(5) row(1) by simp
    have "latest_in (sqlite_disk w') ?a (ids 0) = Some QueuedForAdjudication"
      using committed_db_latest[OF assms(7), of ids ?c dec ?a] Committed(5) resp(2)
      by (simp add: latest_in_def ledger_of_chunk_def)
    moreover have "\<forall>x \<in> set (expired_of (sqlite_disk w') later). row_key x \<noteq> row_key row"
      using assms(8) row pending by (auto simp: expired_of_def row_key_def split: option.splits)
    then have "latest_in (sqlite_disk w'') (pa_agent_id row) (pa_challenger row)
        = latest_in (sqlite_disk w') (pa_agent_id row) (pa_challenger row)"
      using sqlite_engine.sweep_spares[OF assms(9) wf _ row(4)] pending by simp
    ultimately show ?thesis using row resp(1) by simp
  qed
qed

definition patient_config :: engine_config where
  "patient_config = sample_config\<lparr>ec_default_adjudication_ttl := None\<rparr>"

definition sample_unanswered :: "(sqlite_store_error mem_error, ingest_response) res \<times> sqlite_world" where
  "sample_unanswered = ingest_execute sqlite_port (Some sqlite_queue) (Some (no_op_oracle 77)) patient_config
     (sample_ids 11) (sample_request ''y'' None) 20 world1"

definition sample_late_sweep :: "(sqlite_store_error mem_error, nat) res \<times> sqlite_world" where
  "sample_late_sweep = sweep_expired_adjudications sqlite_port (Some sqlite_queue) (sample_ids 100) 1000000 (snd sample_unanswered)"

theorem no_op_oracle_waits_forever_witness:
  "latest_in (sqlite_disk (snd sample_late_sweep)) ''a'' 11 = Some QueuedForAdjudication"
proof -
  have "\<not> isl (fst sample_unanswered)" by code_simp
  then have run: "ingest_execute sqlite_port (Some sqlite_queue) (Some (no_op_oracle 77)) patient_config
      (sample_ids 11) (sample_request ''y'' None) 20 world1 = (Inr (projr (fst sample_unanswered)), snd sample_unanswered)"
    by (simp add: sample_unanswered_def prod_eq_iff)
  have resp: "ir_disposition (projr (fst sample_unanswered)) = QueuedForAdjudication"
    "ir_claim_ref (projr (fst sample_unanswered)) = 11" by code_simp+
  have cfg: "ec_default_adjudication_ttl patient_config = None" "iq_provenance (sample_request ''y'' None) \<noteq> RecallReEntry"
    "ec_quarantine_burst_threshold patient_config \<noteq> 0" "iq_agent_id (sample_request ''y'' None) = ''a''" by code_simp+
  have until: "ledger_until 20 (sqlite_disk world1)" by (unfold ledger_until_def) code_simp
  have rows: "\<forall>row \<in> set (db_pending (sqlite_disk world1)). pa_challenger row \<noteq> sample_ids 11 0" by code_simp
  have "sweep_expired_adjudications sqlite_port (Some sqlite_queue) (sample_ids 100) 1000000 (snd sample_unanswered)
      = (fst sample_late_sweep, snd sample_late_sweep)" by (simp add: sample_late_sweep_def)
  from no_op_oracle_waits_forever[OF run resp(1) cfg(1-3) sample_wf(1) until rows this] show ?thesis
    using resp(2) cfg(4) by simp
qed

end
