(* ===== verification/Engine_Open.thy ===== *)
theory Engine_Open
  imports Open_Properties Lock_Properties Postgres_Store
begin

text \<open>The constructors that build an engine: \<^verbatim>\<open>mempill-sqlite/src/lib.rs\<close> and the end of
  \<^verbatim>\<open>mempill-postgres/src/store.rs\<close>. A constructor returns the connection (or the pool) beside the handle
  over its store. The handle has no vector port, which no operation calls.\<close>

section \<open>SQLite\<close>

text \<open>An in-memory database is new and private to its connection.\<close>

definition open_in_memory :: "'v open_world \<Rightarrow> (sqlite_store_error, connection) res \<times> 'v open_world" where
  "open_in_memory w = open_once '':memory:'' (w\<lparr>ow_files := (ow_files w)('':memory:'' := new_file)\<rparr>)"

type_synonym default_engine = "(sqlite_world, sqlite_txn, sqlite_store_error) engine_handle"

definition default_engine_over :: "connection \<Rightarrow> connection \<times> default_engine" where
  "default_engine_over c = (c, new_handle sqlite_port None default_config)"

definition oracle_engine_over :: "oracle_port \<Rightarrow> connection \<Rightarrow> connection \<times> default_engine" where
  "oracle_engine_over oracle c = (c, new_with_pending_store sqlite_port (Some oracle) sqlite_queue default_config)"

definition open_default_for_agent ::
    "string \<Rightarrow> agent_id \<Rightarrow> 'v open_world \<Rightarrow> (sqlite_store_error, connection \<times> default_engine) res \<times> 'v open_world" where
  "open_default_for_agent base_dir a w =
     (case open_for_agent base_dir a w of
        (Inl e, w1) \<Rightarrow> (Inl e, w1)
      | (Inr c, w1) \<Rightarrow> (Inr (default_engine_over c), w1))"

definition open_with_oracle_for_agent ::
    "string \<Rightarrow> agent_id \<Rightarrow> oracle_port \<Rightarrow> 'v open_world
       \<Rightarrow> (sqlite_store_error, connection \<times> default_engine) res \<times> 'v open_world" where
  "open_with_oracle_for_agent base_dir a oracle w =
     (case open_for_agent base_dir a w of
        (Inl e, w1) \<Rightarrow> (Inl e, w1)
      | (Inr c, w1) \<Rightarrow> (Inr (oracle_engine_over oracle c), w1))"

definition open_default_in_memory ::
    "'v open_world \<Rightarrow> (sqlite_store_error, connection \<times> default_engine) res \<times> 'v open_world" where
  "open_default_in_memory w =
     (case open_in_memory w of
        (Inl e, w1) \<Rightarrow> (Inl e, w1)
      | (Inr c, w1) \<Rightarrow> (Inr (default_engine_over c), w1))"

definition open_with_oracle_in_memory ::
    "oracle_port \<Rightarrow> 'v open_world \<Rightarrow> (sqlite_store_error, connection \<times> default_engine) res \<times> 'v open_world" where
  "open_with_oracle_in_memory oracle w =
     (case open_in_memory w of
        (Inl e, w1) \<Rightarrow> (Inl e, w1)
      | (Inr c, w1) \<Rightarrow> (Inr (oracle_engine_over oracle c), w1))"

section \<open>PostgreSQL\<close>

type_synonym postgres_engine = "(pg_world, pg_txn, postgres_store_error) engine_handle"

text \<open>\<^verbatim>\<open>PostgresPersistenceStore::new\<close> takes the default settings; the driver's parts are parameters.\<close>

definition postgres_new ::
    "('c \<Rightarrow> (postgres_store_error, 'd) res) \<Rightarrow> ('d \<Rightarrow> (postgres_store_error, unit) res)
       \<Rightarrow> ('c \<Rightarrow> pool_config \<Rightarrow> (postgres_store_error, 'p) res) \<Rightarrow> 'c \<Rightarrow> (postgres_store_error, 'p) res" where
  "postgres_new connect migrate build conn_string = with_pool_config connect migrate build conn_string default_pool_config"

definition open_postgres ::
    "('c \<Rightarrow> (postgres_store_error, 'd) res) \<Rightarrow> ('d \<Rightarrow> (postgres_store_error, unit) res)
       \<Rightarrow> ('c \<Rightarrow> pool_config \<Rightarrow> (postgres_store_error, 'p) res) \<Rightarrow> 'c \<Rightarrow> oracle_port option \<Rightarrow> engine_config
       \<Rightarrow> (postgres_store_error, 'p \<times> postgres_engine) res" where
  "open_postgres connect migrate build conn_string oracle cfg =
     and_then (postgres_new connect migrate build conn_string) (\<lambda>pool.
       Inr (pool, new_handle postgres_port oracle cfg))"

definition open_postgres_with_oracle ::
    "('c \<Rightarrow> (postgres_store_error, 'd) res) \<Rightarrow> ('d \<Rightarrow> (postgres_store_error, unit) res)
       \<Rightarrow> ('c \<Rightarrow> pool_config \<Rightarrow> (postgres_store_error, 'p) res) \<Rightarrow> 'c \<Rightarrow> oracle_port \<Rightarrow> engine_config
       \<Rightarrow> (postgres_store_error, 'p \<times> postgres_engine) res" where
  "open_postgres_with_oracle connect migrate build conn_string oracle cfg =
     and_then (postgres_new connect migrate build conn_string) (\<lambda>pool.
       Inr (pool, new_with_pending_store postgres_port (Some oracle) postgres_queue cfg))"

section \<open>What an opened engine is\<close>

lemma engine_over_sqlite:
  "sqlite_handle (snd (default_engine_over c))" "sqlite_handle (snd (oracle_engine_over oracle c))"
  by (simp_all add: default_engine_over_def oracle_engine_over_def sqlite_handle_def new_handle_def new_with_pending_store_def)

text \<open>Opening the engine of an agent touches the file of that agent alone: the file of another agent
  keeps its schema and rows. An engine that opened has its foreign keys enforced and the current schema,
  and its handle is one of the SQLite adapter, with the queue, so what is proved of such handles
  under any interleaving applies to it. An agent name that is refused leaves all files as they were.\<close>

theorem opened_engines_are_isolated:
  assumes "open_with_oracle_for_agent base a oracle w = (r, w')"
    and "\<forall>p. \<exists>k \<le> CURRENT_SCHEMA_VERSION. at_version k (ow_files w p)"
  shows "(\<forall>b p. b \<noteq> a \<and> derive_agent_db_path base b = Inr p \<longrightarrow> ow_files w' p = ow_files w p)
    \<and> (\<forall>c H. r = Inr (c, H) \<longrightarrow> derive_agent_db_path base a = Inr (cn_path c)
          \<and> opened (cn_path c) c w' \<and> sqlite_handle H \<and> eh_pending_store H = Some sqlite_queue)
    \<and> (\<forall>e. derive_agent_db_path base a = Inl e \<longrightarrow> r = Inl e \<and> w' = w)"
proof (cases "derive_agent_db_path base a")
  case (Inl e)
  then show ?thesis using assms(1) by (auto simp: open_with_oracle_for_agent_def open_for_agent_def)
next
  case (Inr path)
  obtain q w1 where q: "open_loop 0 path w = (q, w1)" by force
  obtain k where k: "at_version k (ow_files w path)" "k \<le> 4"
    using assms(2) by (auto simp: CURRENT_SCHEMA_VERSION_def)
  have eff: "only_upgrades path w w1" "\<forall>c. q = Inr c \<longrightarrow> opened path c w1"
    using open_loop_effect[OF q _ k] by simp_all
  have run: "(r, w') = (case q of Inl e \<Rightarrow> (Inl e, w1) | Inr c \<Rightarrow> (Inr (oracle_engine_over oracle c), w1))"
    using assms(1) Inr q by (auto simp: open_with_oracle_for_agent_def open_for_agent_def open_connection_def split: sum.splits)
  then have w': "w' = w1" by (auto split: sum.splits)
  have "ow_files w' p = ow_files w p" if "b \<noteq> a" "derive_agent_db_path base b = Inr p" for b p
  proof -
    have "p \<noteq> path" using that derive_inj Inr by blast
    then show ?thesis using eff(1) w' by (simp add: only_upgrades_def)
  qed
  moreover have "derive_agent_db_path base a = Inr (cn_path c) \<and> opened (cn_path c) c w' \<and> sqlite_handle H
      \<and> eh_pending_store H = Some sqlite_queue" if "r = Inr (c, H)" for c H
    using that run eff(2) Inr w' engine_over_sqlite(2)
    by (auto simp: opened_def oracle_engine_over_def new_with_pending_store_def split: sum.splits)
  moreover have "\<forall>e. derive_agent_db_path base a = Inl e \<longrightarrow> r = Inl e \<and> w' = w" using Inr by simp
  ultimately show ?thesis by blast
qed

theorem opened_engines_are_isolated_witness:
  "\<exists>c H w'. open_with_oracle_for_agent ''/data'' ''A'' sample_oracle busy_world = (Inr (c, H), w')
     \<and> cn_path c = ''/data/agent_A.db'' \<and> cn_foreign_keys c \<and> sqlite_handle H
     \<and> ow_files w' ''/data/agent_a.db'' = new_file"
proof -
  have path: "derive_agent_db_path ''/data'' ''A'' = Inr ''/data/agent_A.db''"
    "derive_agent_db_path ''/data'' ''a'' = Inr ''/data/agent_a.db''" by code_simp+
  obtain r w' where r: "open_with_oracle_for_agent ''/data'' ''A'' sample_oracle busy_world = (r, w')" by force
  have "\<not> isl (fst (open_for_agent ''/data'' ''A'' busy_world))" by code_simp
  then obtain c H where ok: "r = Inr (c, H)"
    using r by (cases r) (auto simp: open_with_oracle_for_agent_def split: prod.splits sum.splits)
  have "\<forall>p. \<exists>k \<le> CURRENT_SCHEMA_VERSION. at_version k (ow_files busy_world p)"
    using new_file_version by (auto simp: busy_world_def)
  note iso = opened_engines_are_isolated[OF r this]
  have "''a'' \<noteq> ''A''" by simp
  then have "ow_files w' ''/data/agent_a.db'' = ow_files busy_world ''/data/agent_a.db''"
    by (rule iso[THEN conjunct1, rule_format, OF conjI, OF _ path(2)])
  moreover note c = iso[THEN conjunct2, THEN conjunct1, rule_format, OF ok]
  moreover have "cn_path c = ''/data/agent_A.db''" using trans[OF sym[OF path(1)] conjunct1[OF c]] by simp
  moreover have "ow_files busy_world p = new_file" for p by (simp add: busy_world_def)
  ultimately show ?thesis using r ok unfolding opened_def by metis
qed

text \<open>The default settings of the pool are valid: a refused configuration comes from the driver alone.\<close>

lemma open_postgres_result:
  "open_postgres_with_oracle connect migrate build cs oracle cfg =
     and_then (connect cs) (\<lambda>client. and_then (migrate client) (\<lambda>_. and_then (build cs default_pool_config) (\<lambda>pool.
       Inr (pool, new_with_pending_store postgres_port (Some oracle) postgres_queue cfg))))"
  by (auto simp: open_postgres_with_oracle_def postgres_new_def with_pool_config_def default_pool_config_def
        and_then_def split: sum.split)

end
