(* ===== verification/Spec2Isabelle.thy ===== *)
theory Spec2Isabelle
  imports Truth_Properties Gate_Properties Write_Properties Adjudication_Properties Validity_Properties Open_Properties Lock_Properties Postgres_Properties Facade_Properties Python_Properties Noop_Ports Engine_Open
begin

text \<open>Verification of mempill, an embedded memory for agents that keeps what was claimed, when it was
  recorded (transaction time) and when it was true (valid time), and never forgets.

  The program. A host sends claims about a line (subject, predicate) of an agent. \<^verbatim>\<open>ingest_claim\<close>
  stamps the claim (\<^verbatim>\<open>engine/gateway.rs\<close>), stops re-entry of recalled content (\<^verbatim>\<open>engine/firewall.rs\<close>),
  folds the line to its present belief (\<^verbatim>\<open>engine/truth_engine.rs\<close>), classifies the conflict with it
  (\<^verbatim>\<open>engine/reconciler.rs\<close>), decides (\<^verbatim>\<open>engine/gate.rs\<close>) and appends claim, ledger entry and edges in
  one transaction; a contradiction is queued for an oracle when there is one. \<^verbatim>\<open>submit_adjudication\<close>
  applies the oracle's verdict, \<^verbatim>\<open>sweep_expired_adjudications\<close> contests what no oracle answered in
  time and what lost its queue row, \<^verbatim>\<open>assert_validity\<close> closes and reopens claims on the host's word,
  \<^verbatim>\<open>reconcile\<close> decides lines again. \<^verbatim>\<open>query_memory\<close> recalls a belief at a transaction time and a valid
  time, \<^verbatim>\<open>query_subject\<close>, \<^verbatim>\<open>query_history\<close> and \<^verbatim>\<open>audit\<close> read the rest. Storage is behind two traits
  (\<^verbatim>\<open>ports/persistence.rs\<close>, \<^verbatim>\<open>ports/pending_adjudication.rs\<close>); SQLite and
  PostgreSQL implement both. The facade crate wraps the calls in a flat interface.

  The theories, in the order of the code's layers.
  \<^item> \<^verbatim>\<open>Prelude\<close>: results, transaction steps, f32 values, list and sorting lemmas. \<^verbatim>\<open>Mem_Types\<close>: the
    types of the crate mempill-types. \<^verbatim>\<open>Config_Error\<close>: \<^verbatim>\<open>config.rs\<close> and \<^verbatim>\<open>error.rs\<close>.
  \<^item> \<^verbatim>\<open>Gateway_Firewall\<close>, \<^verbatim>\<open>Valid_Time\<close>, \<^verbatim>\<open>Truth_Engine\<close>, \<^verbatim>\<open>Projection\<close>, \<^verbatim>\<open>Gate_Reconciler\<close>: the pure
    engine, one theory per file (or two) of \<^verbatim>\<open>mempill-core/src/engine\<close>. \<^verbatim>\<open>Truth_Facts\<close>: their lemmas.
  \<^item> \<^verbatim>\<open>Ports\<close>: the two traits as records of operations, the logical content \<^verbatim>\<open>db\<close> of a store, and the
    locales \<^verbatim>\<open>persistence\<close>, \<^verbatim>\<open>pending_queue\<close> and \<^verbatim>\<open>engine_store\<close> with what the traits promise.
    \<^verbatim>\<open>Txn_Effects\<close>: the begin, append, commit or rollback protocol and the effect it has.
  \<^item> \<^verbatim>\<open>Sqlite_Codecs\<close>, \<^verbatim>\<open>Sqlite_Store\<close>: the adapter of \<^verbatim>\<open>mempill-sqlite\<close>, rows and SQL as operations on
    lists; it interprets the three locales. \<^verbatim>\<open>Store_Facts\<close>: reads after writes.
  \<^item> \<^verbatim>\<open>Ledger_Maps\<close>, \<^verbatim>\<open>Ingest\<close>, \<^verbatim>\<open>Adjudication\<close>, \<^verbatim>\<open>Assert_Validity\<close>, \<^verbatim>\<open>Reconcile_UC\<close>, \<^verbatim>\<open>Queries\<close>: the use
    cases of \<^verbatim>\<open>mempill-core/src/application\<close>, generic in the two ports; each \<^verbatim>\<open>_execute\<close> is one
    \<^verbatim>\<open>execute\<close> or \<^verbatim>\<open>execute_with_time\<close>, with every early return. \<^verbatim>\<open>Ingest_Facts\<close>, \<^verbatim>\<open>Write_Facts\<close>,
    \<^verbatim>\<open>Adjudication_Facts\<close>, \<^verbatim>\<open>Validity_Facts\<close>, \<^verbatim>\<open>Query_Facts\<close>: their lemmas, proved once in the locales.
  \<^item> \<^verbatim>\<open>Engine_Steps\<close>: write calls of the handle as steps of a transition system and the invariants of
    its runs.
  \<^item> \<^verbatim>\<open>Engine_Locks\<close>: the asynchronous shell, \<^verbatim>\<open>engine_handle.rs\<close> and \<^verbatim>\<open>concurrency/agent_lock.rs\<close>: a call
    is a task that moves from one await point to the next, the locks are shared state, any task that
    can go on may be the next. \<^verbatim>\<open>Lock_Properties\<close>: exclusion, progress, and the link to sequential runs.
  \<^item> \<^verbatim>\<open>Sqlite_Open\<close>: \<^verbatim>\<open>connection.rs\<close> and \<^verbatim>\<open>migrations.rs\<close>: the path of an agent's file, the retry on a
    busy file, the schema versions in one transaction. \<^verbatim>\<open>Open_Properties\<close>: their properties.
  \<^item> \<^verbatim>\<open>Postgres_Codecs\<close>, \<^verbatim>\<open>Postgres_Store\<close>: the adapter of \<^verbatim>\<open>mempill-postgres\<close>, the second
    interpretation of the locales; each operation is linked to that of SQLite on the same content.
    \<^verbatim>\<open>Postgres_Server\<close>: the transactions of \<^verbatim>\<open>txn.rs\<close> run at the same time on one database, with
    advisory locks. \<^verbatim>\<open>Postgres_Properties\<close>: their properties.
  \<^item> \<^verbatim>\<open>Facade\<close>: \<^verbatim>\<open>ergonomic.rs\<close> and \<^verbatim>\<open>date.rs\<close> of \<^verbatim>\<open>mempill-facade\<close>, remember, recall, history and
    end_fact over the engine handle. \<^verbatim>\<open>Facade_Properties\<close>: their properties.
  \<^item> \<^verbatim>\<open>Python_Bindings\<close>: the crate \<^verbatim>\<open>mempill-python\<close>, the oracle bridge, exception classes, display
    texts and the methods of the engine classes. \<^verbatim>\<open>Python_Properties\<close>: what an exception means.
    \<^verbatim>\<open>Noop_Ports\<close>: the stubs of \<^verbatim>\<open>noop.rs\<close>. \<^verbatim>\<open>Engine_Open\<close>: the constructors of an
    engine over either adapter, and what an opened engine is.
  \<^item> \<^verbatim>\<open>Samples\<close> and the \<^verbatim>\<open>_Properties\<close> theories: the properties, each with a run that witnesses it.

  Conventions. An instant is an integer count of nanoseconds; a UUID is a number; the time \<^verbatim>\<open>now\<close> and the
  fresh UUIDs of a call (\<^verbatim>\<open>ids\<close>, the n-th drawn) are arguments; an f32 is a rational, an infinity or NaN;
  u32 fields are 32-bit words. Errors are values of \<^verbatim>\<open>mem_error\<close> in a sum. The oracle is a parameter: any
  function from a request to a handle or an error. A statement of the database can fail at any point:
  the SQLite world carries a schedule of failures for statements and a predicate for reads, both
  arbitrary in the theorems. Text made by third-party code (JSON numbers, RFC 3339, UUIDs) is kept as
  an uninterpreted piece of a message.

  What the lemmas show. The active bound of a claim is the effect of the latest assertion in force; the
  fold is independent of arrival order and serves exactly the live claims, narrowed in a trusted
  succession; a valid-time recall serves the claim whose bound-narrowed window contains the instant and
  never a denied one; history agrees with recall. A silent commit never overlaps another value and a
  contradiction is never decided without an oracle. Every write call is atomic under any failure and
  only appends; verdicts are applied whole and once, never after expiry; a sweep leaves nothing stuck;
  bounds are idempotent and reopening undoes them. Recall over the SQL tables computes a specification
  on the logical store, and a recall of the past is stable under every later run.
  Opening a file stops within ten attempts and migrates it whole or not at all; the files of different
  agents differ. Interleaved calls exclude each other as the adapter asks, never deadlock, all return,
  and keep the store append-only. PostgreSQL keeps the same invariants and agrees with SQLite on recall;
  under any interleaving of its sessions the ledger of an agent is numbered without a gap as long as the
  advisory lock is taken. The facade builds well-formed requests, recalls what was remembered, and ends
  exactly the fact that recall serves. From Python, NotFoundError means an unusable handle, and ConfigError
  from an ingest means a stored claim that waits for the next sweep.

  Bounds. The chunk size is 900 and the lineage depth 64 as in the code; \<^verbatim>\<open>chunks\<close> terminates because a
  chunk is not empty; no other definition needs fuel.

  Assumptions that a reader should know. SQL without a total \<^verbatim>\<open>ORDER BY\<close> returns ties in insertion
  order. Comparison of stored instants as text agrees with their order (RFC 3339 in UTC, years up to 9999). A fold reads a failed load of validity assertions as none, as
  the code does; theorems about recall assume these reads succeed. A use case takes effect as
  one step, which \<^verbatim>\<open>Lock_Properties\<close> justifies for SQLite as long as no future of a call is dropped;
  theorems about the past assume that the clock does not go back between the calls of a run.

  Not modelled. The MCP server and the TypeScript client, the conformance suites (tests), the embedding and
  extractor ports (no caller in the core), serialization of the public types, constructors
  that only store their arguments in a record. Of PostgreSQL: the normalisation of numbers in JSONB, what a pooled
  connection does after a failed begin, the migrations (run by refinery). The calendar behind the
  facade's dates (chrono) is a parameter.\<close>

section \<open>Properties that span components\<close>

text \<open>C1. The past is immutable. A recall with a transaction-time cutoff before the start of a run of
  the engine, any sequence of write calls with a clock that does not go back and any failures in
  between, gives the same belief after the run as before it.\<close>

theorem recall_of_the_past_is_stable:
  assumes "engine_run cfg t w t' w'" "db_wf (sqlite_disk w)"
    and "qm_as_of_tx_time req = Some T" "T < t"
    and "assertions_readable sqlite_port w (qm_agent_id req)" "assertions_readable sqlite_port w' (qm_agent_id req)"
    and "query_memory_execute sqlite_port cfg' req now w = Inr before"
    and "query_memory_execute sqlite_port cfg' req now w' = Inr after"
  shows "after = before"
proof -
  have "before = recall_spec cfg' (sqlite_disk w) req now"
    by (rule sqlite.query_memory_spec[OF assms(7,2,5)])
  moreover have "after = recall_spec cfg' (sqlite_disk w') req now"
    by (rule sqlite.query_memory_spec[OF assms(8) engine_run_wf[OF assms(1,2)] assms(6)])
  ultimately show ?thesis using engine_run_recall[OF assms(1-4)] by simp
qed

theorem recall_of_the_past_is_stable_witness:
  "sample_recall (Some 15) world2 = sample_recall (Some 15) world1"
  by (rule recall_of_the_past_is_stable[OF sample_run sample_wf(1) _ _ _ _ sample_recalls(1,2), of 15])
    (simp_all add: sample_query_def sample_readable)

text \<open>C13. The store is append-only. Over any run of the engine, the claims, assertions, ledger entries
  and edges of the start are a prefix of those of the end, everything added is stamped no earlier
  than the start, and a pending row changes in its status only.\<close>

theorem store_is_append_only:
  assumes "engine_run cfg t w t' w'"
  shows "extends t (sqlite_disk w) (sqlite_disk w')"
  using assms by (rule engine_run_extends)

theorem store_is_append_only_witness: "extends 20 (sqlite_disk world1) (sqlite_disk world2)"
  by (rule store_is_append_only[OF sample_run])

text \<open>C14. The invariant of every reachable store: claim references, assertion references and handles
  are unique, and no ledger entry is stamped later than the clock.\<close>

theorem reachable_stores_are_well_formed:
  assumes "engine_run cfg t fresh_world t' w"
  shows "db_wf (sqlite_disk w) \<and> ledger_until t' (sqlite_disk w)"
  using engine_run_wf[OF assms] engine_run_until[OF assms] by simp

theorem reachable_stores_are_well_formed_witness:
  "db_wf (sqlite_disk world1) \<and> ledger_until 10 (sqlite_disk world1)"
proof -
  have "engine_run sample_config 10 fresh_world 10 world1"
    unfolding world1_def by (rule run_step[OF run_refl _ step_ingest]) simp_all
  then show ?thesis by (rule reachable_stores_are_well_formed)
qed



text \<open>\<^verbatim>\<open>resolve_live_claim_for_line\<close> agrees with recall: when it finds a single live claim, a recall of
  the line at the same time has that claim as its primary belief; when it finds none, the recall has
  no belief.\<close>

theorem resolution_agrees_with_recall:
  assumes "resolve_live_claim_for_line sqlite_port cfg a s p now w = Inr res"
    and "query_memory_execute sqlite_port cfg
      \<lparr>qm_agent_id = a, qm_subject = s, qm_predicate = p, qm_as_of_tx_time = None, qm_valid_at = None\<rparr> now w = Inr b"
    and "db_wf (sqlite_disk w)" "assertions_readable sqlite_port w a"
  shows "(res = LR_Single r \<longrightarrow> map_option be_claim_ref (bp_primary b) = Some r)
     \<and> (res = LR_Empty \<longleftrightarrow> bp_status b = BS_NoBelief)"
proof -
  let ?req = "\<lparr>qm_agent_id = a, qm_subject = s, qm_predicate = p, qm_as_of_tx_time = None, qm_valid_at = None\<rparr>"
  let ?fr = "recall_fold cfg (sqlite_disk w) ?req now"
  have res: "res = (case fr_live_claims ?fr of [] \<Rightarrow> LR_Empty | [cs] \<Rightarrow> LR_Single (cl_ref (cw_claim cs))
      | css \<Rightarrow> LR_Ambiguous (length css))"
    by (rule sqlite.resolve_live_spec[OF assms(1,3,4)])
  have "b = recall_spec cfg (sqlite_disk w) ?req now"
    using sqlite.query_memory_spec[OF assms(2,3)] assms(4) by simp
  then obtain entries contested where b: "b = project ?fr entries now cfg contested"
    by (auto simp: recall_spec_def recall_as_of_def query_memory_project_def Let_def)
  have "fr_has_conflict ?fr = structural_conflict (fr_live_claims ?fr)"
    by (simp add: recall_fold_def query_memory_fold_def Let_def fold_claims_conflict)
  then have "\<not> fr_has_conflict ?fr" if "length (fr_live_claims ?fr) \<le> 1"
    using structural_conflict_le_1[OF that] by simp
  then show ?thesis
    unfolding b res using project_primary[of ?fr entries now cfg contested]
    by (auto simp: project_status split: list.splits)
qed

theorem resolution_agrees_with_recall_witness:
  "map_option be_claim_ref (bp_primary (sample_recall None world1)) = Some 1"
proof -
  have r: "resolve_live_claim_for_line sqlite_port sample_config ''a'' ''s'' ''p'' 30 world1 = Inr (LR_Single 1)" by code_simp
  have "\<not> isl (query_memory_execute sqlite_port sample_config (sample_query None None) 30 world1)" by code_simp
  then have q: "query_memory_execute sqlite_port sample_config
      \<lparr>qm_agent_id = ''a'', qm_subject = ''s'', qm_predicate = ''p'', qm_as_of_tx_time = None, qm_valid_at = None\<rparr>
      30 world1 = Inr (sample_recall None world1)"
    by (simp add: sample_recall_def sample_query_def)
  show ?thesis
    using resolution_agrees_with_recall[OF r q sample_wf(1) sample_readable(1), of 1] by simp
qed

end
